(* ===== verification/Prelude.thy ===== *)
theory Prelude
  imports Main "HOL-Library.AList" "HOL-Library.List_Lexorder" "HOL-Library.Char_ord"
    "HOL-Library.Product_Lexorder" "HOL-Library.Word"
begin

text \<open>
  What every component of the model shares: the shape of a Go call (a context that may be nil or
  done, a result that is an error or a value), Go's 64-bit arithmetic, instants of time, and Go maps
  as association lists with the lemmas the components use about them.

  \<^item> A fallible call returns \<open>'e + 'a\<close>, with \<open>Inl\<close> for the error.
  \<^item> A method on a pointer takes the receiver's state and returns it updated, paired with its
    result: \<open>'s \<Rightarrow> 's \<times> ('e + 'a)\<close>.
  \<^item> \<open>time.Time\<close> is the instant it denotes, an \<open>int\<close> counting nanoseconds from Go's zero
    time (0001-01-01 00:00:00 UTC), so that \<open>IsZero\<close> is \<open>t = 0\<close>, \<open>UTC\<close> is the
    identity, and \<open>Before\<close>, \<open>After\<close>, \<open>Equal\<close>, \<open>Add\<close> and \<open>Sub\<close> are
    the order and the arithmetic of \<open>int\<close>. \<open>time.Duration\<close> is an \<open>int\<close> of
    nanoseconds.
  \<^item> A Go string is its list of bytes, a \<open>string\<close>.
  \<^item> A Go map is an association list with distinct keys; the order of the list is the order one
    iteration of the map would use.
\<close>

section \<open>Collections of facts\<close>

named_theorems op_defs \<open>definitions of the operations of a component\<close>
named_theorems inv_intros \<open>preservation of the components' invariants\<close>

section \<open>Types shared by the components\<close>

type_synonym instant = int
type_synonym duration = int
type_synonym ('k, 'v) gomap = "('k \<times> 'v) list"

text \<open>A \<open>context.Context\<close> argument: nil, live, or done with the error \<open>Err\<close> returns.\<close>

datatype ctx_error = Canceled | DeadlineExceeded

datatype go_context = NilContext | LiveContext | DoneContext ctx_error

fun ctx_err :: "go_context \<Rightarrow> ctx_error option" where
  "ctx_err (DoneContext e) = Some e"
| "ctx_err _ = None"

definition is_zero_time :: "instant \<Rightarrow> bool" where
  "is_zero_time t = (t = 0)"

text \<open>Two's complement wrap-around of Go's \<open>int\<close> on a 64-bit platform, and of \<open>uint64\<close>.\<close>

definition wrap64 :: "int \<Rightarrow> int" where
  "wrap64 x = (x + 2 ^ 63) mod 2 ^ 64 - 2 ^ 63"

lemma wrap64_id [simp]: "- (2 ^ 63) \<le> x \<Longrightarrow> x < 2 ^ 63 \<Longrightarrow> wrap64 x = x"
  by (simp add: wrap64_def)

lemma wrap64_range: "- (2 ^ 63) \<le> wrap64 x" "wrap64 x < 2 ^ 63"
  using pos_mod_bound [of "2 ^ 64 :: int" "x + 2 ^ 63"] by (simp_all add: wrap64_def)

section \<open>Go maps\<close>

definition gomap_wf :: "('k, 'v) gomap \<Rightarrow> bool" where
  "gomap_wf m = distinct (map fst m)"

lemma gomap_wf_Nil [simp]: "gomap_wf []"
  by (simp add: gomap_wf_def)

lemma gomap_wf_update [simp, inv_intros]: "gomap_wf m \<Longrightarrow> gomap_wf (AList.update k v m)"
  by (simp add: gomap_wf_def distinct_update)

lemma gomap_wf_delete [simp, inv_intros]: "gomap_wf m \<Longrightarrow> gomap_wf (AList.delete k m)"
  by (simp add: gomap_wf_def distinct_delete)

lemma gomap_wf_filter [simp, inv_intros]: "gomap_wf m \<Longrightarrow> gomap_wf (filter P m)"
  by (simp add: gomap_wf_def distinct_map_filter)

lemma map_of_update: "map_of (AList.update k v m) = (map_of m)(k \<mapsto> v)"
  by (simp add: update_conv')

lemma map_of_update_same [simp]: "map_of (AList.update k v m) k = Some v"
  by (simp add: map_of_update)

lemma map_of_update_other [simp]: "k' \<noteq> k \<Longrightarrow> map_of (AList.update k v m) k' = map_of m k'"
  by (simp add: map_of_update)

lemma map_of_delete_same [simp]: "map_of (AList.delete k m) k = None"
  by (simp add: delete_conv')

lemma map_of_delete_other [simp]: "k' \<noteq> k \<Longrightarrow> map_of (AList.delete k m) k' = map_of m k'"
  by (simp add: delete_conv')

lemma gomap_mem_iff: "gomap_wf m \<Longrightarrow> (k, v) \<in> set m \<longleftrightarrow> map_of m k = Some v"
  by (simp add: gomap_wf_def)

lemma length_update_new: "map_of m k = None \<Longrightarrow> length (AList.update k v m) = Suc (length m)"
  by (induction m) (auto split: if_splits)

lemma length_update_old: "map_of m k = Some w \<Longrightarrow> length (AList.update k v m) = length m"
  by (induction m) (auto split: if_splits)

lemma length_delete_le [simp]: "length (AList.delete k m) \<le> length m"
  by (simp add: AList.delete_eq)

lemma length_delete_less: "map_of m k = Some v \<Longrightarrow> length (AList.delete k m) < length m"
  by (induction m) (auto simp: less_Suc_eq_le split: if_splits)

lemma update_same_id: "map_of m k = Some v \<Longrightarrow> gomap_wf m \<Longrightarrow> AList.update k v m = m"
  by (induction m) (auto simp: gomap_wf_def split: if_splits)

section \<open>Results\<close>

text \<open>Reading the parts of a method's outcome.\<close>

abbreviation post :: "'s \<times> ('e + 'a) \<Rightarrow> 's" where
  "post r \<equiv> fst r"

abbreviation ret :: "'s \<times> ('e + 'a) \<Rightarrow> 'e + 'a" where
  "ret r \<equiv> snd r"

fun is_ok :: "'e + 'a \<Rightarrow> bool" where
  "is_ok (Inl _) = False"
| "is_ok (Inr _) = True"

lemma is_ok_iff: "is_ok r \<longleftrightarrow> (\<exists>a. r = Inr a)"
  by (cases r) auto

lemma ok_outcome: "is_ok (ret r) \<Longrightarrow> r = (post r, Inr (projr (ret r)))"
  by (cases r) (auto simp: is_ok_iff)

end
