(* ===== verification/GoText.thy ===== *)
theory GoText
  imports Prelude
begin

text \<open>
  The parts of Go's \<open>strings\<close>, \<open>unicode/utf8\<close> and \<open>encoding/hex\<close> packages that
  the stores call, on byte strings: \<open>utf8.ValidString\<close>, \<open>strings.TrimSpace\<close> and
  \<open>hex.EncodeToString\<close>, with the facts about them that the components rely on.
  \<open>GoTime\<close> and \<open>GoStrings\<close> hold the rest.
\<close>

section \<open>UTF-8\<close>

abbreviation byte :: "char \<Rightarrow> nat" where
  "byte c \<equiv> of_char c"

definition cont_byte :: "char \<Rightarrow> bool" where
  "cont_byte c = (128 \<le> byte c \<and> byte c < 192)"

text \<open>
  The number of bytes of the rune that starts the string, and whether it is well formed: the first
  and second bytes are checked against the ranges of \<open>unicode/utf8\<close>; an ill-formed start counts
  as one byte.
\<close>

definition second_ok :: "nat \<Rightarrow> nat \<Rightarrow> bool" where
  "second_ok b c =
     (if b = 224 then 160 \<le> c \<and> c < 192
      else if b = 237 then 128 \<le> c \<and> c < 160
      else if b = 240 then 144 \<le> c \<and> c < 192
      else if b = 244 then 128 \<le> c \<and> c < 144
      else 128 \<le> c \<and> c < 192)"

fun decode_rune :: "string \<Rightarrow> (nat \<times> bool)" where
  "decode_rune [] = (0, False)"
| "decode_rune (a # s) =
     (if byte a < 128 then (1, True)
      else if 194 \<le> byte a \<and> byte a < 224 then
        (case s of b # _ \<Rightarrow> if second_ok (byte a) (byte b) then (2, True) else (1, False)
         | [] \<Rightarrow> (1, False))
      else if 224 \<le> byte a \<and> byte a < 240 then
        (case s of b # c # _ \<Rightarrow>
           if second_ok (byte a) (byte b) \<and> cont_byte c then (3, True) else (1, False)
         | _ \<Rightarrow> (1, False))
      else if 240 \<le> byte a \<and> byte a < 245 then
        (case s of b # c # d # _ \<Rightarrow>
           if second_ok (byte a) (byte b) \<and> cont_byte c \<and> cont_byte d then (4, True)
           else (1, False)
         | _ \<Rightarrow> (1, False))
      else (1, False))"

lemma decode_rune_pos: "s \<noteq> [] \<Longrightarrow> 0 < fst (decode_rune s)"
  by (cases s) (auto split: list.splits)

lemma decode_rune_le: "fst (decode_rune s) \<le> length s"
  by (cases s) (auto split: list.splits)

function valid_string :: "string \<Rightarrow> bool" where
  "valid_string s =
     (if s = [] then True
      else if snd (decode_rune s) then valid_string (drop (fst (decode_rune s)) s)
      else False)"
  by pat_completeness auto
termination
proof (relation "measure length", goal_cases)
  case (2 s)
  then show ?case using decode_rune_pos [of s] by (cases s) auto
qed simp

declare valid_string.simps [simp del]

lemma valid_string_Nil [simp]: "valid_string []"
  by (simp add: valid_string.simps)

lemma valid_string_ascii: "list_all (\<lambda>c. byte c < 128) s \<Longrightarrow> valid_string s"
proof (induction s)
  case (Cons a s)
  then show ?case by (subst valid_string.simps) simp
qed simp

section \<open>White space\<close>

text \<open>
  The runes that \<open>unicode.IsSpace\<close> accepts, by their encodings: the number of bytes of the
  white-space rune a string starts with (0 for none), and the same for the end of a string, read
  backwards.
\<close>

definition bytes :: "nat list \<Rightarrow> string" where
  "bytes ns = map char_of ns"

definition ascii_space :: "char \<Rightarrow> bool" where
  "ascii_space c = (byte c = 32 \<or> (9 \<le> byte c \<and> byte c \<le> 13))"

definition space3 :: "nat \<Rightarrow> nat \<Rightarrow> nat \<Rightarrow> bool" where
  "space3 a b c =
     ((a = 225 \<and> b = 154 \<and> c = 128) \<or>
      (a = 226 \<and> b = 128 \<and> ((128 \<le> c \<and> c \<le> 138) \<or> c = 168 \<or> c = 169 \<or> c = 175)) \<or>
      (a = 226 \<and> b = 129 \<and> c = 159) \<or>
      (a = 227 \<and> b = 128 \<and> c = 128))"

fun space_first :: "string \<Rightarrow> nat" where
  "space_first [] = 0"
| "space_first (a # s) =
     (if byte a < 128 then (if ascii_space a then 1 else 0)
      else if byte a = 194 then
        (case s of b # _ \<Rightarrow> if byte b = 133 \<or> byte b = 160 then 2 else 0 | [] \<Rightarrow> 0)
      else (case s of b # c # _ \<Rightarrow> if space3 (byte a) (byte b) (byte c) then 3 else 0 | _ \<Rightarrow> 0))"

fun space_last :: "string \<Rightarrow> nat" where
  "space_last [] = 0"
| "space_last (a # s) =
     (if byte a < 128 then (if ascii_space a then 1 else 0)
      else (case s of
          [] \<Rightarrow> 0
        | b # s' \<Rightarrow>
            if byte b = 194 \<and> (byte a = 133 \<or> byte a = 160) then 2
            else (case s' of c # _ \<Rightarrow> if space3 (byte c) (byte b) (byte a) then 3 else 0 | [] \<Rightarrow> 0)))"

function strip_by :: "(string \<Rightarrow> nat) \<Rightarrow> string \<Rightarrow> string" where
  "strip_by f s = (if 0 < f s \<and> s \<noteq> [] then strip_by f (drop (f s) s) else s)"
  by pat_completeness auto
termination
  by (relation "measure (\<lambda>(f, s). length s)") auto

declare strip_by.simps [simp del]

definition trim_space :: "string \<Rightarrow> string" where
  "trim_space s = rev (strip_by space_last (rev (strip_by space_first s)))"

lemma strip_by_stop: "f s = 0 \<Longrightarrow> strip_by f s = s"
  by (subst strip_by.simps) simp

lemma strip_by_suffix: "\<exists>p. s = p @ strip_by f s"
proof (induction f s rule: strip_by.induct)
  case (1 f s)
  show ?case
  proof (cases "0 < f s \<and> s \<noteq> []")
    case True
    with 1 obtain p where "drop (f s) s = p @ strip_by f (drop (f s) s)" by blast
    moreover have "strip_by f s = strip_by f (drop (f s) s)"
      using True by (subst strip_by.simps) simp
    ultimately have "s = (take (f s) s @ p) @ strip_by f s"
      by (metis append_assoc append_take_drop_id)
    then show ?thesis by blast
  qed (auto simp: strip_by.simps [of f s])
qed

lemma strip_by_length: "length (strip_by f s) \<le> length s"
  using strip_by_suffix [of s f] by (metis length_append le_add2)

lemma trim_space_length: "length (trim_space s) \<le> length s"
proof -
  have "length (trim_space s) \<le> length (strip_by space_first s)"
    unfolding trim_space_def using strip_by_length [of space_last "rev (strip_by space_first s)"] by simp
  also have "\<dots> \<le> length s" by (rule strip_by_length)
  finally show ?thesis .
qed

text \<open>A string that starts and ends with an ASCII character other than white space is kept.\<close>

definition solid :: "char \<Rightarrow> bool" where
  "solid c = (byte c < 128 \<and> \<not> ascii_space c)"

lemma trim_space_solid: "s \<noteq> [] \<Longrightarrow> solid (hd s) \<Longrightarrow> solid (last s) \<Longrightarrow> trim_space s = s"
proof -
  assume s: "s \<noteq> []" "solid (hd s)" "solid (last s)"
  have "space_first s = 0" using s(1,2) by (cases s) (auto simp: solid_def)
  moreover have "space_last (rev s) = 0"
    using s(1,3) by (cases s rule: rev_cases) (auto simp: solid_def)
  ultimately show ?thesis by (simp add: trim_space_def strip_by_stop)
qed

lemma trim_space_Nil [simp]: "trim_space [] = []"
  by (simp add: trim_space_def strip_by_stop)

section \<open>Hexadecimal\<close>

definition hex_digit :: "nat \<Rightarrow> char" where
  "hex_digit n = (if n < 10 then char_of (48 + n) else char_of (87 + n))"

definition is_hex_digit :: "char \<Rightarrow> bool" where
  "is_hex_digit c =
     (\<not> ((byte c < 48 \<or> byte c > 57) \<and> (byte c < 97 \<or> byte c > 102)))"

fun hex_encode :: "string \<Rightarrow> string" where
  "hex_encode [] = []"
| "hex_encode (c # s) = hex_digit (byte c div 16) # hex_digit (byte c mod 16) # hex_encode s"

lemma length_hex_encode [simp]: "length (hex_encode s) = 2 * length s"
  by (induction s) auto

lemma hex_digit_ok: "n < 16 \<Longrightarrow> is_hex_digit (hex_digit n)"
  by (auto simp: hex_digit_def is_hex_digit_def of_char_of)

lemma byte_less [simp]: "byte c < 256"
  using nat_of_char_less_256 [of c] .

lemma hex_encode_digits: "list_all is_hex_digit (hex_encode s)"
proof (induction s)
  case (Cons c s)
  have "byte c div 16 < 16" using byte_less [of c] by linarith
  then show ?case using Cons by (simp add: hex_digit_ok)
qed simp

end
