(* ===== verification/GoJson.thy ===== *)
theory GoJson
  imports GoText
begin

text \<open>
  The parts of Go's \<open>encoding/json\<close> that the framework's stores and handlers call:
  \<open>json.Valid\<close> (the scanner of \<open>encoding/json\<close>, a machine with a stack of open
  composites), the rewriting of a \<open>json.RawMessage\<close> when it is marshalled (white space outside
  strings is dropped and the characters unsafe in HTML are escaped), the coercion of strings to valid
  UTF-8, the encodability of \<open>time.Time\<close>, and the number of bytes the encoded values take.
\<close>

section \<open>The scanner\<close>

datatype json_state =
    BeginValue | BeginValueOrEmpty | BeginStringOrEmpty | BeginString | EndValue | EndTop
  | InString | InStringEsc | InStringEscU nat
  | Neg | Num1 | Num0 | Dot | Dot0 | Exp | ExpSign | Exp0
  | Literal string

datatype json_parse = ObjectKey | ObjectValue | ArrayValue

type_synonym json_scan = "json_state \<times> json_parse list"

definition max_nesting_depth :: nat where
  "max_nesting_depth = 10000"

definition json_space :: "char \<Rightarrow> bool" where
  "json_space c = (c = CHR '' '' \<or> byte c = 9 \<or> byte c = 10 \<or> byte c = 13)"

definition json_digit :: "char \<Rightarrow> bool" where
  "json_digit c = (48 \<le> byte c \<and> byte c \<le> 57)"

definition json_hex :: "char \<Rightarrow> bool" where
  "json_hex c = (json_digit c \<or> (97 \<le> byte c \<and> byte c \<le> 102) \<or> (65 \<le> byte c \<and> byte c \<le> 70))"

definition push_parse :: "json_parse \<Rightarrow> json_state \<Rightarrow> json_parse list \<Rightarrow> json_scan option" where
  "push_parse p st stack =
     (if length stack < max_nesting_depth then Some (st, p # stack) else None)"

definition pop_parse :: "json_parse list \<Rightarrow> json_scan option" where
  "pop_parse stack =
     (case stack of [] \<Rightarrow> None | [p] \<Rightarrow> Some (EndTop, []) | p # ps \<Rightarrow> Some (EndValue, ps))"

definition step_end_top :: "char \<Rightarrow> json_scan option" where
  "step_end_top c = (if json_space c then Some (EndTop, []) else None)"

fun step_end_value :: "json_parse list \<Rightarrow> char \<Rightarrow> json_scan option" where
  "step_end_value [] c = step_end_top c"
| "step_end_value (p # ps) c =
     (if json_space c then Some (EndValue, p # ps)
      else case p of
        ObjectKey \<Rightarrow> if c = CHR '':'' then Some (BeginValue, ObjectValue # ps) else None
      | ObjectValue \<Rightarrow>
          if c = CHR '','' then Some (BeginString, ObjectKey # ps)
          else if c = CHR ''}'' then pop_parse (p # ps) else None
      | ArrayValue \<Rightarrow>
          if c = CHR '','' then Some (BeginValue, p # ps)
          else if c = CHR '']'' then pop_parse (p # ps) else None)"

definition step_begin_value :: "json_parse list \<Rightarrow> char \<Rightarrow> json_scan option" where
  "step_begin_value stack c =
     (if json_space c then Some (BeginValue, stack)
      else if c = CHR ''{'' then push_parse ObjectKey BeginStringOrEmpty stack
      else if c = CHR ''['' then push_parse ArrayValue BeginValueOrEmpty stack
      else if byte c = 34 then Some (InString, stack)
      else if c = CHR ''-'' then Some (Neg, stack)
      else if c = CHR ''0'' then Some (Num0, stack)
      else if c = CHR ''t'' then Some (Literal ''rue'', stack)
      else if c = CHR ''f'' then Some (Literal ''alse'', stack)
      else if c = CHR ''n'' then Some (Literal ''ull'', stack)
      else if json_digit c then Some (Num1, stack)
      else None)"

definition step_begin_string :: "json_parse list \<Rightarrow> char \<Rightarrow> json_scan option" where
  "step_begin_string stack c =
     (if json_space c then Some (BeginString, stack)
      else if byte c = 34 then Some (InString, stack) else None)"

definition step_after_int :: "json_parse list \<Rightarrow> char \<Rightarrow> json_scan option" where
  "step_after_int stack c =
     (if c = CHR ''.'' then Some (Dot, stack)
      else if c = CHR ''e'' \<or> c = CHR ''E'' then Some (Exp, stack)
      else step_end_value stack c)"

definition step_exp_sign :: "json_parse list \<Rightarrow> char \<Rightarrow> json_scan option" where
  "step_exp_sign stack c = (if json_digit c then Some (Exp0, stack) else None)"

fun json_step :: "json_scan \<Rightarrow> char \<Rightarrow> json_scan option" where
  "json_step (BeginValue, st) c = step_begin_value st c"
| "json_step (BeginValueOrEmpty, st) c =
     (if json_space c then Some (BeginValueOrEmpty, st)
      else if c = CHR '']'' then step_end_value st c
      else step_begin_value st c)"
| "json_step (BeginStringOrEmpty, st) c =
     (if json_space c then Some (BeginStringOrEmpty, st)
      else if c = CHR ''}'' then step_end_value (ObjectValue # tl st) c
      else step_begin_string st c)"
| "json_step (BeginString, st) c = step_begin_string st c"
| "json_step (EndValue, st) c = step_end_value st c"
| "json_step (EndTop, st) c = step_end_top c"
| "json_step (InString, st) c =
     (if byte c = 34 then Some (EndValue, st)
      else if byte c = 92 then Some (InStringEsc, st)
      else if byte c < 32 then None
      else Some (InString, st))"
| "json_step (InStringEsc, st) c =
     (if byte c \<in> {34, 92, 47, 98, 102, 110, 114, 116} then Some (InString, st)
      else if byte c = 117 then Some (InStringEscU 4, st)
      else None)"
| "json_step (InStringEscU n, st) c =
     (if json_hex c
      then Some (if n \<le> 1 then InString else InStringEscU (n - 1), st)
      else None)"
| "json_step (Neg, st) c =
     (if c = CHR ''0'' then Some (Num0, st)
      else if json_digit c then Some (Num1, st) else None)"
| "json_step (Num1, st) c = (if json_digit c then Some (Num1, st) else step_after_int st c)"
| "json_step (Num0, st) c = step_after_int st c"
| "json_step (Dot, st) c = (if json_digit c then Some (Dot0, st) else None)"
| "json_step (Dot0, st) c =
     (if json_digit c then Some (Dot0, st)
      else if c = CHR ''e'' \<or> c = CHR ''E'' then Some (Exp, st)
      else step_end_value st c)"
| "json_step (Exp, st) c =
     (if c = CHR ''+'' \<or> c = CHR ''-'' then Some (ExpSign, st) else step_exp_sign st c)"
| "json_step (ExpSign, st) c = step_exp_sign st c"
| "json_step (Exp0, st) c = (if json_digit c then Some (Exp0, st) else step_end_value st c)"
| "json_step (Literal l, st) c =
     (case l of
        [] \<Rightarrow> step_end_value st c
      | x # xs \<Rightarrow>
          if c = x then Some (if xs = [] then EndValue else Literal xs, st) else None)"

fun json_scan_from :: "json_scan \<Rightarrow> string \<Rightarrow> json_scan option" where
  "json_scan_from sc [] = Some sc"
| "json_scan_from sc (c # s) =
     (case json_step sc c of None \<Rightarrow> None | Some sc' \<Rightarrow> json_scan_from sc' s)"

text \<open>At the end of the input the scanner is fed one space and must then be at the top level.\<close>

definition json_valid :: "string \<Rightarrow> bool" where
  "json_valid s =
     (case json_scan_from (BeginValue, []) s of
        None \<Rightarrow> False
      | Some sc \<Rightarrow>
          (case json_step sc (CHR '' '') of None \<Rightarrow> False | Some (st, _) \<Rightarrow> st = EndTop))"

section \<open>Re-encoding of raw messages\<close>

definition html_unsafe :: "char \<Rightarrow> bool" where
  "html_unsafe c = (c = CHR ''<'' \<or> c = CHR ''>'' \<or> c = CHR ''&'')"

definition html_escape :: "char \<Rightarrow> string" where
  "html_escape c = bytes [92] @ ''u00'' @ [hex_digit (byte c div 16), hex_digit (byte c mod 16)]"

text \<open>
  \<open>json_compact q e s\<close> rewrites \<open>s\<close> from a point inside a string literal when
  \<open>q\<close>, right after a backslash when \<open>e\<close>.
\<close>

fun json_compact :: "bool \<Rightarrow> bool \<Rightarrow> string \<Rightarrow> string" where
  "json_compact q e [] = []"
| "json_compact q e (c # s) =
     (if html_unsafe c then html_escape c @ json_compact q False s
      else if byte c = 226 \<and> (case s of b # d # _ \<Rightarrow> byte b = 128 \<and> (byte d = 168 \<or> byte d = 169)
                              | _ \<Rightarrow> False)
      then bytes [92] @ ''u202'' @ [hex_digit (byte (s ! 1) mod 16)] @ json_compact q False (drop 2 s)
      else if q then
        c # (if e then json_compact True False s
             else json_compact (byte c \<noteq> 34) (byte c = 92) s)
      else if json_space c then json_compact False False s
      else c # json_compact (byte c = 34) False s)"

definition marshal_raw :: "string \<Rightarrow> string" where
  "marshal_raw s = json_compact False False s"

text \<open>A payload that \<open>json.Marshal\<close> produces is valid and re-encodes to itself.\<close>

definition canonical_json :: "string \<Rightarrow> bool" where
  "canonical_json s = (json_valid s \<and> marshal_raw s = s)"

section \<open>Strings\<close>

definition replacement_rune :: string where
  "replacement_rune = bytes [239, 191, 189]"

function utf8_coerce :: "string \<Rightarrow> string" where
  "utf8_coerce s =
     (if s = [] then []
      else (if snd (decode_rune s) then take (fst (decode_rune s)) s else replacement_rune)
           @ utf8_coerce (drop (fst (decode_rune s)) s))"
  by pat_completeness auto
termination
proof (relation "measure length", goal_cases)
  case (2 s)
  then show ?case using decode_rune_pos [of s] by (cases s) auto
qed simp

declare utf8_coerce.simps [simp del]

lemma utf8_coerce_Nil [simp]: "utf8_coerce [] = []"
  by (simp add: utf8_coerce.simps)

lemma utf8_coerce_valid: "valid_string s \<Longrightarrow> utf8_coerce s = s"
proof (induction s rule: utf8_coerce.induct)
  case (1 s)
  show ?case
  proof (cases "s = []")
    case False
    with 1 have "snd (decode_rune s)" "valid_string (drop (fst (decode_rune s)) s)"
      by (auto simp: valid_string.simps [of s] split: if_splits)
    with 1 False show ?thesis by (subst utf8_coerce.simps) simp
  qed simp
qed

lemma utf8_coerce_eq_Nil_iff [simp]: "utf8_coerce s = [] \<longleftrightarrow> s = []"
proof (cases "s = []")
  case False
  then show ?thesis
    using decode_rune_pos [of s]
    by (subst utf8_coerce.simps) (auto simp: replacement_rune_def bytes_def)
qed simp

text \<open>Bytes of an encoded string literal, without its quotes.\<close>

fun json_rune_bytes :: "string \<Rightarrow> nat" where
  "json_rune_bytes [] = 0"
| "json_rune_bytes (c # s) =
     (if byte c < 128 then
        (if byte c = 34 \<or> byte c = 92 then 2
         else if byte c \<in> {8, 9, 10, 12, 13} then 2
         else if byte c < 32 \<or> html_unsafe c then 6
         else 1)
      else if \<not> snd (decode_rune (c # s)) then 6
      else if byte c = 226 \<and> s \<noteq> [] \<and> byte (hd s) = 128 \<and> byte (s ! 1) \<in> {168, 169} then 6
      else fst (decode_rune (c # s)))"

function json_text_bytes :: "string \<Rightarrow> nat" where
  "json_text_bytes s =
     (if s = [] then 0 else json_rune_bytes s + json_text_bytes (drop (fst (decode_rune s)) s))"
  by pat_completeness auto
termination
proof (relation "measure length", goal_cases)
  case (2 s)
  then show ?case using decode_rune_pos [of s] by (cases s) auto
qed simp

declare json_text_bytes.simps [simp del]

definition json_string_bytes :: "string \<Rightarrow> nat" where
  "json_string_bytes s = json_text_bytes s + 2"

lemma json_rune_bytes_le: "json_rune_bytes s \<le> 6 * fst (decode_rune s)"
proof (cases s)
  case (Cons c t)
  have "0 < fst (decode_rune (c # t))" by (rule decode_rune_pos) simp
  then have "6 \<le> 6 * fst (decode_rune (c # t))" by linarith
  then show ?thesis unfolding Cons by (simp del: decode_rune.simps)
qed simp

lemma json_text_bytes_le: "json_text_bytes s \<le> 6 * length s"
proof (induction s rule: json_text_bytes.induct)
  case (1 s)
  show ?case
  proof (cases "s = []")
    case False
    with 1 have "json_text_bytes (drop (fst (decode_rune s)) s) \<le> 6 * (length s - fst (decode_rune s))"
      by simp
    then show ?thesis
      using json_rune_bytes_le [of s] decode_rune_le [of s] False
      by (subst json_text_bytes.simps) simp
  qed (simp add: json_text_bytes.simps)
qed

lemma json_string_bytes_le: "json_string_bytes s \<le> 6 * length s + 2"
  using json_text_bytes_le [of s] by (simp add: json_string_bytes_def)

section \<open>Times and numbers\<close>

definition nanos_per_day :: int where
  "nanos_per_day = 86400 * 1000000000"

text \<open>\<open>time.Time.MarshalJSON\<close> fails outside the years 0 to 9999.\<close>

definition json_time_ok :: "instant \<Rightarrow> bool" where
  "json_time_ok t = (- 366 * nanos_per_day \<le> t \<and> t < 3652059 * nanos_per_day)"

text \<open>Digits after the decimal point in RFC 3339 with nanoseconds: trailing zeros are dropped.\<close>

fun trimmed_digits :: "nat \<Rightarrow> nat \<Rightarrow> nat" where
  "trimmed_digits 0 n = 0"
| "trimmed_digits (Suc k) n = (if n mod 10 = 0 then trimmed_digits k (n div 10) else Suc k)"

lemma trimmed_digits_le: "trimmed_digits k n \<le> k"
  by (induction k n rule: trimmed_digits.induct) auto

definition json_time_bytes :: "instant \<Rightarrow> nat" where
  "json_time_bytes t =
     (let f = trimmed_digits 9 (nat (t mod 1000000000)) in 22 + (if f = 0 then 0 else Suc f))"

lemma json_time_bytes_le: "json_time_bytes t \<le> 32"
  using trimmed_digits_le [of 9 "nat (t mod 1000000000)"] by (simp add: json_time_bytes_def Let_def)

fun dec_digits :: "nat \<Rightarrow> nat \<Rightarrow> nat" where
  "dec_digits 0 n = 0"
| "dec_digits (Suc k) n = (if n < 10 then 1 else Suc (dec_digits k (n div 10)))"

lemma dec_digits_le: "dec_digits k n \<le> k"
  by (induction k n rule: dec_digits.induct) auto

text \<open>A 64-bit integer has at most 19 digits and a sign.\<close>

definition json_int_bytes :: "int \<Rightarrow> nat" where
  "json_int_bytes i = (if i < 0 then 1 else 0) + dec_digits 19 (nat \<bar>i\<bar>)"

lemma json_int_bytes_le: "json_int_bytes i \<le> 20"
  using dec_digits_le [of 19 "nat i"] dec_digits_le [of 19 "nat (- i)"]
  by (simp add: json_int_bytes_def)

end
