(* ===== verification/EventLog.thy ===== *)
theory EventLog
  imports GoJson
begin

text \<open>
  The append-only event log behind the durable local stores
  (\<open>src/backend/framework/file_job_store.go\<close> and \<open>file_scheduler_store.go\<close>, whose
  \<open>append\<close> and \<open>replay\<close> methods have the same text): one JSON object per line.

  The log is modelled by its newline-terminated lines, each with what the strict JSON decoder reads
  from it (\<open>None\<close> for a line it rejects) and its length, and by the number of bytes after the
  last newline. The outcome of each system call is an argument, so every error branch is reachable.

  The locale \<open>journaled_store\<close> is the contract of a store that keeps a view in memory and a log
  on disk: its lemmas (recovery after any run, atomicity of an interrupted operation) are proved once
  and interpreted for each store.
\<close>

section \<open>Data\<close>

datatype io_failure =
    CreateDirectory | OpenLog | SecureLog | EncodeEvent | AppendEvent | SyncEvent
  | SeekLog | ReadLog | DiscardIncomplete | SyncRepaired | SeekEnd | CloseLog | RandomIdentifier
  | RemoteCall string

record 'e log_line =
  line_event :: "'e option"
  line_bytes :: nat

record 'e log_file =
  log_lines :: "'e log_line list"
  log_tail :: nat

definition empty_log :: "'e log_file" where
  "empty_log = \<lparr>log_lines = [], log_tail = 0\<rparr>"

text \<open>Outcomes of the system calls behind one append, behind opening and behind replaying.\<close>

datatype append_io = AppendOk | WriteFails nat | SyncFails

datatype open_io = OpenOk | MkdirFails | OpenFails | ChmodFails

datatype replay_io =
    ReplayOk | SeekStartFails | ReadFails nat | TruncateFails | RepairSyncFails | SeekEndFails

section \<open>Appending\<close>

text \<open>
  \<open>write_all\<close> is the loop of \<open>writeFileJobStoreAll\<close> over the chunks that the successive
  calls of \<open>Write\<close> accept: it stops when everything is written or at the first error.
\<close>

datatype write_call = Wrote nat | WriteError

fun write_all :: "write_call list \<Rightarrow> nat \<Rightarrow> nat \<times> bool" where
  "write_all cs 0 = (0, True)"
| "write_all [] (Suc n) = (0, False)"
| "write_all (WriteError # cs) (Suc n) = (0, False)"
| "write_all (Wrote k # cs) (Suc n) =
     (case write_all cs (Suc n - k) of (w, ok) \<Rightarrow> (min k (Suc n) + w, ok))"

text \<open>The outcome of an append of \<open>n\<close> bytes and a newline, from its system calls.\<close>

definition append_outcome :: "write_call list \<Rightarrow> bool \<Rightarrow> nat \<Rightarrow> append_io" where
  "append_outcome calls sync_ok n =
     (case write_all calls (Suc n) of
        (w, True) \<Rightarrow> if sync_ok then AppendOk else SyncFails
      | (w, False) \<Rightarrow> WriteFails w)"

text \<open>
  Completing a line: \<open>n\<close> bytes of an event's object and the newline are written after the tail.
  The line decodes to the event only when the tail was empty, since a line with anything before the
  event's object is rejected. Writing only part of the \<open>n\<close> bytes extends the tail.
\<close>

definition write_line :: "'e \<Rightarrow> nat \<Rightarrow> 'e log_file \<Rightarrow> 'e log_file" where
  "write_line e n f =
     \<lparr>log_lines = log_lines f @
        [\<lparr>line_event = (if log_tail f = 0 then Some e else None), line_bytes = log_tail f + n + 1\<rparr>],
      log_tail = 0\<rparr>"

definition write_partial :: "nat \<Rightarrow> nat \<Rightarrow> 'e log_file \<Rightarrow> 'e log_file" where
  "write_partial w n f = f\<lparr>log_tail := log_tail f + min w n\<rparr>"

text \<open>
  \<open>append\<close>: \<open>encoding\<close> is \<open>None\<close> when \<open>json.Marshal\<close> fails, and otherwise what
  the decoder will read back and the number of bytes.
\<close>

definition append_log ::
  "append_io \<Rightarrow> ('e \<times> nat) option \<Rightarrow> 'e log_file \<Rightarrow> 'e log_file \<times> (io_failure + unit)" where
  "append_log io encoding f =
     (case encoding of
        None \<Rightarrow> (f, Inl EncodeEvent)
      | Some (e, n) \<Rightarrow>
          (case io of
             AppendOk \<Rightarrow> (write_line e n f, Inr ())
           | WriteFails w \<Rightarrow> (write_partial w n f, Inl AppendEvent)
           | SyncFails \<Rightarrow> (write_line e n f, Inl SyncEvent)))"

section \<open>Replaying\<close>

text \<open>One complete line: its length, then its decoding, then its effect.\<close>

definition replay_line ::
  "int \<Rightarrow> 'err \<Rightarrow> ('m \<Rightarrow> 'e \<Rightarrow> 'err + 'm) \<Rightarrow> 'm \<Rightarrow> 'e log_line \<Rightarrow> 'err + 'm" where
  "replay_line limit corrupt apply_event m l =
     (if int (line_bytes l) > limit then Inl corrupt
      else case line_event l of
        None \<Rightarrow> Inl corrupt
      | Some e \<Rightarrow> apply_event m e)"

fun replay_lines ::
  "int \<Rightarrow> 'err \<Rightarrow> ('m \<Rightarrow> 'e \<Rightarrow> 'err + 'm) \<Rightarrow> 'm \<Rightarrow> 'e log_line list \<Rightarrow> 'err + 'm" where
  "replay_lines limit corrupt apply_event m [] = Inr m"
| "replay_lines limit corrupt apply_event m (l # ls) =
     (case replay_line limit corrupt apply_event m l of
        Inl e \<Rightarrow> Inl e
      | Inr m' \<Rightarrow> replay_lines limit corrupt apply_event m' ls)"

text \<open>\<open>ReadFails n\<close>: reading fails once \<open>n\<close> lines, or all there are, have been read.\<close>

definition read_fails :: "replay_io \<Rightarrow> bool" where
  "read_fails io = (case io of ReadFails _ \<Rightarrow> True | _ \<Rightarrow> False)"

definition replay_log ::
  "replay_io \<Rightarrow> int \<Rightarrow> 'err \<Rightarrow> (io_failure \<Rightarrow> 'err) \<Rightarrow> ('m \<Rightarrow> 'e \<Rightarrow> 'err + 'm) \<Rightarrow> 'm \<Rightarrow> 'e log_file
    \<Rightarrow> 'e log_file \<times> ('err + 'm)" where
  "replay_log io limit corrupt failed apply_event m f =
     (let readable = (case io of ReadFails n \<Rightarrow> take n (log_lines f) | _ \<Rightarrow> log_lines f)
      in if io = SeekStartFails then (f, Inl (failed SeekLog))
         else case replay_lines limit corrupt apply_event m readable of
           Inl e \<Rightarrow> (f, Inl e)
         | Inr m' \<Rightarrow>
             if read_fails io then (f, Inl (failed ReadLog))
             else if log_tail f \<noteq> 0 \<and> io = TruncateFails then (f, Inl (failed DiscardIncomplete))
             else
               let f' = f\<lparr>log_tail := 0\<rparr> in
               if log_tail f \<noteq> 0 \<and> io = RepairSyncFails then (f', Inl (failed SyncRepaired))
               else if io = SeekEndFails then (f', Inl (failed SeekEnd))
               else (f', Inr m'))"

section \<open>Facts about the log\<close>

lemma replay_lines_append:
  "replay_lines lim c ap m (ls @ ls') =
     (case replay_lines lim c ap m ls of Inl e \<Rightarrow> Inl e | Inr m' \<Rightarrow> replay_lines lim c ap m' ls')"
  by (induction ls arbitrary: m) (auto split: sum.split)

lemma replay_log_ok:
  "replay_log ReplayOk lim c fl ap m f =
     (case replay_lines lim c ap m (log_lines f) of
        Inl e \<Rightarrow> (f, Inl e) | Inr m' \<Rightarrow> (f\<lparr>log_tail := 0\<rparr>, Inr m'))"
  by (simp add: replay_log_def read_fails_def split: sum.split)

lemma replay_log_success:
  "replay_log io lim c fl ap m f = (f', Inr m') \<Longrightarrow> replay_lines lim c ap m (log_lines f) = Inr m'"
  by (auto simp: replay_log_def Let_def read_fails_def split: sum.splits if_splits replay_io.splits)

lemma append_log_ok_iff:
  "append_log io enc f = (f', Inr u) \<longleftrightarrow>
     io = AppendOk \<and> (\<exists>e n. enc = Some (e, n) \<and> f' = write_line e n f)"
  by (auto simp: append_log_def split: option.splits append_io.splits)

lemma append_log_lines:
  "log_lines (fst (append_log io enc f)) \<in> {log_lines f, log_lines (fst (append_log AppendOk enc f))}"
  by (auto simp: append_log_def write_partial_def write_line_def split: option.split append_io.split)

text \<open>A clean line that replays extends what the log replays to.\<close>

lemma replay_write_line:
  assumes "replay_lines lim c ap m (log_lines f) = Inr m1" "log_tail f = 0"
    "int n + 1 \<le> lim" "ap m1 e = Inr m2"
  shows "replay_lines lim c ap m (log_lines (write_line e n f)) = Inr m2"
  using assms by (simp add: write_line_def replay_lines_append replay_line_def)

text \<open>A line written after a non-empty tail makes the whole log unreadable.\<close>

lemma replay_write_line_torn:
  assumes "log_tail f \<noteq> 0"
  shows "\<not> is_ok (replay_lines lim c ap m (log_lines (write_line e n f)))"
  using assms
  by (auto simp: write_line_def replay_lines_append replay_line_def is_ok_iff split: sum.splits)

lemma log_tail_write_line [simp]: "log_tail (write_line e n f) = 0"
  by (simp add: write_line_def)

lemma write_all_progress:
  "write_all cs n = (w, ok) \<Longrightarrow> w \<le> n \<and> (ok \<longleftrightarrow> w = n)"
proof (induction cs n arbitrary: w ok rule: write_all.induct)
  case (4 k cs n)
  then show ?case by (force split: prod.splits)
qed auto

text \<open>A failed write never completes the line: at most the event's bytes are in the tail.\<close>

lemma append_outcome_partial:
  assumes "append_outcome calls sync_ok n = WriteFails w"
  shows "w \<le> n"
proof -
  obtain w' ok where r: "write_all calls (Suc n) = (w', ok)" by force
  with assms have "w' = w" "\<not> ok" by (auto simp: append_outcome_def split: bool.splits if_splits)
  with write_all_progress [OF r] show ?thesis by auto
qed

section \<open>The contract of a journaled store\<close>

locale journaled_store =
  fixes view :: "'s \<Rightarrow> 'm"
    and logf :: "'s \<Rightarrow> 'e log_file"
    and restore :: "'e log_line list \<Rightarrow> 'err + 'm"
    and step :: "'op \<Rightarrow> append_io \<Rightarrow> 's \<Rightarrow> 's"
    and admissible :: "'op \<Rightarrow> bool"
    and invar :: "'s \<Rightarrow> bool"
  assumes invar_tail: "invar s \<Longrightarrow> log_tail (logf s) = 0"
    and invar_restore: "invar s \<Longrightarrow> restore (log_lines (logf s)) = Inr (view s)"
    and step_invar: "invar s \<Longrightarrow> admissible a \<Longrightarrow> invar (step a AppendOk s)"
    and step_lines: "log_lines (logf (step a io s)) \<in>
           {log_lines (logf s), log_lines (logf (step a AppendOk s))}"
begin

lemma run_invar:
  "invar s \<Longrightarrow> list_all admissible as \<Longrightarrow> invar (fold (\<lambda>a. step a AppendOk) as s)"
  by (induction as arbitrary: s) (auto simp: step_invar)

text \<open>Whatever was done, the log restores what is in memory.\<close>

lemma run_recovers:
  "invar s \<Longrightarrow> list_all admissible as \<Longrightarrow>
     restore (log_lines (logf (fold (\<lambda>a. step a AppendOk) as s))) =
       Inr (view (fold (\<lambda>a. step a AppendOk) as s))"
  by (simp add: run_invar invar_restore)

text \<open>
  An operation interrupted in any way leaves a log that restores the state before it or the state
  after it.
\<close>

lemma interrupted_atomic:
  assumes "invar s" "admissible a"
  shows "restore (log_lines (logf (step a io s))) \<in> {Inr (view s), Inr (view (step a AppendOk s))}"
  using step_lines [of a io s] invar_restore [OF assms(1)]
    invar_restore [OF step_invar [OF assms]] by auto

end

end
