(* ===== verification/FileJobStore.thy ===== *)
theory FileJobStore
  imports EventLog
begin

text \<open>
  The durable local job store: \<open>src/backend/framework/file_job_store.go\<close> with the types and
  errors of \<open>job_store.go\<close>. The store keeps a map of jobs in memory and an append-only log of
  JSON events on disk; every operation appends its event and then changes the map, and opening the
  store replays the log.

  The log itself is that of \<open>EventLog\<close>. What goes in through \<open>json.Marshal\<close> and
  comes back through the decoder is \<open>event_roundtrip\<close>. The outcome of each system call and the
  random bytes of \<open>newJobIdentifier\<close> are arguments of the operations.
\<close>

section \<open>Data\<close>

datatype job_error =
    ErrJobStoreUnavailable
  | ErrJobContextUnavailable
  | ErrContext ctx_error
  | ErrJobStoreClosed
  | ErrJobStoreEmpty
  | ErrJobStoreFull
  | ErrJobStoreConflict
  | ErrJobReservationInvalid
  | ErrJobStoreOperationFailed io_failure
  | ErrInvalidFileJobStoreOptions
  | ErrFileJobStoreCorrupt

definition defaultFileJobStoreMaxJobs :: int where
  "defaultFileJobStoreMaxJobs = 10000"

definition defaultFileJobStoreMaxPayloadBytes :: int where
  "defaultFileJobStoreMaxPayloadBytes = 4 * 1024 * 1024"

definition fileJobStoreEventVersion :: int where
  "fileJobStoreEventVersion = 1"

definition fileJobStoreEventOverhead :: int where
  "fileJobStoreEventOverhead = 64 * 1024"

definition fileJobStoreMaxErrorBytes :: nat where
  "fileJobStoreMaxErrorBytes = 4 * 1024"

definition fileJobStoreMaxHandlerBytes :: nat where
  "fileJobStoreMaxHandlerBytes = 1024"

definition jobIdentifierBytes :: nat where
  "jobIdentifierBytes = 32"

record StoredJob =
  ID :: string
  Handler :: string
  Payload :: string
  AvailableAt :: instant
  EnqueuedAt :: instant
  Attempts :: int

record JobReservation =
  Job :: StoredJob
  Token :: string
  ReservedUntil :: instant

record FailedStoredJob =
  FailedJob :: StoredJob
  FailedAt :: instant
  FailedError :: string

record FileJobStoreOptions =
  Path :: string
  MaxJobs :: int
  MaxPayloadBytes :: int

record fileStoredJob =
  r_job :: StoredJob
  r_reservationToken :: string
  r_reservedUntil :: instant
  r_failedAt :: instant
  r_lastError :: string

text \<open>The payload of an enqueue event has the fields of \<open>StoredJob\<close>.\<close>

type_synonym fileJobPayload = StoredJob

record fileJobStoreEvent =
  ev_Version :: int
  ev_Type :: string
  ev_Job :: "fileJobPayload option"
  ev_ID :: string
  ev_Token :: string
  ev_ReservedUntil :: instant
  ev_AvailableAt :: instant
  ev_Attempts :: int
  ev_Error :: string
  ev_FailedAt :: instant

record FileJobStore =
  fjs_path :: string
  fjs_maxJobs :: int
  fjs_maxPayloadBytes :: int
  fjs_file :: "fileJobStoreEvent log_file"
  fjs_jobs :: "(string, fileStoredJob) gomap"
  fjs_closed :: bool

section \<open>Validation and normalisation\<close>

definition validJobIdentifier :: "string \<Rightarrow> bool" where
  "validJobIdentifier value = (length value = jobIdentifierBytes * 2 \<and> list_all is_hex_digit value)"

definition newJobIdentifier :: "string option \<Rightarrow> job_error + string" where
  "newJobIdentifier random =
     (case random of
        None \<Rightarrow> Inl (ErrJobStoreOperationFailed RandomIdentifier)
      | Some buffer \<Rightarrow> Inr (hex_encode buffer))"

definition validateStoredJob :: "StoredJob \<Rightarrow> int \<Rightarrow> job_error option" where
  "validateStoredJob j maxPayload =
     (if \<not> validJobIdentifier (ID j) \<or>
         trim_space (Handler j) = [] \<or>
         length (Handler j) > fileJobStoreMaxHandlerBytes \<or>
         length (Payload j) = 0 \<or>
         int (length (Payload j)) > maxPayload \<or>
         \<not> json_valid (Payload j) \<or>
         is_zero_time (AvailableAt j) \<or>
         is_zero_time (EnqueuedAt j) \<or>
         Attempts j < 0
      then Some ErrJobStoreConflict
      else None)"

function shrink_to_valid :: "string \<Rightarrow> string" where
  "shrink_to_valid value =
     (if valid_string value then value else shrink_to_valid (take (length value - 1) value))"
  by pat_completeness auto
termination
proof (relation "measure length", goal_cases)
  case (2 v)
  then have "v \<noteq> []" by auto
  then show ?case by simp
qed simp

declare shrink_to_valid.simps [simp del]

definition normalizeFileJobStoreError :: "string \<Rightarrow> string" where
  "normalizeFileJobStoreError value =
     (if length value \<le> fileJobStoreMaxErrorBytes then value
      else shrink_to_valid (take fileJobStoreMaxErrorBytes value))"

text \<open>\<open>abs_path\<close> stands for \<open>filepath.Abs\<close>, which reads the working directory and may fail.\<close>

definition normalizeFileJobStoreOptions ::
  "(string \<Rightarrow> string option) \<Rightarrow> FileJobStoreOptions \<Rightarrow> job_error + FileJobStoreOptions" where
  "normalizeFileJobStoreOptions abs_path options =
     (let p = trim_space (Path options) in
      if p = [] \<or> MaxJobs options < 0 \<or> MaxPayloadBytes options < 0
      then Inl ErrInvalidFileJobStoreOptions
      else case abs_path p of
        None \<Rightarrow> Inl ErrInvalidFileJobStoreOptions
      | Some q \<Rightarrow>
          Inr \<lparr>Path = q,
               MaxJobs = (if MaxJobs options = 0 then defaultFileJobStoreMaxJobs else MaxJobs options),
               MaxPayloadBytes =
                 (if MaxPayloadBytes options = 0 then defaultFileJobStoreMaxPayloadBytes
                  else MaxPayloadBytes options)\<rparr>)"

definition DefaultFileJobStoreOptions :: "string \<Rightarrow> FileJobStoreOptions" where
  "DefaultFileJobStoreOptions p =
     \<lparr>Path = p, MaxJobs = defaultFileJobStoreMaxJobs,
      MaxPayloadBytes = defaultFileJobStoreMaxPayloadBytes\<rparr>"

section \<open>The log\<close>

definition blank_event :: "string \<Rightarrow> fileJobStoreEvent" where
  "blank_event typ =
     \<lparr>ev_Version = fileJobStoreEventVersion, ev_Type = typ, ev_Job = None, ev_ID = [], ev_Token = [],
      ev_ReservedUntil = 0, ev_AvailableAt = 0, ev_Attempts = 0, ev_Error = [], ev_FailedAt = 0\<rparr>"

definition fileJobPayloadFromStored :: "StoredJob \<Rightarrow> fileJobPayload" where
  "fileJobPayloadFromStored j =
     \<lparr>ID = ID j, Handler = Handler j, Payload = Payload j, AvailableAt = AvailableAt j,
      EnqueuedAt = EnqueuedAt j, Attempts = Attempts j\<rparr>"

definition stored :: "fileJobPayload \<Rightarrow> StoredJob" where
  "stored p =
     \<lparr>ID = ID p, Handler = Handler p, Payload = Payload p, AvailableAt = AvailableAt p,
      EnqueuedAt = EnqueuedAt p, Attempts = Attempts p\<rparr>"

definition cloneStoredJob :: "StoredJob \<Rightarrow> StoredJob" where
  "cloneStoredJob j = j\<lparr>Payload := Payload j\<rparr>"

text \<open>\<open>json.Marshal\<close> rejects times outside the years 0 to 9999 and invalid raw messages.\<close>

definition event_encodable :: "fileJobStoreEvent \<Rightarrow> bool" where
  "event_encodable e =
     (json_time_ok (ev_ReservedUntil e) \<and> json_time_ok (ev_AvailableAt e) \<and>
      json_time_ok (ev_FailedAt e) \<and>
      (case ev_Job e of
         None \<Rightarrow> True
       | Some p \<Rightarrow> json_valid (Payload p) \<and> json_time_ok (AvailableAt p) \<and> json_time_ok (EnqueuedAt p)))"

definition payload_roundtrip :: "fileJobPayload \<Rightarrow> fileJobPayload" where
  "payload_roundtrip p =
     p\<lparr>ID := utf8_coerce (ID p), Handler := utf8_coerce (Handler p), Payload := marshal_raw (Payload p)\<rparr>"

text \<open>What the decoder reads from the encoding of an event.\<close>

definition event_roundtrip :: "fileJobStoreEvent \<Rightarrow> fileJobStoreEvent" where
  "event_roundtrip e =
     e\<lparr>ev_Type := utf8_coerce (ev_Type e), ev_Job := map_option payload_roundtrip (ev_Job e),
       ev_ID := utf8_coerce (ev_ID e), ev_Token := utf8_coerce (ev_Token e),
       ev_Error := utf8_coerce (ev_Error e)\<rparr>"

definition payload_bytes :: "fileJobPayload \<Rightarrow> nat" where
  "payload_bytes p =
     2 + (length ''xidx:'' + json_string_bytes (ID p))
       + (length '',xhandlerx:'' + json_string_bytes (Handler p))
       + (length '',xpayloadx:'' + length (marshal_raw (Payload p)))
       + (length '',xavailableAtx:'' + json_time_bytes (AvailableAt p))
       + (length '',xenqueuedAtx:'' + json_time_bytes (EnqueuedAt p))
       + (length '',xattemptsx:'' + json_int_bytes (Attempts p))"

text \<open>
  Bytes of an encoded event: empty strings, a missing job and zero attempts are omitted, zero times
  are not. (\<open>x\<close> stands for a quotation mark in the keys.)
\<close>

definition event_bytes :: "fileJobStoreEvent \<Rightarrow> nat" where
  "event_bytes e =
     2 + (length ''xversionx:'' + json_int_bytes (ev_Version e))
       + (length '',xtypex:'' + json_string_bytes (ev_Type e))
       + (case ev_Job e of None \<Rightarrow> 0 | Some p \<Rightarrow> length '',xjobx:'' + payload_bytes p)
       + (if ev_ID e = [] then 0 else length '',xidx:'' + json_string_bytes (ev_ID e))
       + (if ev_Token e = [] then 0 else length '',xtokenx:'' + json_string_bytes (ev_Token e))
       + (length '',xreservedUntilx:'' + json_time_bytes (ev_ReservedUntil e))
       + (length '',xavailableAtx:'' + json_time_bytes (ev_AvailableAt e))
       + (if ev_Attempts e = 0 then 0 else length '',xattemptsx:'' + json_int_bytes (ev_Attempts e))
       + (if ev_Error e = [] then 0 else length '',xerrorx:'' + json_string_bytes (ev_Error e))
       + (length '',xfailedAtx:'' + json_time_bytes (ev_FailedAt e))"

text \<open>\<open>json.Marshal\<close> of an event: what the decoder reads back, and the bytes it takes.\<close>

definition encode_event :: "fileJobStoreEvent \<Rightarrow> (fileJobStoreEvent \<times> nat) option" where
  "encode_event e = (if event_encodable e then Some (event_roundtrip e, event_bytes e) else None)"

definition append_event ::
  "append_io \<Rightarrow> fileJobStoreEvent \<Rightarrow> FileJobStore \<Rightarrow> FileJobStore \<times> (job_error + unit)" where
  "append_event io e s =
     (case append_log io (encode_event e) (fjs_file s) of
        (f, r) \<Rightarrow> (s\<lparr>fjs_file := f\<rparr>, map_sum ErrJobStoreOperationFailed id r))"

definition ready :: "go_context \<Rightarrow> FileJobStore \<Rightarrow> job_error option" where
  "ready ctx s =
     (case ctx_err ctx of
        Some e \<Rightarrow> Some (ErrContext e)
      | None \<Rightarrow> if fjs_closed s then Some ErrJobStoreClosed else None)"

section \<open>Operations\<close>

definition Enqueue ::
  "go_context \<Rightarrow> StoredJob \<Rightarrow> append_io \<Rightarrow> FileJobStore \<Rightarrow> FileJobStore \<times> (job_error + unit)" where
  [op_defs]: "Enqueue ctx j io s =
     (if ctx = NilContext then (s, Inl ErrJobContextUnavailable)
      else case validateStoredJob j (fjs_maxPayloadBytes s) of
        Some e \<Rightarrow> (s, Inl e)
      | None \<Rightarrow>
          (case ready ctx s of
             Some e \<Rightarrow> (s, Inl e)
           | None \<Rightarrow>
               if int (length (fjs_jobs s)) \<ge> fjs_maxJobs s then (s, Inl ErrJobStoreFull)
               else if map_of (fjs_jobs s) (ID j) \<noteq> None then (s, Inl ErrJobStoreConflict)
               else
                 let j' = cloneStoredJob j;
                     event = (blank_event ''enqueue'')\<lparr>ev_Job := Some (fileJobPayloadFromStored j')\<rparr>
                 in case append_event io event s of
                      (s', Inl e) \<Rightarrow> (s', Inl e)
                    | (s', Inr _) \<Rightarrow>
                        (s'\<lparr>fjs_jobs := AList.update (ID j')
                           \<lparr>r_job = j', r_reservationToken = [], r_reservedUntil = 0, r_failedAt = 0,
                            r_lastError = []\<rparr> (fjs_jobs s')\<rparr>, Inr ())))"

definition reservationTokenIsEmpty :: "fileStoredJob \<Rightarrow> bool" where
  "reservationTokenIsEmpty r = (r_reservationToken r = [])"

definition reservationFromFileRecord :: "fileStoredJob \<Rightarrow> JobReservation" where
  "reservationFromFileRecord r =
     \<lparr>Job = cloneStoredJob (r_job r), Token = r_reservationToken r, ReservedUntil = r_reservedUntil r\<rparr>"

text \<open>The records that the loop of \<open>Reserve\<close> skips are those that fail this test.\<close>

definition eligible :: "instant \<Rightarrow> fileStoredJob \<Rightarrow> bool" where
  "eligible now r =
     (\<not> (\<not> is_zero_time (r_failedAt r) \<or>
         AvailableAt (r_job r) > now \<or>
         (\<not> reservationTokenIsEmpty r \<and> r_reservedUntil r > now)))"

text \<open>
  The order of the slice that \<open>sort.Slice\<close> sorts: available time, then enqueue time, then
  identifier, bytes compared as unsigned numbers.
\<close>

definition reserve_key :: "fileStoredJob \<Rightarrow> instant \<times> instant \<times> string" where
  "reserve_key r = (AvailableAt (r_job r), EnqueuedAt (r_job r), ID (r_job r))"

definition Reserve ::
  "go_context \<Rightarrow> instant \<Rightarrow> duration \<Rightarrow> string option \<Rightarrow> append_io \<Rightarrow> FileJobStore
    \<Rightarrow> FileJobStore \<times> (job_error + JobReservation)" where
  [op_defs]: "Reserve ctx now lease random io s =
     (if ctx = NilContext then (s, Inl ErrJobContextUnavailable)
      else if is_zero_time now \<or> lease \<le> 0 then (s, Inl ErrJobReservationInvalid)
      else case ready ctx s of
        Some e \<Rightarrow> (s, Inl e)
      | None \<Rightarrow>
          (case sort_key reserve_key (filter (eligible now) (map snd (fjs_jobs s))) of
             [] \<Rightarrow> (s, Inl ErrJobStoreEmpty)
           | r # _ \<Rightarrow>
               (case newJobIdentifier random of
                  Inl e \<Rightarrow> (s, Inl e)
                | Inr token \<Rightarrow>
                    let r' = r\<lparr>r_job := (r_job r)\<lparr>Attempts := wrap64 (Attempts (r_job r) + 1)\<rparr>,
                              r_reservationToken := token, r_reservedUntil := now + lease\<rparr>;
                        event = (blank_event ''reserve'')
                          \<lparr>ev_ID := ID (r_job r'), ev_Token := token,
                           ev_ReservedUntil := r_reservedUntil r', ev_Attempts := Attempts (r_job r')\<rparr>
                    in case append_event io event s of
                         (s', Inl e) \<Rightarrow> (s', Inl e)
                       | (s', Inr _) \<Rightarrow>
                           (s'\<lparr>fjs_jobs := AList.update (ID (r_job r')) r' (fjs_jobs s')\<rparr>,
                            Inr (reservationFromFileRecord r')))))"

definition finishReservation ::
  "go_context \<Rightarrow> JobReservation \<Rightarrow> fileJobStoreEvent \<Rightarrow> (fileStoredJob \<Rightarrow> fileStoredJob \<times> bool)
    \<Rightarrow> append_io \<Rightarrow> FileJobStore \<Rightarrow> FileJobStore \<times> (job_error + unit)" where
  [op_defs]: "finishReservation ctx reservation event apply_record io s =
     (if ctx = NilContext then (s, Inl ErrJobContextUnavailable)
      else if ID (Job reservation) = [] \<or> Token reservation = [] then (s, Inl ErrJobReservationInvalid)
      else case ready ctx s of
        Some e \<Rightarrow> (s, Inl e)
      | None \<Rightarrow>
          (case map_of (fjs_jobs s) (ID (Job reservation)) of
             None \<Rightarrow> (s, Inl ErrJobReservationInvalid)
           | Some r \<Rightarrow>
               if r_reservationToken r \<noteq> Token reservation then (s, Inl ErrJobReservationInvalid)
               else case append_event io event s of
                 (s', Inl e) \<Rightarrow> (s', Inl e)
               | (s', Inr _) \<Rightarrow>
                   (let (updated, keep) = apply_record r in
                    if keep
                    then (s'\<lparr>fjs_jobs := AList.update (ID (r_job r)) updated (fjs_jobs s')\<rparr>, Inr ())
                    else (s'\<lparr>fjs_jobs := AList.delete (ID (r_job r)) (fjs_jobs s')\<rparr>, Inr ()))))"

definition Release ::
  "go_context \<Rightarrow> JobReservation \<Rightarrow> instant \<Rightarrow> string \<Rightarrow> append_io \<Rightarrow> FileJobStore
    \<Rightarrow> FileJobStore \<times> (job_error + unit)" where
  [op_defs]: "Release ctx reservation availableAt lastError io s =
     (if is_zero_time availableAt then (s, Inl ErrJobReservationInvalid)
      else
        let err = normalizeFileJobStoreError lastError in
        finishReservation ctx reservation
          ((blank_event ''release'')\<lparr>ev_ID := ID (Job reservation), ev_Token := Token reservation,
             ev_AvailableAt := availableAt, ev_Error := err\<rparr>)
          (\<lambda>r. (r\<lparr>r_job := (r_job r)\<lparr>AvailableAt := availableAt\<rparr>, r_reservationToken := [],
                  r_reservedUntil := 0, r_lastError := err\<rparr>, True))
          io s)"

definition Complete ::
  "go_context \<Rightarrow> JobReservation \<Rightarrow> append_io \<Rightarrow> FileJobStore \<Rightarrow> FileJobStore \<times> (job_error + unit)" where
  [op_defs]: "Complete ctx reservation io s =
     finishReservation ctx reservation
       ((blank_event ''complete'')\<lparr>ev_ID := ID (Job reservation), ev_Token := Token reservation\<rparr>)
       (\<lambda>r. (r, False)) io s"

text \<open>\<open>clock\<close> is the value of \<open>time.Now\<close>.\<close>

definition Fail ::
  "go_context \<Rightarrow> JobReservation \<Rightarrow> string \<Rightarrow> instant \<Rightarrow> append_io \<Rightarrow> FileJobStore
    \<Rightarrow> FileJobStore \<times> (job_error + unit)" where
  [op_defs]: "Fail ctx reservation lastError clock io s =
     (let err = normalizeFileJobStoreError lastError in
      finishReservation ctx reservation
        ((blank_event ''fail'')\<lparr>ev_ID := ID (Job reservation), ev_Token := Token reservation,
           ev_Error := err, ev_FailedAt := clock\<rparr>)
        (\<lambda>r. (r\<lparr>r_reservationToken := [], r_reservedUntil := 0, r_failedAt := clock,
                r_lastError := err\<rparr>, True))
        io s)"

definition failed_key :: "FailedStoredJob \<Rightarrow> instant \<times> string" where
  "failed_key f = (FailedAt f, ID (FailedJob f))"

definition FailedJobs :: "FileJobStore \<Rightarrow> FailedStoredJob list" where
  [op_defs]: "FailedJobs s =
     sort_key failed_key
       (map (\<lambda>r. \<lparr>FailedJob = cloneStoredJob (r_job r), FailedAt = r_failedAt r,
                  FailedError = r_lastError r\<rparr>)
         (filter (\<lambda>r. \<not> is_zero_time (r_failedAt r)) (map snd (fjs_jobs s))))"

definition RetryFailed ::
  "go_context \<Rightarrow> string \<Rightarrow> instant \<Rightarrow> append_io \<Rightarrow> FileJobStore \<Rightarrow> FileJobStore \<times> (job_error + unit)" where
  [op_defs]: "RetryFailed ctx i availableAt io s =
     (if ctx = NilContext then (s, Inl ErrJobContextUnavailable)
      else if i = [] \<or> is_zero_time availableAt then (s, Inl ErrJobStoreConflict)
      else case ready ctx s of
        Some e \<Rightarrow> (s, Inl e)
      | None \<Rightarrow>
          (case map_of (fjs_jobs s) i of
             None \<Rightarrow> (s, Inl ErrJobStoreConflict)
           | Some r \<Rightarrow>
               if is_zero_time (r_failedAt r) then (s, Inl ErrJobStoreConflict)
               else case append_event io
                      ((blank_event ''retry'')\<lparr>ev_ID := i, ev_AvailableAt := availableAt\<rparr>) s of
                 (s', Inl e) \<Rightarrow> (s', Inl e)
               | (s', Inr _) \<Rightarrow>
                   (s'\<lparr>fjs_jobs := AList.update i
                      (r\<lparr>r_job := (r_job r)\<lparr>Attempts := 0, AvailableAt := availableAt\<rparr>,
                         r_failedAt := 0, r_lastError := []\<rparr>) (fjs_jobs s')\<rparr>, Inr ())))"

definition ForgetFailed ::
  "go_context \<Rightarrow> string \<Rightarrow> append_io \<Rightarrow> FileJobStore \<Rightarrow> FileJobStore \<times> (job_error + unit)" where
  [op_defs]: "ForgetFailed ctx i io s =
     (if ctx = NilContext then (s, Inl ErrJobContextUnavailable)
      else if i = [] then (s, Inl ErrJobStoreConflict)
      else case ready ctx s of
        Some e \<Rightarrow> (s, Inl e)
      | None \<Rightarrow>
          (case map_of (fjs_jobs s) i of
             None \<Rightarrow> (s, Inl ErrJobStoreConflict)
           | Some r \<Rightarrow>
               if is_zero_time (r_failedAt r) then (s, Inl ErrJobStoreConflict)
               else case append_event io ((blank_event ''forget'')\<lparr>ev_ID := i\<rparr>) s of
                 (s', Inl e) \<Rightarrow> (s', Inl e)
               | (s', Inr _) \<Rightarrow> (s'\<lparr>fjs_jobs := AList.delete i (fjs_jobs s')\<rparr>, Inr ())))"

text \<open>\<open>close_ok\<close> tells whether closing the file succeeds.\<close>

definition Close :: "bool \<Rightarrow> FileJobStore \<Rightarrow> FileJobStore \<times> (job_error + unit)" where
  [op_defs]: "Close close_ok s =
     (if fjs_closed s then (s, Inr ())
      else (s\<lparr>fjs_closed := True\<rparr>,
            if close_ok then Inr () else Inl (ErrJobStoreOperationFailed CloseLog)))"

section \<open>Replay\<close>

definition replayReservation ::
  "(string, fileStoredJob) gomap \<Rightarrow> fileJobStoreEvent \<Rightarrow> fileStoredJob option" where
  "replayReservation m e =
     (case map_of m (ev_ID e) of
        None \<Rightarrow> None
      | Some r \<Rightarrow> if ev_Token e = [] \<or> r_reservationToken r \<noteq> ev_Token e then None else Some r)"

definition applyEvent ::
  "int \<Rightarrow> (string, fileStoredJob) gomap \<Rightarrow> fileJobStoreEvent
    \<Rightarrow> job_error + (string, fileStoredJob) gomap" where
  "applyEvent maxPayload m e =
     (if ev_Version e \<noteq> fileJobStoreEventVersion then Inl ErrFileJobStoreCorrupt
      else if ev_Type e = ''enqueue'' then
        (case ev_Job e of
           None \<Rightarrow> Inl ErrFileJobStoreCorrupt
         | Some p \<Rightarrow>
             let j = stored p in
             if validateStoredJob j maxPayload \<noteq> None then Inl ErrFileJobStoreCorrupt
             else if map_of m (ID j) \<noteq> None then Inl ErrFileJobStoreCorrupt
             else Inr (AList.update (ID j)
                    \<lparr>r_job = j, r_reservationToken = [], r_reservedUntil = 0, r_failedAt = 0,
                     r_lastError = []\<rparr> m))
      else if ev_Type e = ''reserve'' then
        (case map_of m (ev_ID e) of
           None \<Rightarrow> Inl ErrFileJobStoreCorrupt
         | Some r \<Rightarrow>
             if ev_Token e = [] \<or> is_zero_time (ev_ReservedUntil e) \<or>
                ev_Attempts e \<noteq> wrap64 (Attempts (r_job r) + 1)
             then Inl ErrFileJobStoreCorrupt
             else Inr (AList.update (ev_ID e)
                    (r\<lparr>r_job := (r_job r)\<lparr>Attempts := ev_Attempts e\<rparr>,
                       r_reservationToken := ev_Token e, r_reservedUntil := ev_ReservedUntil e\<rparr>) m))
      else if ev_Type e = ''release'' then
        (case replayReservation m e of
           None \<Rightarrow> Inl ErrFileJobStoreCorrupt
         | Some r \<Rightarrow>
             if is_zero_time (ev_AvailableAt e) then Inl ErrFileJobStoreCorrupt
             else Inr (AList.update (ev_ID e)
                    (r\<lparr>r_job := (r_job r)\<lparr>AvailableAt := ev_AvailableAt e\<rparr>,
                       r_reservationToken := [], r_reservedUntil := 0, r_lastError := ev_Error e\<rparr>) m))
      else if ev_Type e = ''complete'' then
        (case replayReservation m e of
           None \<Rightarrow> Inl ErrFileJobStoreCorrupt
         | Some r \<Rightarrow> Inr (AList.delete (ev_ID e) m))
      else if ev_Type e = ''fail'' then
        (case replayReservation m e of
           None \<Rightarrow> Inl ErrFileJobStoreCorrupt
         | Some r \<Rightarrow>
             if is_zero_time (ev_FailedAt e) then Inl ErrFileJobStoreCorrupt
             else Inr (AList.update (ev_ID e)
                    (r\<lparr>r_reservationToken := [], r_reservedUntil := 0, r_failedAt := ev_FailedAt e,
                       r_lastError := ev_Error e\<rparr>) m))
      else if ev_Type e = ''retry'' then
        (case map_of m (ev_ID e) of
           None \<Rightarrow> Inl ErrFileJobStoreCorrupt
         | Some r \<Rightarrow>
             if is_zero_time (r_failedAt r) \<or> is_zero_time (ev_AvailableAt e)
             then Inl ErrFileJobStoreCorrupt
             else Inr (AList.update (ev_ID e)
                    (r\<lparr>r_job := (r_job r)\<lparr>Attempts := 0, AvailableAt := ev_AvailableAt e\<rparr>,
                       r_failedAt := 0, r_lastError := []\<rparr>) m))
      else if ev_Type e = ''forget'' then
        (case map_of m (ev_ID e) of
           None \<Rightarrow> Inl ErrFileJobStoreCorrupt
         | Some r \<Rightarrow>
             if is_zero_time (r_failedAt r) then Inl ErrFileJobStoreCorrupt
             else Inr (AList.delete (ev_ID e) m))
      else Inl ErrFileJobStoreCorrupt)"

definition line_limit :: "int \<Rightarrow> int" where
  "line_limit maxPayload = maxPayload + fileJobStoreEventOverhead"

definition replay :: "replay_io \<Rightarrow> FileJobStore \<Rightarrow> FileJobStore \<times> (job_error + unit)" where
  "replay io s =
     (case replay_log io (line_limit (fjs_maxPayloadBytes s)) ErrFileJobStoreCorrupt
             ErrJobStoreOperationFailed (applyEvent (fjs_maxPayloadBytes s)) (fjs_jobs s) (fjs_file s) of
        (f, Inl e) \<Rightarrow> (s\<lparr>fjs_file := f\<rparr>, Inl e)
      | (f, Inr m) \<Rightarrow> (s\<lparr>fjs_file := f, fjs_jobs := m\<rparr>, Inr ()))"

definition NewFileJobStore ::
  "(string \<Rightarrow> string option) \<Rightarrow> FileJobStoreOptions \<Rightarrow> open_io \<Rightarrow> replay_io
    \<Rightarrow> fileJobStoreEvent log_file \<Rightarrow> fileJobStoreEvent log_file \<times> (job_error + FileJobStore)" where
  "NewFileJobStore abs_path options oio rio f =
     (case normalizeFileJobStoreOptions abs_path options of
        Inl e \<Rightarrow> (f, Inl e)
      | Inr o' \<Rightarrow>
          (case oio of
             MkdirFails \<Rightarrow> (f, Inl (ErrJobStoreOperationFailed CreateDirectory))
           | OpenFails \<Rightarrow> (f, Inl (ErrJobStoreOperationFailed OpenLog))
           | ChmodFails \<Rightarrow> (f, Inl (ErrJobStoreOperationFailed SecureLog))
           | OpenOk \<Rightarrow>
               (case replay rio
                  \<lparr>fjs_path = Path o', fjs_maxJobs = MaxJobs o', fjs_maxPayloadBytes = MaxPayloadBytes o',
                   fjs_file = f, fjs_jobs = [], fjs_closed = False\<rparr> of
                  (s, Inl e) \<Rightarrow> (fjs_file s, Inl e)
                | (s, Inr _) \<Rightarrow> (fjs_file s, Inr s))))"

section \<open>Basic facts\<close>

lemma cloneStoredJob_id [simp]: "cloneStoredJob j = j"
  by (simp add: cloneStoredJob_def)

lemma stored_payload [simp]: "stored (fileJobPayloadFromStored j) = j"
  by (simp add: stored_def fileJobPayloadFromStored_def)

lemma blank_event_sel [simp]:
  "ev_Version (blank_event t) = fileJobStoreEventVersion" "ev_Type (blank_event t) = t"
  "ev_Job (blank_event t) = None" "ev_ID (blank_event t) = []" "ev_Token (blank_event t) = []"
  "ev_ReservedUntil (blank_event t) = 0" "ev_AvailableAt (blank_event t) = 0"
  "ev_Attempts (blank_event t) = 0" "ev_Error (blank_event t) = []" "ev_FailedAt (blank_event t) = 0"
  by (simp_all add: blank_event_def)

lemma validJobIdentifier_valid: "validJobIdentifier i \<Longrightarrow> valid_string i"
  by (rule valid_string_ascii) (auto simp: validJobIdentifier_def is_hex_digit_def list_all_iff)

lemma validJobIdentifier_nonempty: "validJobIdentifier i \<Longrightarrow> i \<noteq> []"
  by (auto simp: validJobIdentifier_def jobIdentifierBytes_def)

lemma validJobIdentifier_length: "validJobIdentifier i \<Longrightarrow> length i = 64"
  by (simp add: validJobIdentifier_def jobIdentifierBytes_def)

lemma newJobIdentifier_valid:
  "newJobIdentifier (Some b) = Inr t \<Longrightarrow> length b = jobIdentifierBytes \<Longrightarrow> validJobIdentifier t"
  using hex_encode_digits [of b] by (auto simp: newJobIdentifier_def validJobIdentifier_def)

lemma shrink_to_valid_valid: "valid_string (shrink_to_valid v)"
proof (induction v rule: shrink_to_valid.induct)
  case (1 v)
  then show ?case by (subst shrink_to_valid.simps) simp
qed

lemma shrink_to_valid_prefix: "\<exists>t. v = shrink_to_valid v @ t"
proof (induction v rule: shrink_to_valid.induct)
  case (1 v)
  show ?case
  proof (cases "valid_string v")
    case False
    with 1 obtain t where "take (length v - 1) v = shrink_to_valid (take (length v - 1) v) @ t"
      by blast
    moreover have "shrink_to_valid v = shrink_to_valid (take (length v - 1) v)"
      using False by (subst shrink_to_valid.simps) simp
    ultimately have "v = shrink_to_valid v @ (t @ drop (length v - 1) v)"
      by (metis append_assoc append_take_drop_id)
    then show ?thesis by blast
  qed (simp add: shrink_to_valid.simps)
qed

lemma normalizeFileJobStoreError_length: "length (normalizeFileJobStoreError v) \<le> fileJobStoreMaxErrorBytes"
proof -
  obtain t where "take fileJobStoreMaxErrorBytes v = shrink_to_valid (take fileJobStoreMaxErrorBytes v) @ t"
    using shrink_to_valid_prefix by blast
  then have "length (shrink_to_valid (take fileJobStoreMaxErrorBytes v)) \<le> fileJobStoreMaxErrorBytes"
    by (metis length_append length_take le_add1 min.cobounded2 order_trans)
  then show ?thesis by (simp add: normalizeFileJobStoreError_def)
qed

lemma normalizeFileJobStoreError_valid:
  "valid_string v \<Longrightarrow> valid_string (normalizeFileJobStoreError v)"
  by (simp add: normalizeFileJobStoreError_def shrink_to_valid_valid)

lemma append_event_frame:
  assumes "append_event io e s = (s', r)"
  shows "fjs_jobs s' = fjs_jobs s" "fjs_maxPayloadBytes s' = fjs_maxPayloadBytes s"
    "fjs_maxJobs s' = fjs_maxJobs s" "fjs_closed s' = fjs_closed s" "fjs_path s' = fjs_path s"
  using assms by (auto simp: append_event_def split: prod.splits)

lemma append_event_ok_iff:
  "append_event io e s = (s', Inr u) \<longleftrightarrow>
     event_encodable e \<and> io = AppendOk \<and>
     s' = s\<lparr>fjs_file := write_line (event_roundtrip e) (event_bytes e) (fjs_file s)\<rparr>"
  by (auto simp: append_event_def append_log_def encode_event_def split: append_io.splits if_splits)

section \<open>Records filed under their identifier\<close>

definition keyed_jobs :: "(string, fileStoredJob) gomap \<Rightarrow> bool" where
  "keyed_jobs m = (gomap_wf m \<and> list_all (\<lambda>(k, r). ID (r_job r) = k) m)"

lemma list_all_update: "list_all P m \<Longrightarrow> P (k, v) \<Longrightarrow> list_all P (AList.update k v m)"
  by (induction m) auto

lemma list_all_delete: "list_all P m \<Longrightarrow> list_all P (AList.delete k m)"
  by (auto simp: list_all_iff AList.delete_eq)

lemma keyed_jobs_Nil [simp]: "keyed_jobs []"
  by (simp add: keyed_jobs_def)

lemma keyed_jobs_lookup: "keyed_jobs m \<Longrightarrow> map_of m k = Some r \<Longrightarrow> ID (r_job r) = k"
  by (auto simp: keyed_jobs_def list_all_iff dest: map_of_SomeD)

lemma keyed_jobs_mem:
  assumes "keyed_jobs m" "(k, r) \<in> set m"
  shows "map_of m (ID (r_job r)) = Some r"
proof -
  have "map_of m k = Some r" using assms by (simp add: keyed_jobs_def gomap_mem_iff)
  then show ?thesis using keyed_jobs_lookup [OF assms(1)] by simp
qed

lemma keyed_jobs_update [inv_intros]:
  "keyed_jobs m \<Longrightarrow> ID (r_job r) = k \<Longrightarrow> keyed_jobs (AList.update k r m)"
  by (simp add: keyed_jobs_def list_all_update)

lemma keyed_jobs_delete [inv_intros]: "keyed_jobs m \<Longrightarrow> keyed_jobs (AList.delete k m)"
  by (simp add: keyed_jobs_def list_all_delete)

text \<open>Replay keeps the records filed under their identifiers, whatever the log holds.\<close>

lemma applyEvent_keyed: "keyed_jobs m \<Longrightarrow> applyEvent mp m e = Inr m' \<Longrightarrow> keyed_jobs m'"
  by (auto simp: applyEvent_def replayReservation_def Let_def inv_intros keyed_jobs_lookup
      split: if_splits option.splits)

lemma replay_lines_keyed:
  "keyed_jobs m \<Longrightarrow> replay_lines lim c (applyEvent mp) m ls = Inr m' \<Longrightarrow> keyed_jobs m'"
proof (induction ls arbitrary: m)
  case (Cons l ls)
  then show ?case
    by (auto simp: replay_line_def split: sum.splits if_splits option.splits dest: applyEvent_keyed)
qed simp

section \<open>A successful reservation\<close>

text \<open>The record \<open>Reserve\<close> writes for the job it picks.\<close>

definition reserved_record :: "instant \<Rightarrow> duration \<Rightarrow> string \<Rightarrow> fileStoredJob \<Rightarrow> fileStoredJob" where
  "reserved_record now lease token r =
     r\<lparr>r_job := (r_job r)\<lparr>Attempts := wrap64 (Attempts (r_job r) + 1)\<rparr>,
       r_reservationToken := token, r_reservedUntil := now + lease\<rparr>"

lemma reserved_record_sel [simp]:
  "ID (r_job (reserved_record now lease token r)) = ID (r_job r)"
  "Handler (r_job (reserved_record now lease token r)) = Handler (r_job r)"
  "Payload (r_job (reserved_record now lease token r)) = Payload (r_job r)"
  "Attempts (r_job (reserved_record now lease token r)) = wrap64 (Attempts (r_job r) + 1)"
  "AvailableAt (r_job (reserved_record now lease token r)) = AvailableAt (r_job r)"
  "r_reservationToken (reserved_record now lease token r) = token"
  "r_reservedUntil (reserved_record now lease token r) = now + lease"
  "r_failedAt (reserved_record now lease token r) = r_failedAt r"
  by (simp_all add: reserved_record_def)

lemma Reserve_success:
  assumes kj: "keyed_jobs (fjs_jobs s)" and res: "Reserve ctx now lease random io s = (s', Inr v)"
  obtains r b where
    "map_of (fjs_jobs s) (ID (r_job r)) = Some r" "eligible now r" "random = Some b" "0 < lease"
    "\<forall>q \<in> set (filter (eligible now) (map snd (fjs_jobs s))). reserve_key r \<le> reserve_key q"
    "v = reservationFromFileRecord (reserved_record now lease (hex_encode b) r)"
    "fjs_jobs s' = AList.update (ID (r_job r)) (reserved_record now lease (hex_encode b) r) (fjs_jobs s)"
    "fjs_closed s' = fjs_closed s" "fjs_maxPayloadBytes s' = fjs_maxPayloadBytes s" "fjs_maxJobs s' = fjs_maxJobs s"
proof -
  let ?el = "filter (eligible now) (map snd (fjs_jobs s))"
  from res obtain r rs b where
    pick: "sort_key reserve_key ?el = r # rs" and b: "random = Some b" "0 < lease"
    and v: "v = reservationFromFileRecord (reserved_record now lease (hex_encode b) r)"
    and s': "fjs_jobs s' = AList.update (ID (r_job r)) (reserved_record now lease (hex_encode b) r) (fjs_jobs s)"
      "fjs_closed s' = fjs_closed s" "fjs_maxPayloadBytes s' = fjs_maxPayloadBytes s" "fjs_maxJobs s' = fjs_maxJobs s"
    by (auto simp: Reserve_def Let_def append_event_ok_iff newJobIdentifier_def reserved_record_def
        split: if_splits option.splits list.splits sum.splits prod.splits)
  have "set (r # rs) = set ?el" by (metis pick set_sort)
  then have mem: "r \<in> set ?el" "set ?el = insert r (set rs)" by auto
  have "sorted (map reserve_key (r # rs))" by (metis pick sorted_sort_key)
  then have least: "\<forall>q \<in> set ?el. reserve_key r \<le> reserve_key q" using mem(2) by auto
  have "map_of (fjs_jobs s) (ID (r_job r)) = Some r" "eligible now r"
    using mem(1) keyed_jobs_mem [OF kj] by auto
  with that b v s' least show ?thesis by blast
qed

end
