(* ===== verification/JobQueue.thy ===== *)
theory JobQueue
  imports FileJobStore
begin

text \<open>
  The background job queue: \<open>src/backend/framework/jobs.go\<close>,
  \<open>jobs_delayed.go\<close> and \<open>jobs_persistent.go\<close>. This theory holds its options, its
  registration and dispatch checks, the retry loop of in-memory jobs, and the worker of a queue with a
  store, over the interface \<open>JobStore\<close> of \<open>job_store.go\<close>. The goroutines of the
  in-memory queue are in \<open>JobQueueLifecycle\<close>.

  A store is a record of its five operations. Each takes what the environment decides (system call
  outcomes, random bytes, the clock) as its first argument. Application code appears as the functions
  of a handler: \<open>h_encode\<close> and \<open>h_decode\<close> for \<open>json.Marshal\<close> and the strict
  decoder at the handler's type, \<open>h_handle\<close> for the outcome of each call.
\<close>

section \<open>Options\<close>

datatype queue_error =
    ErrJobQueueUnavailable
  | ErrQueueContextUnavailable
  | ErrInvalidJobQueueOptions
  | ErrInvalidJobHandler
  | ErrInvalidJobHandlerOptions
  | ErrJobHandlerAlreadyDefined string
  | ErrJobHandlerNameAlreadyDefined string
  | ErrJobHandlerRegistrationClosed
  | ErrJobHandlerNotFound
  | ErrJobQueueNotRunning
  | ErrJobQueueStopped
  | ErrInvalidJobDelay
  | ErrQueueContext ctx_error
  | ErrJobPayloadEncodingFailed
  | ErrJobPayloadDecodingFailed
  | ErrJobDispatchFailed queue_error
  | ErrStore job_error
  | ErrJoin queue_error queue_error
  | ErrStoreOperation string queue_error
  | ErrHandler string
  | ErrJobExecutionFailed queue_error
  | ErrJobRetriesExhausted queue_error
  | ErrAttemptsExceeded

definition milliseconds :: "int \<Rightarrow> duration" where
  "milliseconds n = n * 1000000"

definition seconds :: "int \<Rightarrow> duration" where
  "seconds n = n * 1000000000"

definition defaultJobQueueCapacity :: int where
  "defaultJobQueueCapacity = 64"

definition defaultJobQueueWorkers :: int where
  "defaultJobQueueWorkers = 1"

definition defaultJobPollInterval :: duration where
  "defaultJobPollInterval = milliseconds 100"

definition defaultJobLeaseDuration :: duration where
  "defaultJobLeaseDuration = seconds 60"

record JobQueueOptions =
  Capacity :: int
  Workers :: int
  JobTimeout :: duration
  HasStore :: bool
  PollInterval :: duration
  LeaseDuration :: duration

record JobHandlerOptions =
  MaxAttempts :: int
  RetryBackoff :: duration

definition DefaultJobQueueOptions :: JobQueueOptions where
  "DefaultJobQueueOptions =
     \<lparr>Capacity = defaultJobQueueCapacity, Workers = defaultJobQueueWorkers, JobTimeout = seconds 30,
      HasStore = False, PollInterval = defaultJobPollInterval, LeaseDuration = defaultJobLeaseDuration\<rparr>"

definition normalizeJobQueueOptions :: "JobQueueOptions \<Rightarrow> queue_error + JobQueueOptions" where
  "normalizeJobQueueOptions options =
     (if Capacity options < 0 \<or> Workers options < 0 \<or> JobTimeout options < 0 \<or>
         PollInterval options < 0 \<or> LeaseDuration options < 0
      then Inl ErrInvalidJobQueueOptions
      else
        let o1 = options\<lparr>Capacity := (if Capacity options = 0 then defaultJobQueueCapacity else Capacity options),
                   Workers := (if Workers options = 0 then defaultJobQueueWorkers else Workers options)\<rparr>
        in if HasStore o1 then
             let o2 = o1\<lparr>JobTimeout := (if JobTimeout o1 = 0 then JobTimeout DefaultJobQueueOptions else JobTimeout o1),
                        PollInterval := (if PollInterval o1 = 0 then defaultJobPollInterval else PollInterval o1),
                        LeaseDuration := (if LeaseDuration o1 = 0 then defaultJobLeaseDuration else LeaseDuration o1)\<rparr>
             in if LeaseDuration o2 \<le> JobTimeout o2 then Inl ErrInvalidJobQueueOptions else Inr o2
           else Inr o1)"

definition normalizeJobHandlerOptions :: "JobHandlerOptions \<Rightarrow> queue_error + JobHandlerOptions" where
  "normalizeJobHandlerOptions options =
     (if MaxAttempts options < 0 \<or> RetryBackoff options < 0 then Inl ErrInvalidJobHandlerOptions
      else Inr (options\<lparr>MaxAttempts := (if MaxAttempts options = 0 then 1 else MaxAttempts options)\<rparr>))"

section \<open>Handlers and the queue\<close>

text \<open>What one call of a handler can do. A panic is recovered and becomes an error.\<close>

datatype handler_outcome = HandlerOk | HandlerFails string | HandlerPanics string

record 'v jobHandlerEntry =
  h_jobType :: string
  h_name :: string
  h_options :: JobHandlerOptions
  h_handle :: "int \<Rightarrow> 'v \<Rightarrow> handler_outcome"
  h_encode :: "'v \<Rightarrow> string option"
  h_decode :: "string \<Rightarrow> 'v option"

datatype jobQueueState = jobQueueCollecting | jobQueueRunning | jobQueueStopping | jobQueueStopped

record 'v JobQueue =
  q_options :: JobQueueOptions
  q_handlers :: "(string, 'v jobHandlerEntry) gomap"
  q_handlersByName :: "(string, 'v jobHandlerEntry) gomap"
  q_state :: jobQueueState

record 'v queuedJob =
  qj_jobType :: string
  qj_value :: 'v
  qj_handler :: "'v jobHandlerEntry"

record JobFailure =
  f_JobID :: string
  f_Handler :: string
  f_JobType :: string
  f_Attempts :: int
  f_MaxAttempts :: int
  f_Err :: queue_error

definition NewJobQueue :: "JobQueueOptions \<Rightarrow> queue_error + 'v JobQueue" where
  "NewJobQueue options =
     (case normalizeJobQueueOptions options of
        Inl e \<Rightarrow> Inl e
      | Inr normalized \<Rightarrow>
          Inr \<lparr>q_options = normalized, q_handlers = [], q_handlersByName = [], q_state = jobQueueCollecting\<rparr>)"

text \<open>
  Registration. \<open>handler = None\<close> is a nil handler; otherwise it gives the entry's functions at
  the job's type.
\<close>

definition HandleJobWithOptions ::
  "'v JobQueue option \<Rightarrow> string \<Rightarrow> JobHandlerOptions \<Rightarrow> string
    \<Rightarrow> ((int \<Rightarrow> 'v \<Rightarrow> handler_outcome) \<times> ('v \<Rightarrow> string option) \<times> (string \<Rightarrow> 'v option)) option
    \<Rightarrow> 'v JobQueue option \<times> (queue_error + unit)" where
  [op_defs]: "HandleJobWithOptions queue name options jobType handler =
     (case queue of
        None \<Rightarrow> (None, Inl ErrJobQueueUnavailable)
      | Some q \<Rightarrow>
          let nm = trim_space name in
          (case handler of
             None \<Rightarrow> (Some q, Inl ErrInvalidJobHandler)
           | Some (handle, encode, decode) \<Rightarrow>
               if nm = [] then (Some q, Inl ErrInvalidJobHandler)
               else case normalizeJobHandlerOptions options of
                 Inl e \<Rightarrow> (Some q, Inl e)
               | Inr normalized \<Rightarrow>
                   let entry = \<lparr>h_jobType = jobType, h_name = nm, h_options = normalized, h_handle = handle,
                                h_encode = encode, h_decode = decode\<rparr>
                   in if q_state q \<noteq> jobQueueCollecting then (Some q, Inl ErrJobHandlerRegistrationClosed)
                      else case map_of (q_handlers q) jobType of
                        Some registered \<Rightarrow> (Some q, Inl (ErrJobHandlerAlreadyDefined (h_name registered)))
                      | None \<Rightarrow>
                          if HasStore (q_options q) then
                            (case map_of (q_handlersByName q) nm of
                               Some registered \<Rightarrow> (Some q, Inl (ErrJobHandlerNameAlreadyDefined (h_jobType registered)))
                             | None \<Rightarrow>
                                 (Some (q\<lparr>q_handlersByName := AList.update nm entry (q_handlersByName q),
                                          q_handlers := AList.update jobType entry (q_handlers q)\<rparr>), Inr ()))
                          else (Some (q\<lparr>q_handlers := AList.update jobType entry (q_handlers q)\<rparr>), Inr ())))"

text \<open>The checks of every dispatch; the in-flight dispatch it registers is in \<open>JobQueueLifecycle\<close>.\<close>

definition prepareJobDispatch ::
  "go_context \<Rightarrow> 'v JobQueue option \<Rightarrow> string \<Rightarrow> 'v \<Rightarrow> queue_error + 'v queuedJob" where
  "prepareJobDispatch ctx queue jobType v =
     (case queue of
        None \<Rightarrow> Inl ErrJobQueueUnavailable
      | Some q \<Rightarrow>
          if ctx = NilContext then Inl ErrQueueContextUnavailable
          else case ctx_err ctx of
            Some e \<Rightarrow> Inl (ErrJobDispatchFailed (ErrQueueContext e))
          | None \<Rightarrow>
              (case q_state q of
                 jobQueueCollecting \<Rightarrow> Inl (ErrJobDispatchFailed ErrJobQueueNotRunning)
               | jobQueueStopping \<Rightarrow> Inl (ErrJobDispatchFailed ErrJobQueueStopped)
               | jobQueueStopped \<Rightarrow> Inl (ErrJobDispatchFailed ErrJobQueueStopped)
               | jobQueueRunning \<Rightarrow>
                   (case map_of (q_handlers q) jobType of
                      None \<Rightarrow> Inl (ErrJobDispatchFailed ErrJobHandlerNotFound)
                    | Some handler \<Rightarrow>
                        Inr \<lparr>qj_jobType = jobType, qj_value = v, qj_handler = handler\<rparr>)))"

text \<open>
  Delayed dispatches: whether the job is dispatched at once or for an instant, \<open>clock\<close> being
  \<open>time.Now\<close>.
\<close>

datatype dispatch_route = DispatchNow | DispatchLater instant

definition DispatchJobAfter ::
  "go_context \<Rightarrow> 'v JobQueue option \<Rightarrow> duration \<Rightarrow> instant \<Rightarrow> queue_error + dispatch_route" where
  "DispatchJobAfter ctx queue delay clock =
     (if queue = None then Inl ErrJobQueueUnavailable
      else if ctx = NilContext then Inl ErrQueueContextUnavailable
      else if delay < 0 then Inl (ErrJobDispatchFailed ErrInvalidJobDelay)
      else if delay = 0 then Inr DispatchNow
      else Inr (DispatchLater (clock + delay)))"

definition DispatchJobAt ::
  "go_context \<Rightarrow> 'v JobQueue option \<Rightarrow> instant \<Rightarrow> instant \<Rightarrow> queue_error + dispatch_route" where
  "DispatchJobAt ctx queue readyAt clock =
     (if queue = None then Inl ErrJobQueueUnavailable
      else if ctx = NilContext then Inl ErrQueueContextUnavailable
      else if \<not> clock < readyAt then Inr DispatchNow
      else Inr (DispatchLater readyAt))"

section \<open>Executing in-memory jobs\<close>

definition executeAttempt :: "'v queuedJob \<Rightarrow> int \<Rightarrow> queue_error option" where
  "executeAttempt j attempt =
     (case h_handle (qj_handler j) attempt (qj_value j) of
        HandlerOk \<Rightarrow> None
      | HandlerFails e \<Rightarrow> Some (ErrHandler e)
      | HandlerPanics p \<Rightarrow> Some (ErrHandler (''handler panic: '' @ p)))"

text \<open>
  The loop of \<open>execute\<close> from attempt \<open>attempt\<close> on: the attempts made, the waits between
  them, and the last error if every attempt failed.
\<close>

function execute_from ::
  "'v queuedJob \<Rightarrow> int \<Rightarrow> queue_error option \<Rightarrow> int list \<times> duration list \<times> queue_error option" where
  "execute_from j attempt lasterr =
     (let m = MaxAttempts (h_options (qj_handler j)) in
      if attempt \<le> m then
        (case executeAttempt j attempt of
           None \<Rightarrow> ([attempt], [], None)
         | Some e \<Rightarrow>
             (case execute_from j (attempt + 1) (Some e) of
                (as, ws, r) \<Rightarrow>
                  (attempt # as,
                   (if attempt < m \<and> 0 < RetryBackoff (h_options (qj_handler j))
                    then [RetryBackoff (h_options (qj_handler j))] else []) @ ws, r)))
      else ([], [], lasterr))"
  by pat_completeness auto
termination
  by (relation "measure (\<lambda>(j, attempt, _). nat (MaxAttempts (h_options (qj_handler j)) + 1 - attempt))") auto

declare execute_from.simps [simp del]

definition exhausted :: "JobHandlerOptions \<Rightarrow> queue_error \<Rightarrow> queue_error" where
  "exhausted options e =
     (if MaxAttempts options > 1 then ErrJobRetriesExhausted (ErrJobExecutionFailed e)
      else ErrJobExecutionFailed e)"

definition execute :: "'v queuedJob \<Rightarrow> int list \<times> duration list \<times> JobFailure option" where
  [op_defs]: "execute j =
     (let os = h_options (qj_handler j) in
      case execute_from j 1 None of
        (as, ws, None) \<Rightarrow> (as, ws, None)
      | (as, ws, Some e) \<Rightarrow>
          (as, ws, Some \<lparr>f_JobID = [], f_Handler = h_name (qj_handler j), f_JobType = qj_jobType j,
                         f_Attempts = MaxAttempts os, f_MaxAttempts = MaxAttempts os,
                         f_Err = exhausted os e\<rparr>))"

section \<open>The store interface\<close>

record ('env, 's) JobStore =
  js_Enqueue :: "'env \<Rightarrow> go_context \<Rightarrow> StoredJob \<Rightarrow> 's \<Rightarrow> 's \<times> (job_error + unit)"
  js_Reserve :: "'env \<Rightarrow> go_context \<Rightarrow> instant \<Rightarrow> duration \<Rightarrow> 's \<Rightarrow> 's \<times> (job_error + JobReservation)"
  js_Release :: "'env \<Rightarrow> go_context \<Rightarrow> JobReservation \<Rightarrow> instant \<Rightarrow> string \<Rightarrow> 's \<Rightarrow> 's \<times> (job_error + unit)"
  js_Complete :: "'env \<Rightarrow> go_context \<Rightarrow> JobReservation \<Rightarrow> 's \<Rightarrow> 's \<times> (job_error + unit)"
  js_Fail :: "'env \<Rightarrow> go_context \<Rightarrow> JobReservation \<Rightarrow> string \<Rightarrow> 's \<Rightarrow> 's \<times> (job_error + unit)"

text \<open>
  \<open>persistJob\<close>: \<open>random\<close> gives the identifier's bytes, \<open>clock\<close> the value of
  \<open>time.Now\<close>.
\<close>

definition persistJob ::
  "('env, 's) JobStore \<Rightarrow> 'env \<Rightarrow> go_context \<Rightarrow> 'v queuedJob \<Rightarrow> instant \<Rightarrow> string option \<Rightarrow> instant
    \<Rightarrow> 's \<Rightarrow> 's \<times> (queue_error + unit)" where
  [op_defs]: "persistJob st env ctx j availableAt random clock s =
     (case h_encode (qj_handler j) (qj_value j) of
        None \<Rightarrow> (s, Inl (ErrJobDispatchFailed ErrJobPayloadEncodingFailed))
      | Some payload \<Rightarrow>
          (case newJobIdentifier random of
             Inl e \<Rightarrow> (s, Inl (ErrJobDispatchFailed (ErrStore e)))
           | Inr i \<Rightarrow>
               (case js_Enqueue st env ctx
                  \<lparr>ID = i, Handler = h_name (qj_handler j), Payload = payload,
                   AvailableAt = (if availableAt < clock then clock else availableAt),
                   EnqueuedAt = clock, Attempts = 0\<rparr> s of
                  (s', Inl e) \<Rightarrow> (s', Inl (ErrJobDispatchFailed (ErrStore e)))
                | (s', Inr _) \<Rightarrow> (s', Inr ()))))"

text \<open>
  The failure texts are written by \<open>fmt.Errorf\<close>; \<open>render\<close> stands for
  \<open>error.Error\<close>.
\<close>

definition store_failure ::
  "JobReservation \<Rightarrow> 'v jobHandlerEntry option \<Rightarrow> queue_error \<Rightarrow> JobFailure" where
  "store_failure v h e =
     \<lparr>f_JobID = ID (Job v), f_Handler = Handler (Job v),
      f_JobType = (case h of None \<Rightarrow> [] | Some h' \<Rightarrow> h_jobType h'), f_Attempts = Attempts (Job v),
      f_MaxAttempts = (case h of None \<Rightarrow> 0 | Some h' \<Rightarrow> MaxAttempts (h_options h')), f_Err = e\<rparr>"

definition reportPersistentStoreFailure ::
  "JobReservation \<Rightarrow> 'v jobHandlerEntry option \<Rightarrow> string \<Rightarrow> queue_error \<Rightarrow> JobFailure" where
  "reportPersistentStoreFailure v h operation e = store_failure v h (ErrStoreOperation operation e)"

definition failPersistentReservation ::
  "('env, 's) JobStore \<Rightarrow> 'env \<Rightarrow> (queue_error \<Rightarrow> string) \<Rightarrow> JobReservation \<Rightarrow> 'v jobHandlerEntry option
    \<Rightarrow> queue_error \<Rightarrow> 's \<Rightarrow> 's \<times> JobFailure list" where
  [op_defs]: "failPersistentReservation st env render v h failure s =
     (case js_Fail st env LiveContext v (render failure) s of
        (s', Inl e) \<Rightarrow> (s', [reportPersistentStoreFailure v h ''fail'' (ErrJoin failure (ErrStore e))])
      | (s', Inr _) \<Rightarrow> (s', [store_failure v h failure]))"

text \<open>
  The outcome of a reserved job: the store afterwards, whether the handler did, and the failures
  reported. \<open>call\<close> identifies the call of the handler, \<open>clock\<close> is \<open>time.Now\<close> after it.
\<close>

definition executePersistent ::
  "('env, 's) JobStore \<Rightarrow> 'env \<Rightarrow> (queue_error \<Rightarrow> string) \<Rightarrow> (string, 'v jobHandlerEntry) gomap
    \<Rightarrow> JobReservation \<Rightarrow> int \<Rightarrow> instant \<Rightarrow> 's \<Rightarrow> 's \<times> bool \<times> JobFailure list" where
  [op_defs]: "executePersistent st env render handlersByName v call clock s =
     (case map_of handlersByName (Handler (Job v)) of
        None \<Rightarrow>
          (case failPersistentReservation st env render v (None :: 'v jobHandlerEntry option)
                  (ErrJobExecutionFailed ErrJobHandlerNotFound) s of
             (s', fs) \<Rightarrow> (s', False, fs))
      | Some h \<Rightarrow>
          if Attempts (Job v) > MaxAttempts (h_options h) then
            (case failPersistentReservation st env render v (Some h) (ErrJobRetriesExhausted ErrAttemptsExceeded) s of
               (s', fs) \<Rightarrow> (s', False, fs))
          else case h_decode h (Payload (Job v)) of
            None \<Rightarrow>
              (case failPersistentReservation st env render v (Some h) ErrJobPayloadDecodingFailed s of
                 (s', fs) \<Rightarrow> (s', False, fs))
          | Some x \<Rightarrow>
              (case executeAttempt \<lparr>qj_jobType = h_jobType h, qj_value = x, qj_handler = h\<rparr> call of
                 None \<Rightarrow>
                   (case js_Complete st env LiveContext v s of
                      (s', Inl e) \<Rightarrow> (s', True, [reportPersistentStoreFailure v (Some h) ''complete'' (ErrStore e)])
                    | (s', Inr _) \<Rightarrow> (s', True, []))
               | Some err \<Rightarrow>
                   if Attempts (Job v) < MaxAttempts (h_options h) then
                     (case js_Release st env LiveContext v (clock + RetryBackoff (h_options h)) (render err) s of
                        (s', Inl e) \<Rightarrow> (s', True, [reportPersistentStoreFailure v (Some h) ''release'' (ErrStore e)])
                      | (s', Inr _) \<Rightarrow> (s', True, []))
                   else
                     (case failPersistentReservation st env render v (Some h) (exhausted (h_options h) err) s of
                        (s', fs) \<Rightarrow> (s', True, fs))))"

text \<open>One turn of \<open>workPersistent\<close>: reserve, then execute or report and wait.\<close>

definition workPersistent_turn ::
  "('env, 's) JobStore \<Rightarrow> 'env \<Rightarrow> (queue_error \<Rightarrow> string) \<Rightarrow> 'v JobQueue \<Rightarrow> go_context \<Rightarrow> instant \<Rightarrow> int \<Rightarrow> instant
    \<Rightarrow> 's \<Rightarrow> 's \<times> JobReservation option \<times> bool \<times> JobFailure list" where
  [op_defs]: "workPersistent_turn st env render q ctx now call clock s =
     (case js_Reserve st env ctx now (LeaseDuration (q_options q)) s of
        (s', Inr v) \<Rightarrow>
          (case executePersistent st env render (q_handlersByName q) v call clock s' of
             (s'', did, fs) \<Rightarrow> (s'', Some v, did, fs))
      | (s', Inl e) \<Rightarrow>
          (s', None, False,
           if e = ErrJobStoreEmpty \<or> e = ErrContext Canceled then []
           else [\<lparr>f_JobID = [], f_Handler = [], f_JobType = [], f_Attempts = 0, f_MaxAttempts = 0,
                  f_Err = ErrStoreOperation ''reserve'' (ErrStore e)\<rparr>]))"

section \<open>Properties of the in-memory retry loop and of the options\<close>

definition attempts_until_success :: "'v queuedJob \<Rightarrow> int \<Rightarrow> int list" where
  "attempts_until_success j a =
     (let all = [a..MaxAttempts (h_options (qj_handler j))]
      in take (Suc (length (takeWhile (\<lambda>k. executeAttempt j k \<noteq> None) all))) all)"

definition backoffs :: "'v queuedJob \<Rightarrow> nat \<Rightarrow> duration list" where
  "backoffs j n =
     (if 0 < RetryBackoff (h_options (qj_handler j)) then replicate (n - 1) (RetryBackoff (h_options (qj_handler j))) else [])"

lemma backoffs_Suc: "0 < n \<Longrightarrow> backoffs j (Suc n) =
    (if 0 < RetryBackoff (h_options (qj_handler j)) then [RetryBackoff (h_options (qj_handler j))] else []) @ backoffs j n"
  by (cases n) (auto simp: backoffs_def)

lemma attempts_until_success_rec:
  "attempts_until_success j a =
     (if a \<le> MaxAttempts (h_options (qj_handler j)) then
        a # (if executeAttempt j a = None then [] else attempts_until_success j (a + 1))
      else [])"
  by (auto simp: attempts_until_success_def upto_rec1 Let_def)

lemma execute_from_spec:
  "execute_from j a l =
     (attempts_until_success j a, backoffs j (length (attempts_until_success j a)),
      if a \<le> MaxAttempts (h_options (qj_handler j)) then
        (if \<forall>k \<in> {a..MaxAttempts (h_options (qj_handler j))}. executeAttempt j k \<noteq> None
         then executeAttempt j (MaxAttempts (h_options (qj_handler j))) else None)
      else l)"
proof (induction j a l rule: execute_from.induct)
  case (1 j a l)
  let ?m = "MaxAttempts (h_options (qj_handler j))"
  show ?case
  proof (cases "a \<le> ?m")
    case True
    have set: "{a..?m} = insert a {a + 1..?m}" using True by auto
    show ?thesis
    proof (cases "executeAttempt j a")
      case (Some e)
      have last: "\<not> a < ?m \<Longrightarrow> a = ?m" using True by simp
      have none: "attempts_until_success j (a + 1) = [] \<longleftrightarrow> \<not> a < ?m"
        by (subst attempts_until_success_rec) simp
      have "backoffs j (Suc 0) = []" "backoffs j 0 = []" by (simp_all add: backoffs_def)
      then show ?thesis
        using True Some 1 [OF refl True Some] last none set
        by (subst execute_from.simps, subst (1 2) attempts_until_success_rec)
          (auto simp: backoffs_Suc Let_def)
    qed (use True set in \<open>simp add: execute_from.simps attempts_until_success_rec backoffs_def\<close>)
  qed (simp add: execute_from.simps attempts_until_success_rec backoffs_def)
qed

text \<open>
  C10. The retry loop of an in-memory job makes the attempts \<open>1, 2, \<dots>\<close> up to the first that
  succeeds and never more than \<open>MaxAttempts\<close>, waits the backoff between two attempts, and
  reports a failure exactly when every attempt failed; the failure carries the last attempt's error,
  marked as exhausted retries when more than one attempt was allowed.
\<close>

theorem execute_makes_attempts:
  assumes "normalizeJobHandlerOptions os = Inr (h_options (qj_handler j))"
  shows "execute j =
    (attempts_until_success j 1, backoffs j (length (attempts_until_success j 1)),
     if \<forall>k \<in> {1..MaxAttempts (h_options (qj_handler j))}. executeAttempt j k \<noteq> None
     then Some \<lparr>f_JobID = [], f_Handler = h_name (qj_handler j), f_JobType = qj_jobType j,
                f_Attempts = MaxAttempts (h_options (qj_handler j)),
                f_MaxAttempts = MaxAttempts (h_options (qj_handler j)),
                f_Err = exhausted (h_options (qj_handler j))
                  (the (executeAttempt j (MaxAttempts (h_options (qj_handler j)))))\<rparr>
     else None)"
proof -
  have m: "1 \<le> MaxAttempts (h_options (qj_handler j))"
    using assms by (auto simp: normalizeJobHandlerOptions_def split: if_splits dest!: sym [where t = "h_options (qj_handler j)"])
  then have "MaxAttempts (h_options (qj_handler j)) \<in> {1..MaxAttempts (h_options (qj_handler j))}" by simp
  with m show ?thesis by (auto simp: execute_def execute_from_spec Let_def split: option.splits)
qed

definition flaky_job :: "string queuedJob" where
  "flaky_job =
     \<lparr>qj_jobType = ''T'', qj_value = ''x'',
      qj_handler = \<lparr>h_jobType = ''T'', h_name = ''h'', h_options = \<lparr>MaxAttempts = 3, RetryBackoff = 5\<rparr>,
        h_handle = \<lambda>n _. if n = 1 then HandlerPanics ''p'' else HandlerOk, h_encode = Some, h_decode = Some\<rparr>\<rparr>"

theorem execute_makes_attempts_witness: "execute flaky_job = ([1, 2], [5], None)"
proof -
  have n: "normalizeJobHandlerOptions \<lparr>MaxAttempts = 3, RetryBackoff = 5\<rparr> = Inr (h_options (qj_handler flaky_job))"
    by (simp add: normalizeJobHandlerOptions_def flaky_job_def)
  have a: "attempts_until_success flaky_job 1 = [1, 2]"
    by (simp add: attempts_until_success_rec flaky_job_def executeAttempt_def)
  have e: "executeAttempt flaky_job 2 = None" "MaxAttempts (h_options (qj_handler flaky_job)) = 3"
    "RetryBackoff (h_options (qj_handler flaky_job)) = 5"
    by (simp_all add: flaky_job_def executeAttempt_def)
  have "\<not> (\<forall>k \<in> {1..3}. executeAttempt flaky_job k \<noteq> None)" using e(1) by force
  then show ?thesis
    using execute_makes_attempts [OF n] by (simp add: a e backoffs_def)
qed

text \<open>
  The options of a queue are refused exactly when a field is negative or, with a store, when the
  lease would not outlast a job's timeout once defaults are filled in; accepted options have at least
  one worker and one place, with a store a lease longer than the positive timeout and a positive
  polling interval, and are left alone by a second normalisation.
\<close>

theorem normalizeJobQueueOptions_spec:
  "case normalizeJobQueueOptions o1 of
     Inl e \<Rightarrow> e = ErrInvalidJobQueueOptions \<and>
       (Capacity o1 < 0 \<or> Workers o1 < 0 \<or> JobTimeout o1 < 0 \<or> PollInterval o1 < 0 \<or> LeaseDuration o1 < 0 \<or>
        (HasStore o1 \<and> (if LeaseDuration o1 = 0 then seconds 60 else LeaseDuration o1)
           \<le> (if JobTimeout o1 = 0 then seconds 30 else JobTimeout o1)))
   | Inr o2 \<Rightarrow>
       1 \<le> Capacity o2 \<and> 1 \<le> Workers o2 \<and> 0 \<le> JobTimeout o2 \<and> HasStore o2 = HasStore o1 \<and>
       (if HasStore o2 then 0 < PollInterval o2 \<and> 0 < JobTimeout o2 \<and> JobTimeout o2 < LeaseDuration o2 else True) \<and>
       normalizeJobQueueOptions o2 = Inr o2"
  by (auto simp: normalizeJobQueueOptions_def Let_def DefaultJobQueueOptions_def defaultJobQueueCapacity_def
      defaultJobQueueWorkers_def defaultJobPollInterval_def defaultJobLeaseDuration_def milliseconds_def seconds_def
      split: sum.splits if_splits)

end
