(* ===== verification/JobStoreContract.thy ===== *)
theory JobStoreContract
  imports JobQueue
begin

text \<open>
  The contract between the queue and a durable store (\<open>src/backend/framework/job_store.go\<close>), and what the workers of \<open>jobs_persistent.go\<close>
  guarantee on any store that keeps it.
\<close>

section \<open>The contract of a job store\<close>

record job_view =
  jv_job :: StoredJob
  jv_token :: string
  jv_until :: instant
  jv_failed :: bool

text \<open>
  The decision the queue takes on a reserved job, as a specification: nothing is done but to remove
  the job, to try again later, or to keep it as failed.
\<close>

datatype verdict = Finished | TryAgain instant | Buried queue_error

definition decide ::
  "(string, 'v jobHandlerEntry) gomap \<Rightarrow> JobReservation \<Rightarrow> int \<Rightarrow> instant \<Rightarrow> verdict" where
  "decide hs v call clock =
     (case map_of hs (Handler (Job v)) of
        None \<Rightarrow> Buried (ErrJobExecutionFailed ErrJobHandlerNotFound)
      | Some h \<Rightarrow>
          if MaxAttempts (h_options h) < Attempts (Job v) then Buried (ErrJobRetriesExhausted ErrAttemptsExceeded)
          else case h_decode h (Payload (Job v)) of
            None \<Rightarrow> Buried ErrJobPayloadDecodingFailed
          | Some x \<Rightarrow>
              (case executeAttempt \<lparr>qj_jobType = h_jobType h, qj_value = x, qj_handler = h\<rparr> call of
                 None \<Rightarrow> Finished
               | Some e \<Rightarrow>
                   if Attempts (Job v) < MaxAttempts (h_options h)
                   then TryAgain (clock + RetryBackoff (h_options h))
                   else Buried (exhausted (h_options h) e)))"

definition carried_out :: "(instant \<Rightarrow> instant) \<Rightarrow> verdict \<Rightarrow> job_view \<Rightarrow> job_view option" where
  "carried_out kept d j =
     (case d of
        Finished \<Rightarrow> None
      | TryAgain t \<Rightarrow> Some (j\<lparr>jv_job := (jv_job j)\<lparr>AvailableAt := kept t\<rparr>, jv_token := [], jv_until := 0\<rparr>)
      | Buried e \<Rightarrow> Some (j\<lparr>jv_token := [], jv_until := 0, jv_failed := True\<rparr>))"


text \<open>Each decision is one call of the store.\<close>

lemma executePersistent_branch:
  assumes "executePersistent st env render hs v call clock s = (s', did, fs)"
  shows "case decide hs v call clock of
      Finished \<Rightarrow> did \<and> (\<exists>r. js_Complete st env LiveContext v s = (s', r))
    | TryAgain t \<Rightarrow> did \<and> (\<exists>er r. js_Release st env LiveContext v t er s = (s', r))
    | Buried e \<Rightarrow> failPersistentReservation st env render v (map_of hs (Handler (Job v))) e s = (s', fs)"
proof (cases "map_of hs (Handler (Job v))")
  case (Some h)
  show ?thesis
  proof (cases "h_decode h (Payload (Job v))")
    case (Some x)
    with \<open>map_of _ _ = Some h\<close> assms show ?thesis
      by (cases "executeAttempt \<lparr>qj_jobType = h_jobType h, qj_value = x, qj_handler = h\<rparr> call")
        (auto simp: executePersistent_def decide_def split: if_splits prod.splits sum.splits)
  qed (use Some assms in \<open>auto simp: executePersistent_def decide_def split: if_splits prod.splits\<close>)
qed (use assms in \<open>auto simp: executePersistent_def decide_def split: prod.splits\<close>)

text \<open>
  What a store promises its queue, over a view of its jobs by identifier; \<open>kept\<close> is what the store keeps of a time. A reservation is of a
  job that is there, due and free, counts one more attempt and files the job under the new token; on the way the store may free
  jobs whose leases have ended. Ending a reservation under its token removes, frees or fails the job. A call that
  reports an error may have taken effect, as when the reply of a server is lost.
\<close>

definition leases_recovered :: "instant \<Rightarrow> (string \<Rightarrow> job_view option) \<Rightarrow> (string \<Rightarrow> job_view option) \<Rightarrow> bool" where
  "leases_recovered now m m' =
     (\<forall>i. m' i = m i \<or> (\<exists>j. m i = Some j \<and> jv_until j \<le> now \<and> m' i = Some (j\<lparr>jv_token := [], jv_until := 0\<rparr>)))"

definition reserved_in ::
  "(instant \<Rightarrow> instant) \<Rightarrow> instant \<Rightarrow> (string \<Rightarrow> job_view option) \<Rightarrow> JobReservation \<Rightarrow> (string \<Rightarrow> job_view option) \<Rightarrow> bool" where
  "reserved_in kept now m v m' =
     (\<exists>j. m (ID (Job v)) = Some j \<and> \<not> jv_failed j \<and> AvailableAt (jv_job j) \<le> now \<and> (jv_token j = [] \<or> jv_until j \<le> now) \<and>
        Job v = (jv_job j)\<lparr>Attempts := wrap64 (Attempts (jv_job j) + 1)\<rparr> \<and>
        m' = m(ID (Job v) \<mapsto> \<lparr>jv_job = Job v, jv_token = Token v, jv_until = kept (ReservedUntil v), jv_failed = False\<rparr>))"

definition ended_in ::
  "(job_view \<Rightarrow> job_view option) \<Rightarrow> (string \<Rightarrow> job_view option) \<Rightarrow> JobReservation \<Rightarrow> (string \<Rightarrow> job_view option) \<Rightarrow> bool" where
  "ended_in f m v m' = (\<exists>j. m (ID (Job v)) = Some j \<and> jv_token j = Token v \<and> m' = m(ID (Job v) := f j))"

locale job_store =
  fixes st :: "('env, 's) JobStore"
    and env_ok :: "'env \<Rightarrow> bool"
    and view :: "'s \<Rightarrow> string \<Rightarrow> job_view option"
    and invar :: "'s \<Rightarrow> bool"
    and kept :: "instant \<Rightarrow> instant"
  assumes reserve_ok: "invar s \<Longrightarrow> js_Reserve st env ctx now lease s = (s', Inr v) \<Longrightarrow>
      invar s' \<and> (\<exists>m. leases_recovered now (view s) m \<and> reserved_in kept now m v (view s'))"
    and reserve_error: "invar s \<Longrightarrow> js_Reserve st env ctx now lease s = (s', Inl e) \<Longrightarrow>
      invar s' \<and> (\<exists>m. leases_recovered now (view s) m \<and> (view s' = m \<or> (\<exists>v. reserved_in kept now m v (view s'))))"
    and complete_ok: "invar s \<Longrightarrow> js_Complete st env ctx v s = (s', Inr u) \<Longrightarrow>
      invar s' \<and> ended_in (carried_out kept Finished) (view s) v (view s')"
    and complete_error: "invar s \<Longrightarrow> js_Complete st env ctx v s = (s', Inl e) \<Longrightarrow>
      invar s' \<and> (view s' = view s \<or> ended_in (carried_out kept Finished) (view s) v (view s'))"
    and release_ok: "invar s \<Longrightarrow> js_Release st env ctx v t er s = (s', Inr u) \<Longrightarrow>
      invar s' \<and> ended_in (carried_out kept (TryAgain t)) (view s) v (view s')"
    and release_error: "invar s \<Longrightarrow> js_Release st env ctx v t er s = (s', Inl e) \<Longrightarrow>
      invar s' \<and> (view s' = view s \<or> ended_in (carried_out kept (TryAgain t)) (view s) v (view s'))"
    and fail_ok: "env_ok env \<Longrightarrow> invar s \<Longrightarrow> js_Fail st env ctx v er s = (s', Inr u) \<Longrightarrow>
      invar s' \<and> ended_in (carried_out kept (Buried qe)) (view s) v (view s')"
    and fail_error: "env_ok env \<Longrightarrow> invar s \<Longrightarrow> js_Fail st env ctx v er s = (s', Inl e) \<Longrightarrow>
      invar s' \<and> (view s' = view s \<or> ended_in (carried_out kept (Buried qe)) (view s) v (view s'))"
begin

text \<open>What ending a reservation may change: its own job, and not that job's attempts.\<close>

definition settled :: "JobReservation \<Rightarrow> 's \<Rightarrow> 's \<Rightarrow> bool" where
  "settled v s s' =
     (invar s' \<and> (\<forall>i. i \<noteq> ID (Job v) \<longrightarrow> view s' i = view s i) \<and>
      (\<forall>j'. view s' (ID (Job v)) = Some j' \<longrightarrow>
        (\<exists>j. view s (ID (Job v)) = Some j \<and> Attempts (jv_job j') = Attempts (jv_job j) \<and>
          Handler (jv_job j') = Handler (jv_job j))))"

lemma settled_same: "invar s' \<Longrightarrow> view s' = view s \<Longrightarrow> settled v s s'"
  by (simp add: settled_def)

lemma settled_ended: "invar s' \<Longrightarrow> ended_in (carried_out kept d) (view s) v (view s') \<Longrightarrow> settled v s s'"
  by (cases d) (auto simp: settled_def ended_in_def carried_out_def)

lemma complete_effect:
  assumes "invar s" "js_Complete st env ctx v s = (s', r)"
  shows "invar s' \<and> (view s' = view s \<or> ended_in (carried_out kept Finished) (view s) v (view s'))"
  using assms complete_ok [OF assms(1)] complete_error [OF assms(1)] by (cases r) blast+

lemma release_effect:
  assumes "invar s" "js_Release st env ctx v t er s = (s', r)"
  shows "invar s' \<and> (view s' = view s \<or> ended_in (carried_out kept (TryAgain t)) (view s) v (view s'))"
  using assms release_ok [OF assms(1)] release_error [OF assms(1)] by (cases r) blast+

lemma fail_effect:
  assumes "invar s" "env_ok env" "js_Fail st env ctx v er s = (s', r)"
  shows "invar s' \<and> (view s' = view s \<or> ended_in (carried_out kept (Buried qe)) (view s) v (view s'))"
  using assms fail_ok [OF assms(2,1)] fail_error [OF assms(2,1)] by (cases r) blast+

lemma complete_settled: "invar s \<Longrightarrow> js_Complete st env ctx v s = (s', r) \<Longrightarrow> settled v s s'"
  using complete_effect settled_same settled_ended by metis

lemma release_settled: "invar s \<Longrightarrow> js_Release st env ctx v t er s = (s', r) \<Longrightarrow> settled v s s'"
  using release_effect settled_same settled_ended by metis

lemma fail_settled: "invar s \<Longrightarrow> env_ok env \<Longrightarrow> js_Fail st env ctx v er s = (s', r) \<Longrightarrow> settled v s s'"
  using fail_effect settled_same settled_ended by metis

lemma failPersistent_settled:
  "invar s \<Longrightarrow> env_ok env \<Longrightarrow> failPersistentReservation st env render v h failure s = (s', fs) \<Longrightarrow> settled v s s'"
  by (auto simp: failPersistentReservation_def split: prod.splits sum.splits dest: fail_settled)

lemma executePersistent_settled:
  assumes "invar s" "env_ok env" "executePersistent st env render hs v call clock s = (s', did, fs)"
  shows "settled v s s'"
  using assms(3) complete_settled [OF assms(1)] release_settled [OF assms(1)]
    failPersistent_settled [OF assms(1,2)]
  by (auto simp: executePersistent_def split: option.splits if_splits prod.splits sum.splits)

lemmas executePersistent_view = executePersistent_settled [unfolded settled_def]

lemma failPersistent_carried:
  assumes "invar s" "env_ok env" "view s (ID (Job v)) = Some j"
    "is_ok (ret (js_Fail st env LiveContext v (render e) s))"
    "failPersistentReservation st env render v h e s = (s', fs)"
  shows "view s' = (view s)(ID (Job v) := carried_out kept (Buried e) j) \<and> fs = [store_failure v h e]"
proof -
  obtain s1 u where s1: "js_Fail st env LiveContext v (render e) s = (s1, Inr u)"
    using ok_outcome [OF assms(4)] by metis
  with assms(5) have "s' = s1" "fs = [store_failure v h e]" by (simp_all add: failPersistentReservation_def)
  moreover have "view s1 = (view s)(ID (Job v) := carried_out kept (Buried e) j)"
    using fail_ok [OF assms(2,1) s1] assms(3) by (auto simp: ended_in_def)
  ultimately show ?thesis by simp
qed

lemma complete_carried:
  assumes "invar s" "is_ok (ret (js_Complete st env LiveContext v s))" "view s (ID (Job v)) = Some j"
  obtains s' where "js_Complete st env LiveContext v s = (s', Inr ())"
    "view s' = (view s)(ID (Job v) := carried_out kept Finished j)"
proof -
  obtain s1 where s1: "js_Complete st env LiveContext v s = (s1, Inr ())"
    using ok_outcome [OF assms(2)] by (metis old.unit.exhaust)
  with complete_ok [OF assms(1) s1] assms(3) that show ?thesis by (auto simp: ended_in_def)
qed

lemma release_carried:
  assumes "invar s" "is_ok (ret (js_Release st env LiveContext v t er s))" "view s (ID (Job v)) = Some j"
  obtains s' where "js_Release st env LiveContext v t er s = (s', Inr ())"
    "view s' = (view s)(ID (Job v) := carried_out kept (TryAgain t) j)"
proof -
  obtain s1 where s1: "js_Release st env LiveContext v t er s = (s1, Inr ())"
    using ok_outcome [OF assms(2)] by (metis old.unit.exhaust)
  with release_ok [OF assms(1) s1] assms(3) that show ?thesis by (auto simp: ended_in_def)
qed

text \<open>The code carries out the specified decision, and reports exactly the jobs it buries.\<close>

lemma executePersistent_decides:
  assumes "invar s" "env_ok env" "view s (ID (Job v)) = Some j"
    "\<And>er. is_ok (ret (js_Fail st env LiveContext v er s))"
    "is_ok (ret (js_Complete st env LiveContext v s))"
    "\<And>t er. decide hs v call clock = TryAgain t \<Longrightarrow> is_ok (ret (js_Release st env LiveContext v t er s))"
    "executePersistent st env render hs v call clock s = (s', did, fs)"
  shows "view s' = (view s)(ID (Job v) := carried_out kept (decide hs v call clock) j) \<and>
    fs = (case decide hs v call clock of
            Buried e \<Rightarrow> [store_failure v (map_of hs (Handler (Job v))) e] | _ \<Rightarrow> [])"
proof -
  note fp = failPersistent_carried [OF assms(1-3) assms(4)]
  obtain s1 where c: "js_Complete st env LiveContext v s = (s1, Inr ())"
    "view s1 = (view s)(ID (Job v) := carried_out kept Finished j)"
    by (rule complete_carried [OF assms(1,5,3)])
  note r = release_carried [OF assms(1) assms(6) assms(3)]
  show ?thesis
  proof (cases "decide hs v call clock")
    case Finished
    with assms(7) c show ?thesis
      by (auto simp: executePersistent_def decide_def split: option.splits if_splits prod.splits)
  next
    case (TryAgain t)
    then obtain h x e where h: "map_of hs (Handler (Job v)) = Some h" "\<not> MaxAttempts (h_options h) < Attempts (Job v)"
      "h_decode h (Payload (Job v)) = Some x" "Attempts (Job v) < MaxAttempts (h_options h)"
      "executeAttempt \<lparr>qj_jobType = h_jobType h, qj_value = x, qj_handler = h\<rparr> call = Some e"
      "t = clock + RetryBackoff (h_options h)"
      by (auto simp: decide_def split: option.splits if_splits)
    obtain s2 where "js_Release st env LiveContext v t (render e) s = (s2, Inr ())"
      "view s2 = (view s)(ID (Job v) := carried_out kept (TryAgain t) j)"
      by (rule r [OF TryAgain])
    with assms(7) h TryAgain show ?thesis by (auto simp: executePersistent_def)
  next
    case (Buried e)
    with executePersistent_branch [OF assms(7)]
    have "failPersistentReservation st env render v (map_of hs (Handler (Job v))) e s = (s', fs)" by simp
    from fp [OF this] Buried show ?thesis by simp
  qed
qed

text \<open>A job leaves the store only after its handler succeeded.\<close>

lemma executePersistent_removes:
  assumes "invar s" "env_ok env" "view s i = Some j" "view s' i = None"
    "executePersistent st env render hs v call clock s = (s', did, fs)"
  shows "i = ID (Job v) \<and> did \<and> decide hs v call clock = Finished"
proof -
  have i: "i = ID (Job v)"
    using executePersistent_settled [OF assms(1,2,5)] assms(3,4) by (force simp: settled_def)
  show ?thesis
  proof (cases "decide hs v call clock")
    case Finished
    with executePersistent_branch [OF assms(5)] i show ?thesis by simp
  next
    case (TryAgain t)
    with executePersistent_branch [OF assms(5)] obtain er r
      where "js_Release st env LiveContext v t er s = (s', r)" by auto
    with release_effect [OF assms(1)] assms(3,4) i show ?thesis by (fastforce simp: ended_in_def carried_out_def)
  next
    case (Buried e)
    with executePersistent_branch [OF assms(5)]
    have "failPersistentReservation st env render v (map_of hs (Handler (Job v))) e s = (s', fs)" by simp
    then obtain er r where "js_Fail st env LiveContext v er s = (s', r)"
      by (auto simp: failPersistentReservation_def split: prod.splits sum.splits)
    with fail_effect [OF assms(1,2)] assms(3,4) i show ?thesis by (fastforce simp: ended_in_def carried_out_def)
  qed
qed

lemma executePersistent_ran:
  "executePersistent st env render hs v call clock s = (s', True, fs) \<Longrightarrow>
     \<exists>h. map_of hs (Handler (Job v)) = Some h \<and> Attempts (Job v) \<le> MaxAttempts (h_options h)"
  by (auto simp: executePersistent_def split: option.splits if_splits prod.splits)

end

text \<open>
  A run of the worker loop: each turn with what the environment decides, the context, the clock when
  it reserves and the clock after the attempt. The result lists the identifiers whose handler did.
\<close>

fun worker_run ::
  "('env, 's) JobStore \<Rightarrow> (queue_error \<Rightarrow> string) \<Rightarrow> 'v JobQueue \<Rightarrow> ('env \<times> go_context \<times> instant \<times> int \<times> instant) list
    \<Rightarrow> 's \<Rightarrow> 's \<times> string list" where
  "worker_run st render q [] s = (s, [])"
| "worker_run st render q ((env, ctx, now, call, clock) # ts) s =
     (case workPersistent_turn st env render q ctx now call clock s of
        (s', v, did, fs) \<Rightarrow>
          (case worker_run st render q ts s' of
             (s'', is) \<Rightarrow>
               (s'', (case v of Some r \<Rightarrow> if did then [ID (Job r)] else [] | None \<Rightarrow> []) @ is)))"

lemma worker_run_count:
  assumes "workPersistent_turn st env render q ctx now call clock s = (s', v, did, fs)"
  shows "count_list (snd (worker_run st render q ((env, ctx, now, call, clock) # ts) s)) i =
    (if v \<noteq> None \<and> ID (Job (the v)) = i \<and> did then 1 else 0)
      + count_list (snd (worker_run st render q ts s')) i"
  using assms by (auto split: prod.splits option.splits)

context job_store begin

text \<open>
  What reserving does to one job: nothing, or its lease is recovered, or its attempts grow by one; which of these, for the job that is handed out.
\<close>

lemma reserve_view:
  assumes "invar s" "js_Reserve st env ctx now lease s = (s', r)"
  shows "invar s' \<and> (view s i = None \<longrightarrow> view s' i = None \<and> (\<forall>v. r = Inr v \<longrightarrow> ID (Job v) \<noteq> i)) \<and>
    (\<forall>j. view s i = Some j \<longrightarrow> (\<exists>j'. view s' i = Some j' \<and> Handler (jv_job j') = Handler (jv_job j) \<and>
       Attempts (jv_job j') \<in> {Attempts (jv_job j), wrap64 (Attempts (jv_job j) + 1)} \<and>
       (\<forall>v. r = Inr v \<and> ID (Job v) = i \<longrightarrow> Job v = jv_job j' \<and> Attempts (jv_job j') = wrap64 (Attempts (jv_job j) + 1))))"
proof -
  have "\<exists>m. invar s' \<and> leases_recovered now (view s) m \<and>
      (\<exists>v. reserved_in kept now m v (view s') \<and> (\<forall>w. r = Inr w \<longrightarrow> w = v) \<or> view s' = m \<and> (\<forall>w. r \<noteq> Inr w))"
  proof (cases r)
    case (Inl e)
    with reserve_error [OF assms(1)] assms(2) show ?thesis by (metis Inl_Inr_False)
  next
    case (Inr v)
    with reserve_ok [OF assms(1)] assms(2) show ?thesis by (metis sum.inject(2))
  qed
  then obtain m where m: "invar s'" "leases_recovered now (view s) m"
    "(\<exists>v. reserved_in kept now m v (view s') \<and> (\<forall>w. r = Inr w \<longrightarrow> w = v)) \<or> view s' = m \<and> (\<forall>w. r \<noteq> Inr w)" by blast
  have freed: "m i = view s i \<or> (\<exists>j. view s i = Some j \<and> m i = Some (j\<lparr>jv_token := [], jv_until := 0\<rparr>))"
    using m(2) by (auto simp: leases_recovered_def)
  from m(3) show ?thesis
  proof (elim disjE exE conjE)
    fix v assume v: "reserved_in kept now m v (view s')" "\<forall>w. r = Inr w \<longrightarrow> w = v"
    from v(1) obtain j where j: "m (ID (Job v)) = Some j" "Job v = (jv_job j)\<lparr>Attempts := wrap64 (Attempts (jv_job j) + 1)\<rparr>"
      "view s' = m(ID (Job v) \<mapsto> \<lparr>jv_job = Job v, jv_token = Token v, jv_until = kept (ReservedUntil v), jv_failed = False\<rparr>)"
      by (auto simp: reserved_in_def)
    show ?thesis
    proof (cases "ID (Job v) = i")
      case True
      have at: "view s' i = Some \<lparr>jv_job = Job v, jv_token = Token v, jv_until = kept (ReservedUntil v), jv_failed = False\<rparr>"
        unfolding j(3) using True by simp
      have "Attempts (Job v) = wrap64 (Attempts (jv_job j) + 1)" "Handler (Job v) = Handler (jv_job j)" by (subst j(2), simp)+
      moreover have "\<exists>j0. view s i = Some j0 \<and> Attempts (jv_job j) = Attempts (jv_job j0) \<and> Handler (jv_job j) = Handler (jv_job j0)"
        using freed
      proof (elim disjE exE conjE)
        assume "m i = view s i"
        with j(1) True show ?thesis by (intro exI [of _ j]) simp
      next
        fix j0 assume "view s i = Some j0" "m i = Some (j0\<lparr>jv_token := [], jv_until := 0\<rparr>)"
        with j(1) True show ?thesis by (intro exI [of _ j0]) auto
      qed
      ultimately show ?thesis using m(1) v(2) by (elim exE conjE) (auto simp: at)
    next
      case False
      then have "view s' i = m i" unfolding j(3) by simp
      then show ?thesis using freed False m(1) v(2) by auto
    qed
  next
    assume "view s' = m" "\<forall>w. r \<noteq> Inr w"
    then show ?thesis using freed m(1) by auto
  qed
qed

lemma turn_view:
  assumes ok: "env_ok env" and pre: "invar s" "workPersistent_turn st env render q ctx now call clock s = (s', v, did, fs)"
      "view s i = Some j" "0 \<le> Attempts (jv_job j)" "Attempts (jv_job j) < 2 ^ 63 - 1"
  shows "invar s' \<and> (\<forall>j'. view s' i = Some j' \<longrightarrow> Handler (jv_job j') = Handler (jv_job j) \<and>
      Attempts (jv_job j') \<in> {Attempts (jv_job j), Attempts (jv_job j) + 1} \<and>
      (v \<noteq> None \<and> ID (Job (the v)) = i \<longrightarrow> Attempts (jv_job j') = Attempts (jv_job j) + 1)) \<and>
    (v \<noteq> None \<and> ID (Job (the v)) = i \<and> did \<longrightarrow> (\<exists>h. map_of (q_handlersByName q) (Handler (jv_job j)) = Some h \<and>
       Attempts (jv_job j) + 1 \<le> MaxAttempts (h_options h)))"
proof -
  obtain s1 r where r: "js_Reserve st env ctx now (LeaseDuration (q_options q)) s = (s1, r)" by force
  have w: "wrap64 (Attempts (jv_job j) + 1) = Attempts (jv_job j) + 1" using pre(4,5) by simp
  note rv = reserve_view [OF pre(1) r, of i]
  from rv pre(3) obtain j1 where "invar s1 \<and> view s1 i = Some j1 \<and> Handler (jv_job j1) = Handler (jv_job j) \<and>
    Attempts (jv_job j1) \<in> {Attempts (jv_job j), wrap64 (Attempts (jv_job j) + 1)} \<and>
    (\<forall>v. r = Inr v \<and> ID (Job v) = i \<longrightarrow> Job v = jv_job j1 \<and> Attempts (jv_job j1) = wrap64 (Attempts (jv_job j) + 1))"
    by blast
  then have j1: "invar s1" "view s1 i = Some j1" "Handler (jv_job j1) = Handler (jv_job j)"
    "Attempts (jv_job j1) \<in> {Attempts (jv_job j), Attempts (jv_job j) + 1}"
    "\<And>v. r = Inr v \<Longrightarrow> ID (Job v) = i \<Longrightarrow> Job v = jv_job j1 \<and> Attempts (jv_job j1) = Attempts (jv_job j) + 1"
    unfolding w by blast+
  show ?thesis
  proof (cases r)
    case (Inl e)
    with r pre(2) have "s' = s1" "v = None" by (auto simp: workPersistent_turn_def)
    with j1 show ?thesis by auto
  next
    case (Inr w)
    with r pre(2) have v: "v = Some w"
      and ex: "executePersistent st env render (q_handlersByName q) w call clock s1 = (s', did, fs)"
      by (auto simp: workPersistent_turn_def split: prod.splits)
    note ev = executePersistent_view [OF j1(1) ok ex]
    show ?thesis
    proof (cases "ID (Job w) = i")
      case True
      with ev j1 v Inr executePersistent_ran [of env render "q_handlersByName q" w call clock s1 s' fs] ex
      show ?thesis by fastforce
    next
      case False
      with ev j1 v show ?thesis by auto
    qed
  qed
qed

lemma turn_absent:
  assumes ok: "env_ok env" and pre: "invar s" "workPersistent_turn st env render q ctx now call clock s = (s', v, did, fs)"
      "view s i = None"
  shows "invar s' \<and> view s' i = None \<and> \<not> (v \<noteq> None \<and> ID (Job (the v)) = i)"
proof -
  obtain s1 r where r: "js_Reserve st env ctx now (LeaseDuration (q_options q)) s = (s1, r)" by force
  note rv = reserve_view [OF pre(1) r, of i]
  show ?thesis
  proof (cases r)
    case (Inl e)
    with r pre(2) have "s' = s1" "v = None" by (auto simp: workPersistent_turn_def)
    with rv pre(3) show ?thesis by auto
  next
    case (Inr w)
    with r pre(2) have v: "v = Some w"
      and ex: "executePersistent st env render (q_handlersByName q) w call clock s1 = (s', did, fs)"
      by (auto simp: workPersistent_turn_def split: prod.splits)
    have "invar s1" "view s1 i = None" "ID (Job w) \<noteq> i" using rv pre(3) Inr by auto
    with executePersistent_view [OF _ ok ex] v show ?thesis by auto
  qed
qed

text \<open>In a turn a job leaves the store only if it was reserved in that turn and its handler succeeded.\<close>

lemma turn_removes:
  assumes ok: "env_ok env" and pre: "invar s" "workPersistent_turn st env render q ctx now call clock s = (s', v, did, fs)"
      "view s i = Some j" "view s' i = None"
  shows "\<exists>w. v = Some w \<and> ID (Job w) = i \<and> did \<and> decide (q_handlersByName q) w call clock = Finished"
proof -
  obtain s1 r where r: "js_Reserve st env ctx now (LeaseDuration (q_options q)) s = (s1, r)" by force
  obtain j1 where j1: "invar s1" "view s1 i = Some j1" using reserve_view [OF pre(1) r, of i] pre(3) by auto
  show ?thesis
  proof (cases r)
    case (Inl e)
    with r pre(2) have "s' = s1" by (auto simp: workPersistent_turn_def)
    with j1 pre(4) show ?thesis by simp
  next
    case (Inr w)
    with r pre(2) have v: "v = Some w"
      and ex: "executePersistent st env render (q_handlersByName q) w call clock s1 = (s', did, fs)"
      by (auto simp: workPersistent_turn_def split: prod.splits)
    from executePersistent_removes [OF j1(1) ok j1(2) pre(4) ex] v show ?thesis by auto
  qed
qed

lemma run_absent:
  "invar s \<Longrightarrow> list_all (\<lambda>t. env_ok (fst t)) ts \<Longrightarrow> view s i = None \<Longrightarrow> count_list (snd (worker_run st render q ts s)) i = 0"
proof (induction ts arbitrary: s)
  case (Cons t ts)
  obtain env ctx now call clock where t: "t = (env, ctx, now, call, clock)" by (cases t) auto
  obtain s' v did fs where w: "workPersistent_turn st env render q ctx now call clock s = (s', v, did, fs)"
    by (metis prod_cases4)
  have ok: "env_ok env" "list_all (\<lambda>t. env_ok (fst t)) ts" using Cons.prems(2) by (simp_all add: t)
  from turn_absent [OF ok(1) Cons.prems(1) w Cons.prems(3)] Cons.IH [of s'] ok show ?case
    unfolding t worker_run_count [OF w] by auto
qed simp

text \<open>However often it is reserved, a job's handler runs at most as often as it has attempts left.\<close>

lemma runs_bounded:
  assumes "invar s" "view s i = Some j" "0 \<le> Attempts (jv_job j)"
    "map_of (q_handlersByName q) (Handler (jv_job j)) = Some h"
    "Attempts (jv_job j) + int (length ts) < 2 ^ 63" "list_all (\<lambda>t. env_ok (fst t)) ts"
  shows "int (count_list (snd (worker_run st render q ts s)) i) \<le> max 0 (MaxAttempts (h_options h) - Attempts (jv_job j))"
  using assms
proof (induction ts arbitrary: s j)
  case (Cons t ts)
  obtain env ctx now call clock where t: "t = (env, ctx, now, call, clock)" by (cases t) auto
  obtain s' v did fs where w: "workPersistent_turn st env render q ctx now call clock s = (s', v, did, fs)"
    by (metis prod_cases4)
  have lt: "Attempts (jv_job j) < 2 ^ 63 - 1" using Cons.prems(5) by simp
  have ok: "env_ok env" "list_all (\<lambda>t. env_ok (fst t)) ts" using Cons.prems(6) by (simp_all add: t)
  note tv = turn_view [OF ok(1) Cons.prems(1) w Cons.prems(2,3) lt]
  let ?tail = "int (count_list (snd (worker_run st render q ts s')) i)"
  have tail: "?tail \<le> max 0 (MaxAttempts (h_options h) - a)"
    if "\<And>j'. view s' i = Some j' \<Longrightarrow> a \<le> Attempts (jv_job j')" for a
  proof (cases "view s' i")
    case None
    with tv run_absent [of s' ts i render q] ok show ?thesis by auto
  next
    case (Some j')
    with tv have "Attempts (jv_job j') \<le> Attempts (jv_job j) + 1" "0 \<le> Attempts (jv_job j')" "Handler (jv_job j') = Handler (jv_job j)" "invar s'"
      using Cons.prems(3) by auto
    with Cons.IH [of s' j'] Some Cons.prems that [OF Some] show ?thesis by force
  qed
  show ?case
  proof (cases "v \<noteq> None \<and> ID (Job (the v)) = i")
    case False
    have "?tail \<le> max 0 (MaxAttempts (h_options h) - Attempts (jv_job j))" by (rule tail) (use tv in auto)
    with False show ?thesis unfolding t worker_run_count [OF w] by auto
  next
    case True
    have cnt: "int (count_list (snd (worker_run st render q (t # ts) s)) i) = (if did then 1 else 0) + ?tail"
      using True unfolding t worker_run_count [OF w] by auto
    have "?tail \<le> max 0 (MaxAttempts (h_options h) - (Attempts (jv_job j) + 1))" by (rule tail) (use tv True in auto)
    moreover have "did \<Longrightarrow> Attempts (jv_job j) + 1 \<le> MaxAttempts (h_options h)"
      using tv True Cons.prems(4) by auto
    ultimately show ?thesis unfolding cnt by (auto split: if_splits)
  qed
qed simp

end

end
