(* ===== verification/FileJobRecovery.thy ===== *)
theory FileJobRecovery
  imports FileJobStore
begin

text \<open>
  Recovery of the durable job store: the log always replays to the jobs in memory, so that reopening
  the store after any sequence of operations, or after an operation interrupted at any point, loses
  nothing and invents nothing. The proof interprets the contract \<open>journaled_store\<close>.
\<close>

section \<open>Operations as data\<close>

datatype job_op =
    OpEnqueue go_context StoredJob
  | OpReserve go_context instant duration "string option"
  | OpRelease go_context JobReservation instant string
  | OpComplete go_context JobReservation
  | OpFail go_context JobReservation string instant
  | OpRetryFailed go_context string instant
  | OpForgetFailed go_context string
  | OpClose bool

fun perform :: "job_op \<Rightarrow> append_io \<Rightarrow> FileJobStore \<Rightarrow> FileJobStore" where
  "perform (OpEnqueue ctx j) io s = post (Enqueue ctx j io s)"
| "perform (OpReserve ctx now lease random) io s = post (Reserve ctx now lease random io s)"
| "perform (OpRelease ctx r t e) io s = post (Release ctx r t e io s)"
| "perform (OpComplete ctx r) io s = post (Complete ctx r io s)"
| "perform (OpFail ctx r e t) io s = post (Fail ctx r e t io s)"
| "perform (OpRetryFailed ctx i t) io s = post (RetryFailed ctx i t io s)"
| "perform (OpForgetFailed ctx i) io s = post (ForgetFailed ctx i io s)"
| "perform (OpClose ok) io s = post (Close ok s)"

text \<open>
  What the callers in the framework pass: payloads as \<open>json.Marshal\<close> makes them, text in valid
  UTF-8, clocks after the zero time, and 32 random bytes.
\<close>

fun admissible_op :: "job_op \<Rightarrow> bool" where
  "admissible_op (OpEnqueue ctx j) = (valid_string (Handler j) \<and> marshal_raw (Payload j) = Payload j)"
| "admissible_op (OpReserve ctx now lease random) =
     (0 \<le> now \<and> (case random of None \<Rightarrow> True | Some b \<Rightarrow> length b = jobIdentifierBytes))"
| "admissible_op (OpRelease ctx r t e) = valid_string e"
| "admissible_op (OpFail ctx r e t) = (valid_string e \<and> 0 < t)"
| "admissible_op _ = True"

definition restore_jobs :: "int \<Rightarrow> fileJobStoreEvent log_line list \<Rightarrow> job_error + (string, fileStoredJob) gomap" where
  "restore_jobs mp ls =
     replay_lines (line_limit mp) ErrFileJobStoreCorrupt (applyEvent mp) [] ls"

section \<open>The invariant\<close>

definition record_ok :: "string \<times> fileStoredJob \<Rightarrow> bool" where
  "record_ok kr =
     (ID (r_job (snd kr)) = fst kr \<and> validJobIdentifier (fst kr) \<and>
      valid_string (r_reservationToken (snd kr)) \<and> length (r_reservationToken (snd kr)) \<le> 64)"

definition job_inv :: "int \<Rightarrow> FileJobStore \<Rightarrow> bool" where
  "job_inv mp s =
     (fjs_maxPayloadBytes s = mp \<and> 0 \<le> mp \<and> gomap_wf (fjs_jobs s) \<and> list_all record_ok (fjs_jobs s) \<and>
      log_tail (fjs_file s) = 0 \<and> restore_jobs mp (log_lines (fjs_file s)) = Inr (fjs_jobs s))"

lemma record_ok_lookup: "list_all record_ok m \<Longrightarrow> map_of m k = Some r \<Longrightarrow> record_ok (k, r)"
  by (auto simp: list_all_iff dest: map_of_SomeD)

lemma record_okD:
  assumes "record_ok (k, r)"
  shows "ID (r_job r) = k" "validJobIdentifier k" "valid_string k" "k \<noteq> []" "length k = 64"
    "valid_string (r_reservationToken r)" "length (r_reservationToken r) \<le> 64"
  using assms validJobIdentifier_valid [of k] validJobIdentifier_nonempty [of k]
    validJobIdentifier_length [of k]
  by (auto simp: record_ok_def)

text \<open>An event that is encodable, short and replays to \<open>m\<close> commits \<open>m\<close>.\<close>

lemma job_inv_commit:
  assumes "job_inv mp s" "event_encodable e" "int (event_bytes e) < line_limit mp"
    "applyEvent mp (fjs_jobs s) (event_roundtrip e) = Inr m" "gomap_wf m" "list_all record_ok m"
  shows "job_inv mp (s\<lparr>fjs_file := write_line (event_roundtrip e) (event_bytes e) (fjs_file s), fjs_jobs := m\<rparr>)"
  using assms replay_write_line [of "line_limit mp" ErrFileJobStoreCorrupt "applyEvent mp" "[]"
      "fjs_file s" "fjs_jobs s" "event_bytes e" "event_roundtrip e" m]
  by (simp add: job_inv_def restore_jobs_def)

section \<open>Sizes of the events the operations write\<close>

lemmas event_sizes = json_time_bytes_le json_int_bytes_le json_string_bytes_le

lemma event_roundtrip_blank:
  assumes "valid_string t" "valid_string i" "valid_string tok" "valid_string er" "map_option payload_roundtrip j = j"
  shows "event_roundtrip ((blank_event t)\<lparr>ev_Job := j, ev_ID := i, ev_Token := tok, ev_ReservedUntil := ru,
      ev_AvailableAt := av, ev_Attempts := att, ev_Error := er, ev_FailedAt := fa\<rparr>) =
    (blank_event t)\<lparr>ev_Job := j, ev_ID := i, ev_Token := tok, ev_ReservedUntil := ru,
      ev_AvailableAt := av, ev_Attempts := att, ev_Error := er, ev_FailedAt := fa\<rparr>"
  using assms by (simp add: event_roundtrip_def blank_event_def utf8_coerce_valid)

lemma small_event_bytes:
  assumes "ev_Job e = None" "length (ev_Type e) \<le> 8" "length (ev_ID e) \<le> 64" "length (ev_Token e) \<le> 64"
    "length (ev_Error e) \<le> fileJobStoreMaxErrorBytes" "0 \<le> mp"
  shows "int (event_bytes e) < line_limit mp"
proof -
  have "json_string_bytes (ev_Type e) \<le> 50" "json_string_bytes (ev_ID e) \<le> 386"
    "json_string_bytes (ev_Token e) \<le> 386" "json_string_bytes (ev_Error e) \<le> 24578"
    using assms event_sizes(3) [of "ev_Type e"] event_sizes(3) [of "ev_ID e"]
      event_sizes(3) [of "ev_Token e"] event_sizes(3) [of "ev_Error e"]
    by (simp_all add: fileJobStoreMaxErrorBytes_def)
  then have "event_bytes e < 64 * 1024"
    using event_sizes(1) [of "ev_ReservedUntil e"] event_sizes(1) [of "ev_AvailableAt e"]
      event_sizes(1) [of "ev_FailedAt e"] event_sizes(2) [of "ev_Version e"]
      event_sizes(2) [of "ev_Attempts e"] assms(1)
    by (simp add: event_bytes_def)
  then show ?thesis using assms(6) by (simp add: line_limit_def fileJobStoreEventOverhead_def)
qed

lemma enqueue_event_bytes:
  assumes "validateStoredJob j mp = None" "marshal_raw (Payload j) = Payload j"
  shows "int (event_bytes ((blank_event ''enqueue'')\<lparr>ev_Job := Some (fileJobPayloadFromStored j)\<rparr>))
    < line_limit mp"
proof -
  let ?p = "fileJobPayloadFromStored j"
  have sel: "ID ?p = ID j" "Handler ?p = Handler j" "Payload ?p = Payload j"
    by (simp_all add: fileJobPayloadFromStored_def)
  have v: "length (ID j) = 64" "length (Handler j) \<le> 1024" "int (length (Payload j)) \<le> mp"
    using assms(1) validJobIdentifier_length [of "ID j"]
    by (auto simp: validateStoredJob_def fileJobStoreMaxHandlerBytes_def split: if_splits)
  have "json_string_bytes (ID j) \<le> 386" "json_string_bytes (Handler j) \<le> 6146"
    using v event_sizes(3) [of "ID j"] event_sizes(3) [of "Handler j"] by simp_all
  then have p: "payload_bytes ?p \<le> 6800 + length (Payload j)"
    using event_sizes(1) [of "AvailableAt ?p"] event_sizes(1) [of "EnqueuedAt ?p"]
      event_sizes(2) [of "Attempts ?p"] assms(2)
    by (simp add: payload_bytes_def sel)
  have t: "json_string_bytes ''enqueue'' \<le> 44" using event_sizes(3) [of "''enqueue''"] by simp
  have "event_bytes ((blank_event ''enqueue'')\<lparr>ev_Job := Some ?p\<rparr>) \<le> 7200 + length (Payload j)"
    using p t event_sizes(1) [of 0] event_sizes(2) [of fileJobStoreEventVersion]
    by (simp add: event_bytes_def)
  then show ?thesis using v(3) by (simp add: line_limit_def fileJobStoreEventOverhead_def)
qed

section \<open>Every operation keeps the invariant\<close>

lemmas applyEvent_simps = applyEvent_def fileJobStoreEventVersion_def

lemma job_inv_parts:
  assumes "job_inv mp s"
  shows "fjs_maxPayloadBytes s = mp" "0 \<le> mp" "gomap_wf (fjs_jobs s)" "list_all record_ok (fjs_jobs s)"
  using assms by (auto simp: job_inv_def)

lemma ascii_type: "valid_string ''reserve''" "valid_string ''release''" "valid_string ''complete''"
  "valid_string ''fail''" "valid_string ''retry''" "valid_string ''forget''" "valid_string ''enqueue''"
  by (simp_all add: valid_string_ascii)

lemma type_coerce [simp]: "utf8_coerce ''reserve'' = ''reserve''" "utf8_coerce ''release'' = ''release''"
  "utf8_coerce ''complete'' = ''complete''" "utf8_coerce ''fail'' = ''fail''"
  "utf8_coerce ''retry'' = ''retry''" "utf8_coerce ''forget'' = ''forget''"
  "utf8_coerce ''enqueue'' = ''enqueue''"
  by (simp_all add: utf8_coerce_valid ascii_type)

lemma Enqueue_inv:
  assumes inv: "job_inv mp s" and adm: "valid_string (Handler j)" "marshal_raw (Payload j) = Payload j"
  shows "job_inv mp (post (Enqueue ctx j AppendOk s))"
proof -
  let ?e = "(blank_event ''enqueue'')\<lparr>ev_Job := Some (fileJobPayloadFromStored j)\<rparr>"
  let ?r = "\<lparr>r_job = j, r_reservationToken = [], r_reservedUntil = 0, r_failedAt = 0, r_lastError = []\<rparr>"
  let ?s' = "s\<lparr>fjs_file := write_line (event_roundtrip ?e) (event_bytes ?e) (fjs_file s)\<rparr>"
  note parts = job_inv_parts [OF inv]
  have "job_inv mp (?s'\<lparr>fjs_jobs := AList.update (ID j) ?r (fjs_jobs ?s')\<rparr>)"
    if v: "validateStoredJob j mp = None" and new: "map_of (fjs_jobs s) (ID j) = None"
      and enc: "event_encodable ?e"
  proof -
    have id: "validJobIdentifier (ID j)" using v by (auto simp: validateStoredJob_def split: if_splits)
    have "event_roundtrip ?e = ?e"
      using adm validJobIdentifier_valid [OF id]
      by (simp add: event_roundtrip_def payload_roundtrip_def fileJobPayloadFromStored_def
          utf8_coerce_valid blank_event_def)
    then have ap: "applyEvent mp (fjs_jobs s) (event_roundtrip ?e) = Inr (AList.update (ID j) ?r (fjs_jobs s))"
      using v new by (simp add: applyEvent_simps)
    show ?thesis
      using job_inv_commit [OF inv enc enqueue_event_bytes [OF v adm(2)] ap] parts id
      by (simp add: list_all_update record_ok_def)
  qed
  with inv parts(1) show ?thesis
    by (auto simp: op_defs append_event_def append_log_def encode_event_def Let_def
        split: option.splits)
qed

lemma Reserve_pick:
  assumes "sort_key reserve_key (filter (eligible now) (map snd (fjs_jobs s))) = r # rs"
    "list_all record_ok (fjs_jobs s)" "gomap_wf (fjs_jobs s)"
  shows "map_of (fjs_jobs s) (ID (r_job r)) = Some r" "eligible now r"
proof -
  have "r \<in> set (sort_key reserve_key (filter (eligible now) (map snd (fjs_jobs s))))"
    using assms(1) by simp
  then obtain k where k: "(k, r) \<in> set (fjs_jobs s)" and el: "eligible now r" by auto
  with assms(2) have "ID (r_job r) = k" by (auto simp: list_all_iff record_ok_def)
  with k assms(3) show "map_of (fjs_jobs s) (ID (r_job r)) = Some r" by (simp add: gomap_mem_iff)
  show "eligible now r" by (rule el)
qed

lemma Reserve_inv:
  assumes inv: "job_inv mp s" and adm: "admissible_op (OpReserve ctx now lease random)"
  shows "job_inv mp (post (Reserve ctx now lease random AppendOk s))"
proof -
  note parts = job_inv_parts [OF inv]
  have "job_inv mp (s\<lparr>fjs_file := write_line (event_roundtrip e) (event_bytes e) (fjs_file s),
      fjs_jobs := AList.update (ID (r_job r)) r' (fjs_jobs s)\<rparr>)"
    if pick: "sort_key reserve_key (filter (eligible now) (map snd (fjs_jobs s))) = r # rs"
      and tok: "newJobIdentifier random = Inr token" and lease: "0 < lease"
      and r': "r' = r\<lparr>r_job := (r_job r)\<lparr>Attempts := wrap64 (Attempts (r_job r) + 1)\<rparr>,
                  r_reservationToken := token, r_reservedUntil := now + lease\<rparr>"
      and e: "e = (blank_event ''reserve'')\<lparr>ev_ID := ID (r_job r), ev_Token := token,
                  ev_ReservedUntil := now + lease, ev_Attempts := wrap64 (Attempts (r_job r) + 1)\<rparr>"
      and enc: "event_encodable e" for r rs token r' e
  proof -
    have lk: "map_of (fjs_jobs s) (ID (r_job r)) = Some r"
      by (rule Reserve_pick(1) [OF pick parts(4,3)])
    note rok = record_okD [OF record_ok_lookup [OF parts(4) lk]]
    have vt: "validJobIdentifier token"
      using tok adm newJobIdentifier_valid
      by (cases random) (auto simp: newJobIdentifier_def)
    note tv = validJobIdentifier_valid [OF vt] validJobIdentifier_length [OF vt]
      validJobIdentifier_nonempty [OF vt]
    have rt: "event_roundtrip e = e"
      using rok tv by (simp add: e event_roundtrip_def utf8_coerce_valid blank_event_def)
    have sz: "int (event_bytes e) < line_limit mp"
      by (rule small_event_bytes) (use rok tv parts in \<open>simp_all add: e\<close>)
    have nz: "now + lease \<noteq> 0" using adm lease by auto
    have ap: "applyEvent mp (fjs_jobs s) (event_roundtrip e) = Inr (AList.update (ID (r_job r)) r' (fjs_jobs s))"
      unfolding rt using lk tv nz by (simp add: applyEvent_simps e r' is_zero_time_def)
    show ?thesis
      using job_inv_commit [OF inv enc sz ap] parts rok tv
      by (simp add: list_all_update record_ok_def r')
  qed
  with inv show ?thesis
    by (auto simp: op_defs append_event_def append_log_def encode_event_def Let_def
        split: option.splits list.splits sum.splits)
qed

text \<open>The shared end of a reservation: what its three callers have to show of their event.\<close>

lemma finishReservation_inv:
  assumes inv: "job_inv mp s"
    and step: "\<And>r. map_of (fjs_jobs s) (ID (Job v)) = Some r \<Longrightarrow> r_reservationToken r = Token v \<Longrightarrow>
      Token v \<noteq> [] \<Longrightarrow> record_ok (ID (Job v), r) \<Longrightarrow>
      event_roundtrip e = e \<and> int (event_bytes e) < line_limit mp \<and>
      record_ok (ID (Job v), fst (f r)) \<and>
      applyEvent mp (fjs_jobs s) e =
        Inr (if snd (f r) then AList.update (ID (Job v)) (fst (f r)) (fjs_jobs s)
             else AList.delete (ID (Job v)) (fjs_jobs s))"
  shows "job_inv mp (post (finishReservation ctx v e f AppendOk s))"
proof -
  note parts = job_inv_parts [OF inv]
  have "job_inv mp (s\<lparr>fjs_file := write_line (event_roundtrip e) (event_bytes e) (fjs_file s),
      fjs_jobs := (if snd (f r) then AList.update (ID (r_job r)) (fst (f r)) (fjs_jobs s)
                   else AList.delete (ID (r_job r)) (fjs_jobs s))\<rparr>)"
    if lk: "map_of (fjs_jobs s) (ID (Job v)) = Some r" and tok: "r_reservationToken r = Token v"
      and ne: "Token v \<noteq> []" and enc: "event_encodable e" for r
  proof -
    have ok: "record_ok (ID (Job v), r)" by (rule record_ok_lookup [OF parts(4) lk])
    have id: "ID (r_job r) = ID (Job v)" using record_okD(1) [OF ok] .
    note st = step [OF lk tok ne ok]
    have "list_all record_ok (if snd (f r) then AList.update (ID (Job v)) (fst (f r)) (fjs_jobs s)
             else AList.delete (ID (Job v)) (fjs_jobs s))"
      using st parts(4) by (simp add: list_all_update list_all_delete)
    then show ?thesis
      using job_inv_commit [OF inv enc] st parts(3) by (cases "snd (f r)") (simp_all add: id)
  qed
  with inv show ?thesis
    by (auto simp: finishReservation_def append_event_def append_log_def encode_event_def
        split: option.splits prod.splits if_splits)
qed

lemma Release_inv:
  assumes inv: "job_inv mp s" and err: "valid_string er"
  shows "job_inv mp (post (Release ctx v t er AppendOk s))"
proof (cases "is_zero_time t")
  case False
  note norm = normalizeFileJobStoreError_valid [OF err] normalizeFileJobStoreError_length [of er]
  show ?thesis
    unfolding Release_def Let_def if_not_P [OF False]
  proof (rule finishReservation_inv [OF inv], goal_cases)
    case (1 r)
    note rok = record_okD [OF 1(4)]
    have "length (Token v) \<le> 64" "valid_string (Token v)" using rok 1(2) by auto
    then show ?case
      using rok 1 norm False job_inv_parts(2) [OF inv]
      by (auto simp: event_roundtrip_def utf8_coerce_valid blank_event_def applyEvent_simps
          replayReservation_def record_ok_def intro!: small_event_bytes)
  qed
qed (use inv in \<open>simp add: Release_def\<close>)

lemma Complete_inv:
  assumes inv: "job_inv mp s"
  shows "job_inv mp (post (Complete ctx v AppendOk s))"
  unfolding Complete_def
proof (rule finishReservation_inv [OF inv], goal_cases)
  case (1 r)
  note rok = record_okD [OF 1(4)]
  have "length (Token v) \<le> 64" "valid_string (Token v)" using rok 1(2) by auto
  then show ?case
    using rok 1 job_inv_parts(2) [OF inv]
    by (auto simp: event_roundtrip_def utf8_coerce_valid blank_event_def applyEvent_simps
        replayReservation_def intro!: small_event_bytes)
qed

lemma Fail_inv:
  assumes inv: "job_inv mp s" and err: "valid_string er" and t: "0 < t"
  shows "job_inv mp (post (Fail ctx v er t AppendOk s))"
proof -
  note norm = normalizeFileJobStoreError_valid [OF err] normalizeFileJobStoreError_length [of er]
  show ?thesis
    unfolding Fail_def Let_def
  proof (rule finishReservation_inv [OF inv], goal_cases)
    case (1 r)
    note rok = record_okD [OF 1(4)]
    have "length (Token v) \<le> 64" "valid_string (Token v)" using rok 1(2) by auto
    then show ?case
      using rok 1 norm t job_inv_parts(2) [OF inv]
      by (auto simp: event_roundtrip_def utf8_coerce_valid blank_event_def applyEvent_simps
          replayReservation_def record_ok_def is_zero_time_def intro!: small_event_bytes)
  qed
qed

lemma RetryFailed_inv:
  assumes inv: "job_inv mp s"
  shows "job_inv mp (post (RetryFailed ctx i t AppendOk s))"
proof -
  note parts = job_inv_parts [OF inv]
  let ?e = "(blank_event ''retry'')\<lparr>ev_ID := i, ev_AvailableAt := t\<rparr>"
  have "job_inv mp (s\<lparr>fjs_file := write_line (event_roundtrip ?e) (event_bytes ?e) (fjs_file s),
      fjs_jobs := AList.update i (r\<lparr>r_job := (r_job r)\<lparr>Attempts := 0, AvailableAt := t\<rparr>,
                         r_failedAt := 0, r_lastError := []\<rparr>) (fjs_jobs s)\<rparr>)"
    if lk: "map_of (fjs_jobs s) i = Some r" and nz: "\<not> is_zero_time (r_failedAt r)" "\<not> is_zero_time t"
      and enc: "event_encodable ?e" for r
  proof -
    have ok: "record_ok (i, r)" by (rule record_ok_lookup [OF parts(4) lk])
    note rok = record_okD [OF ok]
    have rt: "event_roundtrip ?e = ?e"
      using rok by (simp add: event_roundtrip_def utf8_coerce_valid blank_event_def)
    have sz: "int (event_bytes ?e) < line_limit mp"
      by (rule small_event_bytes) (use rok parts in simp_all)
    show ?thesis
      by (rule job_inv_commit [OF inv enc sz])
        (use lk nz parts rok ok in \<open>simp_all add: rt applyEvent_simps list_all_update record_ok_def\<close>)
  qed
  with inv show ?thesis
    by (auto simp: op_defs append_event_def append_log_def encode_event_def split: option.splits)
qed

lemma ForgetFailed_inv:
  assumes inv: "job_inv mp s"
  shows "job_inv mp (post (ForgetFailed ctx i AppendOk s))"
proof -
  note parts = job_inv_parts [OF inv]
  let ?e = "(blank_event ''forget'')\<lparr>ev_ID := i\<rparr>"
  have "job_inv mp (s\<lparr>fjs_file := write_line (event_roundtrip ?e) (event_bytes ?e) (fjs_file s),
      fjs_jobs := AList.delete i (fjs_jobs s)\<rparr>)"
    if lk: "map_of (fjs_jobs s) i = Some r" and nz: "\<not> is_zero_time (r_failedAt r)"
      and enc: "event_encodable ?e" for r
  proof -
    note rok = record_okD [OF record_ok_lookup [OF parts(4) lk]]
    have rt: "event_roundtrip ?e = ?e"
      using rok by (simp add: event_roundtrip_def utf8_coerce_valid blank_event_def)
    have sz: "int (event_bytes ?e) < line_limit mp"
      by (rule small_event_bytes) (use rok parts in simp_all)
    show ?thesis
      by (rule job_inv_commit [OF inv enc sz])
        (use lk nz parts in \<open>simp_all add: rt applyEvent_simps list_all_delete\<close>)
  qed
  with inv show ?thesis
    by (auto simp: op_defs append_event_def append_log_def encode_event_def split: option.splits)
qed

lemma Close_inv: "job_inv mp s \<Longrightarrow> job_inv mp (post (Close ok s))"
  by (simp add: Close_def job_inv_def)

lemmas operation_inv = Enqueue_inv Reserve_inv Release_inv Complete_inv Fail_inv RetryFailed_inv
  ForgetFailed_inv Close_inv

lemma perform_inv: "job_inv mp s \<Longrightarrow> admissible_op a \<Longrightarrow> job_inv mp (perform a AppendOk s)"
  by (cases a) (simp_all add: operation_inv)

section \<open>What an operation can leave in the log\<close>

lemma finishReservation_lines:
  "log_lines (fjs_file (post (finishReservation ctx v e f io s))) \<in>
     {log_lines (fjs_file s), log_lines (fjs_file (post (finishReservation ctx v e f AppendOk s)))}"
  by (auto simp: finishReservation_def append_event_def append_log_def write_partial_def write_line_def
      Let_def split: option.splits append_io.splits prod.splits)

lemma perform_lines:
  "log_lines (fjs_file (perform a io s)) \<in>
     {log_lines (fjs_file s), log_lines (fjs_file (perform a AppendOk s))}"
proof (cases a)
  case (OpEnqueue ctx j)
  then show ?thesis
    by (auto simp: Enqueue_def append_event_def append_log_def write_partial_def write_line_def Let_def
        split: option.splits append_io.splits)
next
  case (OpReserve ctx now lease random)
  then show ?thesis
    by (auto simp: Reserve_def append_event_def append_log_def write_partial_def write_line_def Let_def
        split: option.splits append_io.splits list.splits sum.splits)
next
  case (OpRelease ctx v t er)
  then show ?thesis using finishReservation_lines by (auto simp: Release_def Let_def)
next
  case (OpFail ctx v er t)
  then show ?thesis using finishReservation_lines by (simp add: Fail_def Let_def)
next
  case (OpRetryFailed ctx i t)
  then show ?thesis
    by (auto simp: RetryFailed_def append_event_def append_log_def write_partial_def write_line_def
        split: option.splits append_io.splits)
next
  case (OpForgetFailed ctx i)
  then show ?thesis
    by (auto simp: ForgetFailed_def append_event_def append_log_def write_partial_def write_line_def
        split: option.splits append_io.splits)
next
  case (OpComplete ctx v)
  then show ?thesis using finishReservation_lines by (simp add: Complete_def)
qed simp

interpretation job_journal: journaled_store fjs_jobs fjs_file "restore_jobs mp" perform admissible_op "job_inv mp"
proof (unfold_locales, goal_cases)
  case (1 s)
  then show ?case by (simp add: job_inv_def)
next
  case (2 s)
  then show ?case by (simp add: job_inv_def)
next
  case (3 s a)
  then show ?case by (rule perform_inv)
next
  case (4 a io s)
  show ?case by (rule perform_lines)
qed

section \<open>Reopening\<close>

definition job_run :: "job_op list \<Rightarrow> FileJobStore \<Rightarrow> FileJobStore" where
  "job_run ops s = fold (\<lambda>a. perform a AppendOk) ops s"

lemma NewFileJobStore_restore:
  assumes "normalizeFileJobStoreOptions abs_path options = Inr o'"
  shows "NewFileJobStore abs_path options OpenOk ReplayOk f =
    (case restore_jobs (MaxPayloadBytes o') (log_lines f) of
       Inl e \<Rightarrow> (f, Inl e)
     | Inr m \<Rightarrow> (f\<lparr>log_tail := 0\<rparr>, Inr \<lparr>fjs_path = Path o', fjs_maxJobs = MaxJobs o',
         fjs_maxPayloadBytes = MaxPayloadBytes o', fjs_file = f\<lparr>log_tail := 0\<rparr>, fjs_jobs = m,
         fjs_closed = False\<rparr>))"
  using assms
  by (simp add: NewFileJobStore_def replay_def replay_log_ok restore_jobs_def split: sum.split)

lemma NewFileJobStore_options:
  assumes "NewFileJobStore abs_path options oio rio f = (f', Inr s)"
  obtains o' where "normalizeFileJobStoreOptions abs_path options = Inr o'"
    "MaxPayloadBytes o' = fjs_maxPayloadBytes s" "0 \<le> MaxPayloadBytes o'"
proof -
  from assms obtain o' where o': "normalizeFileJobStoreOptions abs_path options = Inr o'"
    by (auto simp: NewFileJobStore_def split: sum.splits)
  have "0 \<le> MaxPayloadBytes o'"
    using o' by (auto simp: normalizeFileJobStoreOptions_def Let_def defaultFileJobStoreMaxPayloadBytes_def
        split: if_splits option.splits)
  moreover have "MaxPayloadBytes o' = fjs_maxPayloadBytes s"
    using assms o' by (auto simp: NewFileJobStore_def replay_def split: open_io.splits prod.splits sum.splits)
  ultimately show ?thesis using o' that by blast
qed

lemma NewFileJobStore_success:
  assumes "NewFileJobStore abs_path options oio rio f = (f', Inr s)"
  shows "restore_jobs (fjs_maxPayloadBytes s) (log_lines f) = Inr (fjs_jobs s)"
  using assms
  by (auto simp: NewFileJobStore_def replay_def restore_jobs_def split: sum.splits open_io.splits prod.splits
      dest: replay_log_success)

lemma opened_empty_inv:
  assumes "NewFileJobStore abs_path options OpenOk ReplayOk empty_log = (f, Inr s)"
  shows "job_inv (fjs_maxPayloadBytes s) s"
proof -
  obtain o' where o': "normalizeFileJobStoreOptions abs_path options = Inr o'" "0 \<le> MaxPayloadBytes o'"
    using NewFileJobStore_options [OF assms] by blast
  with assms show ?thesis
    by (auto simp: NewFileJobStore_restore job_inv_def restore_jobs_def empty_log_def)
qed


lemma job_run_inv: "job_inv mp s \<Longrightarrow> list_all admissible_op ops \<Longrightarrow> job_inv mp (job_run ops s)"
  unfolding job_run_def by (rule job_journal.run_invar)

section \<open>Properties\<close>


definition example_options :: FileJobStoreOptions where
  "example_options = \<lparr>Path = ''jobs.log'', MaxJobs = 3, MaxPayloadBytes = 100\<rparr>"

definition example_store :: FileJobStore where
  "example_store = \<lparr>fjs_path = ''jobs.log'', fjs_maxJobs = 3, fjs_maxPayloadBytes = 100,
     fjs_file = empty_log, fjs_jobs = [], fjs_closed = False\<rparr>"

definition example_job :: StoredJob where
  "example_job = \<lparr>ID = replicate 64 (CHR ''a''), Handler = ''mail'', Payload = ''[1]'', AvailableAt = 5,
     EnqueuedAt = 5, Attempts = 0\<rparr>"

definition example_ops :: "job_op list" where
  "example_ops = [OpEnqueue LiveContext example_job, OpReserve LiveContext 10 20 (Some (replicate 32 (CHR ''x'')))]"

lemma example_options_normal: "normalizeFileJobStoreOptions Some example_options = Inr example_options"
  by code_simp

lemma example_opens: "NewFileJobStore Some example_options OpenOk ReplayOk empty_log = (empty_log, Inr example_store)"
  unfolding NewFileJobStore_restore [OF example_options_normal]
  by (simp add: restore_jobs_def empty_log_def example_store_def example_options_def)

lemma example_job_valid: "validateStoredJob example_job 100 = None"
  by code_simp

lemma example_handler: "valid_string ''mail''"
  by (simp add: valid_string_ascii)

lemma example_admissible: "list_all admissible_op example_ops"
  by (simp add: example_ops_def example_job_def example_handler jobIdentifierBytes_def marshal_raw_def
      html_unsafe_def json_space_def)











section \<open>What a failed append leaves behind\<close>

lemma Enqueue_written:
  assumes "Enqueue ctx j io s = (s', Inr ())"
  shows "fjs_file s' = write_line
      (event_roundtrip ((blank_event ''enqueue'')\<lparr>ev_Job := Some (fileJobPayloadFromStored j)\<rparr>))
      (event_bytes ((blank_event ''enqueue'')\<lparr>ev_Job := Some (fileJobPayloadFromStored j)\<rparr>)) (fjs_file s)"
    "validJobIdentifier (ID j)" "map_of (fjs_jobs s') (ID j) \<noteq> None"
  using assms
  by (auto simp: Enqueue_def Let_def append_event_ok_iff validateStoredJob_def
      split: if_splits option.splits prod.splits sum.splits)

lemma Enqueue_frame:
  "fjs_maxJobs (post (Enqueue ctx j io s)) = fjs_maxJobs s"
  "fjs_maxPayloadBytes (post (Enqueue ctx j io s)) = fjs_maxPayloadBytes s"
  "fjs_closed (post (Enqueue ctx j io s)) = fjs_closed s"
  by (auto simp: Enqueue_def Let_def append_event_def split: option.splits prod.splits sum.splits)

lemma Enqueue_ok_iff:
  "is_ok (ret (Enqueue ctx j AppendOk s)) \<longleftrightarrow>
     ctx \<noteq> NilContext \<and> validateStoredJob j (fjs_maxPayloadBytes s) = None \<and> ctx_err ctx = None \<and>
     \<not> fjs_closed s \<and> int (length (fjs_jobs s)) < fjs_maxJobs s \<and> map_of (fjs_jobs s) (ID j) = None \<and>
     event_encodable ((blank_event ''enqueue'')\<lparr>ev_Job := Some (fileJobPayloadFromStored j)\<rparr>)"
  by (auto simp: Enqueue_def Let_def append_event_def append_log_def encode_event_def ready_def
      split: option.splits if_splits)

text \<open>
  C4. An append that fails after writing part of its line leaves a tail that nothing removes while the
  store stays open. If a later \<open>Enqueue\<close> succeeds on such a store, the job it acknowledged is on
  a line the decoder rejects, and from then on the store cannot be opened with any options, on any
  path and whatever the system calls do.
\<close>

theorem torn_append_poisons_log:
  assumes "log_tail (fjs_file s) \<noteq> 0" and "Enqueue ctx j io s = (s', Inr ())"
  shows "\<not> is_ok (snd (NewFileJobStore abs_path options oio rio (fjs_file s')))"
proof -
  from assms(2) obtain e where f: "fjs_file s' = write_line (event_roundtrip e) (event_bytes e) (fjs_file s)"
    by (auto simp: Enqueue_def Let_def append_event_ok_iff split: if_splits option.splits prod.splits sum.splits)
  show ?thesis
  proof
    assume "is_ok (snd (NewFileJobStore abs_path options oio rio (fjs_file s')))"
    then obtain mp m where "restore_jobs mp (log_lines (fjs_file s')) = Inr m"
      using NewFileJobStore_success by (metis is_ok_iff prod.collapse)
    then show False
      using replay_write_line_torn [OF assms(1)] unfolding restore_jobs_def f by (metis is_ok_iff)
  qed
qed

definition example_torn :: FileJobStore where
  "example_torn = example_store\<lparr>fjs_file := \<lparr>log_lines = [], log_tail = 7\<rparr>\<rparr>"

lemma example_encodable:
  "event_encodable ((blank_event ''enqueue'')\<lparr>ev_Job := Some (fileJobPayloadFromStored example_job)\<rparr>)"
  using example_job_valid
  by (simp add: event_encodable_def fileJobPayloadFromStored_def json_time_ok_def nanos_per_day_def
      validateStoredJob_def split: if_splits) (simp add: example_job_def)

lemma example_torn_reached: "example_torn = post (Enqueue LiveContext example_job (WriteFails 7) example_store)"
  by (simp add: Enqueue_def example_store_def example_torn_def example_job_valid ready_def append_event_def
      append_log_def encode_event_def example_encodable write_partial_def event_bytes_def empty_log_def)

lemma example_torn_enqueue: "is_ok (ret (Enqueue LiveContext example_job AppendOk example_torn))"
  by (simp add: Enqueue_ok_iff example_torn_def example_store_def example_job_valid example_encodable)

theorem torn_append_poisons_log_witness:
  "\<not> is_ok (snd (NewFileJobStore Some example_options OpenOk ReplayOk
     (fjs_file (post (Enqueue LiveContext example_job AppendOk example_torn)))))"
proof (rule torn_append_poisons_log)
  show "log_tail (fjs_file example_torn) \<noteq> 0" by (simp add: example_torn_def)
  show "Enqueue LiveContext example_job AppendOk example_torn =
    (post (Enqueue LiveContext example_job AppendOk example_torn), Inr ())"
    using ok_outcome [OF example_torn_enqueue] by simp
qed

lemma enqueue_twice_corrupt:
  assumes r: "restore_jobs mp ls = Inr m" and has: "map_of m (ID j) \<noteq> None" and id: "validJobIdentifier (ID j)"
    and e: "e = (blank_event ''enqueue'')\<lparr>ev_Job := Some (fileJobPayloadFromStored j)\<rparr>"
  shows "restore_jobs mp (ls @ [\<lparr>line_event = Some (event_roundtrip e), line_bytes = n\<rparr>]) = Inl ErrFileJobStoreCorrupt"
proof -
  have "ev_Job (event_roundtrip e) = Some (payload_roundtrip (fileJobPayloadFromStored j))"
    "ID (payload_roundtrip (fileJobPayloadFromStored j)) = ID j" "ev_Type (event_roundtrip e) = ''enqueue''"
    using utf8_coerce_valid [OF validJobIdentifier_valid [OF id]]
    by (simp_all add: e event_roundtrip_def payload_roundtrip_def fileJobPayloadFromStored_def)
  with r has show ?thesis
    by (auto simp: restore_jobs_def replay_lines_append replay_line_def applyEvent_def stored_def Let_def)
qed

lemma Enqueue_sync_failure:
  assumes "Enqueue ctx j SyncFails s = (s1, Inl (ErrJobStoreOperationFailed SyncEvent))"
  shows "Enqueue ctx j AppendOk s = (post (Enqueue ctx j AppendOk s), Inr ())"
    "fjs_file (post (Enqueue ctx j AppendOk s)) = fjs_file s1" "fjs_jobs s1 = fjs_jobs s"
  using assms
  by (auto simp: Enqueue_def Let_def append_event_def append_log_def encode_event_def ready_def validateStoredJob_def
      split: if_splits option.splits)

text \<open>
  When the sync of an enqueue fails, the line is already in the log but the job is not in memory
  and the caller sees an error. Enqueuing the same job again succeeds and writes a second enqueue event
  for its identifier, which makes replay report corruption: the store cannot be opened again.
\<close>

theorem retry_after_sync_failure_corrupts:
  assumes opened: "NewFileJobStore abs_path options OpenOk ReplayOk empty_log = (f, Inr s0)"
    and ops: "list_all admissible_op ops" and adm: "admissible_op (OpEnqueue ctx j)"
    and failed: "Enqueue ctx j SyncFails (job_run ops s0) = (s1, Inl (ErrJobStoreOperationFailed SyncEvent))"
    and retried: "Enqueue ctx' j AppendOk s1 = (s2, Inr ())"
  shows "fjs_jobs s1 = fjs_jobs (job_run ops s0) \<and>
    snd (NewFileJobStore abs_path options OpenOk ReplayOk (fjs_file s2)) = Inl ErrFileJobStoreCorrupt"
proof -
  let ?s = "job_run ops s0" and ?mp = "fjs_maxPayloadBytes s0"
  note once = Enqueue_sync_failure [OF failed]
  have "job_inv ?mp (post (Enqueue ctx j AppendOk ?s))"
    using perform_inv [OF job_run_inv [OF opened_empty_inv [OF opened] ops] adm] by simp
  then have "restore_jobs ?mp (log_lines (fjs_file s1)) = Inr (fjs_jobs (post (Enqueue ctx j AppendOk ?s)))"
    and "log_tail (fjs_file s1) = 0"
    using once(2) by (simp_all add: job_inv_def)
  then have "restore_jobs ?mp (log_lines (fjs_file s2)) = Inl ErrFileJobStoreCorrupt"
    using enqueue_twice_corrupt [OF _ Enqueue_written(3,2) [OF once(1)] refl]
    by (simp add: Enqueue_written(1) [OF retried] write_line_def)
  moreover obtain o' where "normalizeFileJobStoreOptions abs_path options = Inr o'" "MaxPayloadBytes o' = ?mp"
    using NewFileJobStore_options [OF opened] by blast
  ultimately show ?thesis by (simp add: NewFileJobStore_restore once(3))
qed

definition example_unsynced :: "FileJobStore \<times> (job_error + unit)" where
  "example_unsynced = Enqueue LiveContext example_job SyncFails example_store"

definition example_retried :: "FileJobStore \<times> (job_error + unit)" where
  "example_retried = Enqueue LiveContext example_job AppendOk (post example_unsynced)"

lemma example_unsynced_error: "ret example_unsynced = Inl (ErrJobStoreOperationFailed SyncEvent)"
  by (simp add: example_unsynced_def Enqueue_def example_store_def example_job_valid ready_def append_event_def
      append_log_def encode_event_def example_encodable Let_def)

lemma example_enqueue_ok: "is_ok (ret (Enqueue LiveContext example_job AppendOk example_store))"
  by (simp add: Enqueue_ok_iff example_store_def example_job_valid example_encodable)

lemma example_retried_ok: "is_ok (ret example_retried)"
proof -
  have "Enqueue LiveContext example_job SyncFails example_store =
      (post example_unsynced, Inl (ErrJobStoreOperationFailed SyncEvent))"
    using example_unsynced_error by (simp add: example_unsynced_def prod_eq_iff)
  from Enqueue_sync_failure(3) [OF this] show ?thesis
    using example_enqueue_ok by (simp add: example_retried_def Enqueue_ok_iff) (simp add: example_unsynced_def Enqueue_frame)
qed

theorem retry_after_sync_failure_corrupts_witness:
  "fjs_jobs (post example_unsynced) = fjs_jobs example_store \<and>
   snd (NewFileJobStore Some example_options OpenOk ReplayOk (fjs_file (post example_retried))) = Inl ErrFileJobStoreCorrupt"
proof -
  have "Enqueue LiveContext example_job SyncFails (job_run [] example_store) =
      (post example_unsynced, Inl (ErrJobStoreOperationFailed SyncEvent))"
    using example_unsynced_error by (simp add: job_run_def example_unsynced_def prod_eq_iff)
  moreover have "Enqueue LiveContext example_job AppendOk (post example_unsynced) = (post example_retried, Inr ())"
    using ok_outcome [OF example_retried_ok] by (simp add: example_retried_def)
  ultimately show ?thesis
    using retry_after_sync_failure_corrupts [OF example_opens, of "[]" LiveContext example_job] example_admissible
    by (simp add: job_run_def example_ops_def)
qed

text \<open>
  C6. The bound on payloads is checked on the bytes the caller passes, but the log holds the payload as
  \<open>json.Marshal\<close> rewrites it. A store accepts a job whose payload is within the bound and then
  cannot be opened again, because the rewritten payload is longer than the bound.
\<close>

definition example_unsafe_job :: StoredJob where
  "example_unsafe_job = example_job\<lparr>Payload := bytes [34, 60, 34]\<rparr>"

definition example_small_options :: FileJobStoreOptions where
  "example_small_options = example_options\<lparr>MaxPayloadBytes := 3\<rparr>"

theorem payload_bound_not_preserved_by_log:
  "\<exists>s s'. NewFileJobStore Some example_small_options OpenOk ReplayOk empty_log = (empty_log, Inr s) \<and>
     Enqueue LiveContext example_unsafe_job AppendOk s = (s', Inr ()) \<and>
     snd (NewFileJobStore Some example_small_options OpenOk ReplayOk (fjs_file s')) = Inl ErrFileJobStoreCorrupt"
proof -
  let ?s = "example_store\<lparr>fjs_maxPayloadBytes := 3\<rparr>"
  let ?e = "Enqueue LiveContext example_unsafe_job AppendOk ?s"
  have norm: "normalizeFileJobStoreOptions Some example_small_options = Inr example_small_options"
    by code_simp
  have "NewFileJobStore Some example_small_options OpenOk ReplayOk empty_log = (empty_log, Inr ?s)"
    unfolding NewFileJobStore_restore [OF norm]
    by (simp add: restore_jobs_def empty_log_def example_store_def example_small_options_def example_options_def)
  moreover have ok: "?e = (post ?e, Inr ())"
  proof -
    have "is_ok (ret ?e)" by code_simp
    from ok_outcome [OF this] show ?thesis by simp
  qed
  moreover have "snd (NewFileJobStore Some example_small_options OpenOk ReplayOk (fjs_file (post ?e))) =
      Inl ErrFileJobStoreCorrupt"
  proof -
    have "applyEvent 3 [] (event_roundtrip ((blank_event ''enqueue'')
        \<lparr>ev_Job := Some (fileJobPayloadFromStored example_unsafe_job)\<rparr>)) = Inl ErrFileJobStoreCorrupt"
      by code_simp
    moreover note norm
    moreover have "fjs_file ?s = empty_log" by (simp add: example_store_def)
    ultimately show ?thesis
      by (simp add: NewFileJobStore_restore Enqueue_written(1) [OF ok] empty_log_def
          write_line_def restore_jobs_def replay_line_def example_small_options_def)
  qed
  ultimately show ?thesis by blast
qed

end
