(* ===== verification/FileJobQueue.thy ===== *)
theory FileJobQueue
  imports JobStoreContract FileJobRecovery
begin

text \<open>
  The queue on the durable local store: \<open>FileJobStore\<close> as an implementation of the interface
  \<open>JobStore\<close> (\<open>job_store.go\<close>), and what the queue of \<open>jobs_persistent.go\<close> then
  guarantees. The contract \<open>job_store\<close> is interpreted on the model of the file store.
\<close>

text \<open>What the environment decides of the store calls of one dispatch or one turn of a worker.\<close>

record file_env =
  fe_random :: "string option"
  fe_reserve_io :: append_io
  fe_io :: append_io
  fe_clock :: instant

definition file_job_store :: "(file_env, FileJobStore) JobStore" where
  "file_job_store =
     \<lparr>js_Enqueue = \<lambda>env ctx j s. Enqueue ctx j (fe_io env) s,
      js_Reserve = \<lambda>env ctx now lease s. Reserve ctx now lease (fe_random env) (fe_reserve_io env) s,
      js_Release = \<lambda>env ctx v t er s. Release ctx v t er (fe_io env) s,
      js_Complete = \<lambda>env ctx v s. Complete ctx v (fe_io env) s,
      js_Fail = \<lambda>env ctx v er s. Fail ctx v er (fe_clock env) (fe_io env) s\<rparr>"

lemma file_job_store_sel [simp]:
  "js_Enqueue file_job_store env ctx j s = Enqueue ctx j (fe_io env) s"
  "js_Reserve file_job_store env ctx now lease s = Reserve ctx now lease (fe_random env) (fe_reserve_io env) s"
  "js_Release file_job_store env ctx v t er s = Release ctx v t er (fe_io env) s"
  "js_Complete file_job_store env ctx v s = Complete ctx v (fe_io env) s"
  "js_Fail file_job_store env ctx v er s = Fail ctx v er (fe_clock env) (fe_io env) s"
  by (simp_all add: file_job_store_def)

definition file_env_ok :: "file_env \<Rightarrow> bool" where
  "file_env_ok env = (0 < fe_clock env)"

definition record_view :: "fileStoredJob \<Rightarrow> job_view" where
  "record_view r =
     \<lparr>jv_job = r_job r, jv_token = r_reservationToken r, jv_until = r_reservedUntil r,
      jv_failed = (\<not> is_zero_time (r_failedAt r))\<rparr>"

definition file_view :: "FileJobStore \<Rightarrow> string \<Rightarrow> job_view option" where
  "file_view s i = map_option record_view (map_of (fjs_jobs s) i)"

definition file_invar :: "FileJobStore \<Rightarrow> bool" where
  "file_invar s = keyed_jobs (fjs_jobs s)"

lemma file_view_update:
  "fjs_jobs s' = AList.update i r (fjs_jobs s) \<Longrightarrow> file_view s' = (file_view s)(i \<mapsto> record_view r)"
  by (rule ext) (simp add: file_view_def map_of_update)

lemma file_view_delete:
  "fjs_jobs s' = AList.delete i (fjs_jobs s) \<Longrightarrow> file_view s' = (file_view s)(i := None)"
  by (rule ext) (simp add: file_view_def delete_conv')

text \<open>A failed call changes no job; a successful end of a reservation changes the one it names.\<close>

lemma Reserve_error_jobs: "Reserve ctx now lease random io s = (s', Inl e) \<Longrightarrow> fjs_jobs s' = fjs_jobs s"
  by (auto simp: Reserve_def Let_def append_event_frame
      split: if_splits option.splits list.splits sum.splits prod.splits)

lemma finishReservation_error_jobs:
  "finishReservation ctx v e f io s = (s', Inl er) \<Longrightarrow> fjs_jobs s' = fjs_jobs s"
  by (auto simp: finishReservation_def Let_def append_event_frame
      split: if_splits option.splits sum.splits prod.splits)

lemma finishReservation_ok:
  assumes "keyed_jobs (fjs_jobs s)" "finishReservation ctx v e f io s = (s', Inr u)"
  obtains r where "map_of (fjs_jobs s) (ID (Job v)) = Some r" "r_reservationToken r = Token v"
    "Token v \<noteq> []" "ID (r_job r) = ID (Job v)"
    "fjs_jobs s' = (if snd (f r) then AList.update (ID (Job v)) (fst (f r)) (fjs_jobs s)
                    else AList.delete (ID (Job v)) (fjs_jobs s))"
  using assms keyed_jobs_lookup [OF assms(1)]
  by (auto simp: finishReservation_def Let_def append_event_ok_iff
      split: if_splits option.splits sum.splits prod.splits)

lemma Release_error_jobs: "Release ctx v t er io s = (s', Inl e) \<Longrightarrow> fjs_jobs s' = fjs_jobs s"
  by (auto simp: Release_def Let_def split: if_splits dest: finishReservation_error_jobs)

interpretation file_jobs: job_store file_job_store file_env_ok file_view file_invar "\<lambda>t. t"
proof (unfold_locales, goal_cases)
  case (1 s env ctx now lease s' v)
  then have kj: "keyed_jobs (fjs_jobs s)" by (simp add: file_invar_def)
  from 1(2) show ?case
    unfolding file_job_store_sel
  proof (rule Reserve_success [OF kj], goal_cases)
    case (1 r b)
    let ?r = "reserved_record now lease (hex_encode b) r"
    have job: "Job v = r_job ?r" "Token v = hex_encode b" "ReservedUntil v = now + lease"
      using 1 by (simp_all add: reservationFromFileRecord_def)
    have "file_view s' = (file_view s)(ID (Job v) \<mapsto> record_view ?r)"
      using file_view_update [OF 1(7)] job by simp
    moreover have "leases_recovered now (file_view s) (file_view s)" by (simp add: leases_recovered_def)
    moreover have "file_invar s'" using 1 kj by (simp add: file_invar_def inv_intros)
    moreover have "file_view s' = (file_view s)(ID (Job v) \<mapsto> record_view ?r) \<Longrightarrow> reserved_in (\<lambda>t. t) now (file_view s) v (file_view s')"
      using 1 job
      by (auto simp: reserved_in_def file_view_def record_view_def eligible_def reserved_record_def
          reservationTokenIsEmpty_def)
    ultimately show ?case by blast
  qed
next
  case (2 s env ctx now lease s' e)
  then show ?case using Reserve_error_jobs by (fastforce simp: file_invar_def file_view_def leases_recovered_def)
next
  case (3 s env ctx v s' u)
  then have kj: "keyed_jobs (fjs_jobs s)" by (simp add: file_invar_def)
  from 3(2) show ?case
    unfolding file_job_store_sel Complete_def
  proof (rule finishReservation_ok [OF kj], goal_cases)
    case (1 r)
    then show ?case using kj file_view_delete [of s' "ID (Job v)" s]
      by (auto simp: ended_in_def carried_out_def file_invar_def file_view_def record_view_def inv_intros)
  qed
next
  case (4 s env ctx v s' e)
  then show ?case using finishReservation_error_jobs by (fastforce simp: Complete_def file_invar_def file_view_def)
next
  case (5 s env ctx v t er s' u)
  then have kj: "keyed_jobs (fjs_jobs s)" by (simp add: file_invar_def)
  from 5(2) have "finishReservation ctx v
      ((blank_event ''release'')\<lparr>ev_ID := ID (Job v), ev_Token := Token v,
         ev_AvailableAt := t, ev_Error := normalizeFileJobStoreError er\<rparr>)
      (\<lambda>r. (r\<lparr>r_job := (r_job r)\<lparr>AvailableAt := t\<rparr>, r_reservationToken := [],
         r_reservedUntil := 0, r_lastError := normalizeFileJobStoreError er\<rparr>, True))
      (fe_io env) s = (s', Inr u)"
    by (auto simp: Release_def Let_def split: if_splits)
  then show ?case
  proof (rule finishReservation_ok [OF kj], goal_cases)
    case (1 r)
    then show ?case using kj file_view_update [of s' "ID (Job v)" _ s]
      by (auto simp: ended_in_def carried_out_def file_invar_def file_view_def record_view_def inv_intros)
  qed
next
  case (6 s env ctx v t er s' e)
  then show ?case using Release_error_jobs by (fastforce simp: file_invar_def file_view_def)
next
  case (7 env s ctx v er s' u)
  then have kj: "keyed_jobs (fjs_jobs s)" by (simp add: file_invar_def)
  from 7(3) show ?case
    unfolding file_job_store_sel Fail_def Let_def
  proof (rule finishReservation_ok [OF kj], goal_cases)
    case (1 r)
    then show ?case using kj file_view_update [of s' "ID (Job v)" _ s] 7(1)
      by (auto simp: ended_in_def carried_out_def file_invar_def file_view_def record_view_def inv_intros file_env_ok_def is_zero_time_def)
  qed
next
  case (8 s env ctx v er s' e)
  then show ?case using finishReservation_error_jobs by (fastforce simp: Fail_def Let_def file_invar_def file_view_def)
qed

section \<open>What the queue guarantees\<close>

lemma json_time_ok_zero: "json_time_ok 0"
  by (simp add: json_time_ok_def nanos_per_day_def)

text \<open>A reservation that is still good: the store is open and the job is filed under its token.\<close>

definition holds :: "FileJobStore \<Rightarrow> JobReservation \<Rightarrow> bool" where
  "holds s v =
     (keyed_jobs (fjs_jobs s) \<and> \<not> fjs_closed s \<and> ID (Job v) \<noteq> [] \<and> Token v \<noteq> [] \<and>
      (case map_of (fjs_jobs s) (ID (Job v)) of None \<Rightarrow> False | Some r \<Rightarrow> r_reservationToken r = Token v))"

lemma finishReservation_succeeds:
  assumes "holds s v" "event_encodable e"
  shows "is_ok (ret (finishReservation LiveContext v e f AppendOk s))"
proof -
  from assms(1) obtain r where r: "map_of (fjs_jobs s) (ID (Job v)) = Some r" "r_reservationToken r = Token v"
    "Token v \<noteq> []" "ID (Job v) \<noteq> []" "\<not> fjs_closed s"
    by (auto simp: holds_def split: option.splits)
  with assms(2) show ?thesis
    by (simp add: finishReservation_def ready_def append_event_def append_log_def encode_event_def
        split: prod.splits)
qed

lemma Fail_succeeds: "holds s v \<Longrightarrow> json_time_ok clock \<Longrightarrow> is_ok (ret (Fail LiveContext v er clock AppendOk s))"
  unfolding Fail_def Let_def
  by (rule finishReservation_succeeds) (simp_all add: event_encodable_def json_time_ok_zero)

lemma Complete_succeeds: "holds s v \<Longrightarrow> is_ok (ret (Complete LiveContext v AppendOk s))"
  unfolding Complete_def
  by (rule finishReservation_succeeds) (simp_all add: event_encodable_def json_time_ok_zero)

lemma Release_succeeds:
  "holds s v \<Longrightarrow> json_time_ok t \<Longrightarrow> t \<noteq> 0 \<Longrightarrow> is_ok (ret (Release LiveContext v t er AppendOk s))"
  using finishReservation_succeeds
  by (simp add: Release_def Let_def is_zero_time_def event_encodable_def json_time_ok_zero)

text \<open>
  A store and a queue to evaluate the properties on: one job at its first attempt, reserved under the
  token \<open>t\<close>, whose handler always fails and may be tried three times.
\<close>

definition sample_handler :: "handler_outcome \<Rightarrow> string jobHandlerEntry" where
  "sample_handler outcome =
     \<lparr>h_jobType = ''T'', h_name = ''h'', h_options = \<lparr>MaxAttempts = 3, RetryBackoff = 10\<rparr>,
      h_handle = \<lambda>_ _. outcome, h_encode = Some, h_decode = Some\<rparr>"

definition sample_queue :: "handler_outcome \<Rightarrow> string JobQueue" where
  "sample_queue outcome =
     \<lparr>q_options = DefaultJobQueueOptions\<lparr>HasStore := True, JobTimeout := 900, LeaseDuration := 1000\<rparr>, q_handlers = [(''T'', sample_handler outcome)],
      q_handlersByName = [(''h'', sample_handler outcome)], q_state = jobQueueRunning\<rparr>"

definition sample_job :: StoredJob where
  "sample_job = \<lparr>ID = ''a'', Handler = ''h'', Payload = ''1'', AvailableAt = 5, EnqueuedAt = 5, Attempts = 1\<rparr>"

definition sample_record :: fileStoredJob where
  "sample_record =
     \<lparr>r_job = sample_job, r_reservationToken = ''t'', r_reservedUntil = 50, r_failedAt = 0, r_lastError = []\<rparr>"

definition sample_store :: FileJobStore where
  "sample_store =
     \<lparr>fjs_path = ''q'', fjs_maxJobs = 10, fjs_maxPayloadBytes = 100, fjs_file = empty_log,
      fjs_jobs = [(''a'', sample_record)], fjs_closed = False\<rparr>"

definition sample_reservation :: JobReservation where
  "sample_reservation = \<lparr>Job = sample_job, Token = ''t'', ReservedUntil = 50\<rparr>"

definition sample_env :: file_env where
  "sample_env = \<lparr>fe_random = Some (replicate 32 CHR ''x''), fe_reserve_io = AppendOk, fe_io = AppendOk, fe_clock = 60\<rparr>"

lemmas sample_defs = sample_handler_def sample_queue_def sample_job_def sample_record_def sample_store_def
  sample_reservation_def sample_env_def

text \<open>
  C7. However many turns the workers take, whatever fails and whichever leases expire, the handler of
  a stored job runs at most as often as the job has attempts left: a job at attempt \<open>a\<close> whose
  handler allows \<open>m\<close> attempts runs at most \<open>m - a\<close> more times.
\<close>

theorem worker_runs_bounded:
  assumes "keyed_jobs (fjs_jobs s)" "map_of (fjs_jobs s) i = Some r" "0 \<le> Attempts (r_job r)"
    "map_of (q_handlersByName q) (Handler (r_job r)) = Some h"
    "Attempts (r_job r) + int (length turns) < 2 ^ 63" "list_all (\<lambda>t. 0 < fe_clock (fst t)) turns"
  shows "int (count_list (snd (worker_run file_job_store render q turns s)) i)
    \<le> max 0 (MaxAttempts (h_options h) - Attempts (r_job r))"
  using file_jobs.runs_bounded [of s i "record_view r" q h turns render] assms
  by (simp add: file_invar_def file_view_def record_view_def file_env_ok_def)

theorem worker_runs_bounded_witness:
  "count_list (snd (worker_run file_job_store (\<lambda>_. ''e'') (sample_queue (HandlerFails ''no''))
     (replicate 5 (sample_env, LiveContext, 100, 0, 100)) sample_store)) ''a'' \<le> 2"
proof -
  have "keyed_jobs (fjs_jobs sample_store)" "map_of (fjs_jobs sample_store) ''a'' = Some sample_record"
    "0 \<le> Attempts (r_job sample_record)"
    "map_of (q_handlersByName (sample_queue (HandlerFails ''no''))) (Handler (r_job sample_record)) =
      Some (sample_handler (HandlerFails ''no''))"
    by (simp_all add: sample_defs keyed_jobs_def gomap_wf_def)
  note bound = worker_runs_bounded [OF this, of "replicate 5 (sample_env, LiveContext, 100, 0, 100)" "\<lambda>_. ''e''"]
  have "MaxAttempts (h_options (sample_handler (HandlerFails ''no''))) = 3" "Attempts (r_job sample_record) = 1"
    "fe_clock sample_env = 60"
    by (simp_all add: sample_defs)
  with bound show ?thesis by (simp add: list_all_iff)
qed

text \<open>
  C8. Executing a reserved job on a working store does to it what the specification \<open>decide\<close>
  says, and nothing to any other job: it is removed when the handler succeeds, freed for
  \<open>clock + RetryBackoff\<close> when it fails with attempts left, and otherwise kept as failed and
  reported once.
\<close>

theorem executePersistent_carries_out:
  assumes "holds s v" "0 < fe_clock env" "json_time_ok (fe_clock env)" "fe_io env = AppendOk"
    "\<And>t. decide hs v call clock = TryAgain t \<Longrightarrow> json_time_ok t \<and> t \<noteq> 0"
    "file_view s (ID (Job v)) = Some j"
    "executePersistent file_job_store env render hs v call clock s = (s', did, fs)"
  shows "file_view s' = (file_view s)(ID (Job v) := carried_out (\<lambda>t. t) (decide hs v call clock) j) \<and>
    fs = (case decide hs v call clock of
            Buried e \<Rightarrow> [store_failure v (map_of hs (Handler (Job v))) e] | _ \<Rightarrow> [])"
proof (rule file_jobs.executePersistent_decides [OF _ _ assms(6) _ _ _ assms(7)])
  show "file_invar s" using assms(1) by (simp add: holds_def file_invar_def)
  show "file_env_ok env" using assms(2) by (simp add: file_env_ok_def)
  show "is_ok (ret (js_Complete file_job_store env LiveContext v s))"
    using Complete_succeeds [OF assms(1)] assms(4) by simp
  show "is_ok (ret (js_Fail file_job_store env LiveContext v er s))" for er
    using Fail_succeeds [OF assms(1,3)] assms(4) by simp
  show "is_ok (ret (js_Release file_job_store env LiveContext v t er s))"
    if "decide hs v call clock = TryAgain t" for t er
    using Release_succeeds [OF assms(1)] assms(4) assms(5) [OF that] by simp
qed

lemma sample_decide: "decide (q_handlersByName (sample_queue (HandlerFails ''no''))) sample_reservation 1 60 = TryAgain 70"
  by (simp add: sample_defs decide_def executeAttempt_def)

theorem executePersistent_carries_out_witness:
  "map_option (\<lambda>j. (AvailableAt (jv_job j), jv_token j, jv_failed j))
     (file_view (fst (executePersistent file_job_store sample_env (\<lambda>_. ''e'')
       (q_handlersByName (sample_queue (HandlerFails ''no''))) sample_reservation 1 60 sample_store)) ''a'') =
     Some (70, [], False)"
proof -
  let ?hs = "q_handlersByName (sample_queue (HandlerFails ''no''))"
  obtain s' did fs where x: "executePersistent file_job_store sample_env (\<lambda>_. ''e'') ?hs sample_reservation 1 60
      sample_store = (s', did, fs)"
    by (metis prod_cases3)
  have h: "holds sample_store sample_reservation"
    by (simp add: sample_defs holds_def keyed_jobs_def gomap_wf_def)
  have f: "file_view sample_store (ID (Job sample_reservation)) = Some (record_view sample_record)"
    "ID (Job sample_reservation) = ''a''"
    by (simp_all add: sample_defs file_view_def)
  have t: "json_time_ok 60" "json_time_ok 70" by (simp_all add: json_time_ok_def nanos_per_day_def)
  have e: "fe_clock sample_env = 60" "fe_io sample_env = AppendOk" by (simp_all add: sample_env_def)
  have "file_view s' = (file_view sample_store)(ID (Job sample_reservation) :=
      carried_out (\<lambda>t. t) (TryAgain 70) (record_view sample_record))"
    using executePersistent_carries_out [OF h _ _ e(2) _ f(1) x] t by (simp add: sample_decide e)
  then show ?thesis
    unfolding x by (simp add: f carried_out_def record_view_def sample_record_def is_zero_time_def)
qed

text \<open>
  C9. No job is lost: in a turn of a worker, whatever the store's file does, a job disappears from the
  store only if the worker reserved it in that turn and its handler returned without an error.
\<close>

theorem job_removed_only_after_success:
  assumes "keyed_jobs (fjs_jobs s)" "0 < fe_clock env" "map_of (fjs_jobs s) i = Some r"
    "workPersistent_turn file_job_store env render q ctx now call clock s = (s', v, did, fs)"
    "map_of (fjs_jobs s') i = None"
  shows "\<exists>w. v = Some w \<and> ID (Job w) = i \<and> did \<and> decide (q_handlersByName q) w call clock = Finished"
  using file_jobs.turn_removes [OF _ _ assms(4), of i "record_view r"] assms
  by (simp add: file_invar_def file_view_def file_env_ok_def)

lemma sample_reserve:
  "\<exists>s1 w. Reserve LiveContext 100 1000 (fe_random sample_env) AppendOk sample_store = (s1, Inr w) \<and>
     holds s1 w \<and> Job w = sample_job\<lparr>Attempts := 2\<rparr>"
proof -
  obtain tok where tok: "newJobIdentifier (fe_random sample_env) = Inr tok" by (simp add: sample_env_def newJobIdentifier_def)
  then have "validJobIdentifier tok"
    by (intro newJobIdentifier_valid [of "replicate 32 CHR ''x''"]) (simp_all add: sample_env_def jobIdentifierBytes_def)
  note tok = tok validJobIdentifier_nonempty [OF this]
  have t: "json_time_ok 1100" "json_time_ok 0" by (simp_all add: json_time_ok_def nanos_per_day_def)
  have pick: "eligible 100 sample_record"
    by (simp add: sample_store_def sample_record_def sample_job_def eligible_def is_zero_time_def)
  have s: "r_job sample_record = sample_job" "ID sample_job = ''a''" "Attempts sample_job = 1"
    "\<not> fjs_closed sample_store" "fjs_jobs sample_store = [(''a'', sample_record)]"
    by (simp_all add: sample_defs)
  show ?thesis
    by (simp add: Reserve_def is_zero_time_def ready_def pick tok append_event_def append_log_def
        encode_event_def event_encodable_def t s holds_def reservationFromFileRecord_def keyed_jobs_def gomap_wf_def Let_def)
qed

lemma sample_turn:
  "\<exists>s' v did fs. workPersistent_turn file_job_store sample_env (\<lambda>_. ''e'') (sample_queue HandlerOk) LiveContext 100 1 100
     sample_store = (s', v, did, fs) \<and> map_of (fjs_jobs s') ''a'' = None"
proof -
  obtain s1 w where w: "Reserve LiveContext 100 1000 (fe_random sample_env) AppendOk sample_store = (s1, Inr w)"
    "holds s1 w" "Job w = sample_job\<lparr>Attempts := 2\<rparr>"
    using sample_reserve by blast
  let ?hs = "q_handlersByName (sample_queue HandlerOk)"
  obtain s' did fs where ex: "executePersistent file_job_store sample_env (\<lambda>_. ''e'') ?hs w 1 100 s1 = (s', did, fs)"
    by (metis prod_cases3)
  have d: "decide ?hs w 1 100 = Finished" by (simp add: decide_def w sample_defs executeAttempt_def)
  from executePersistent_branch [OF ex] obtain r
    where c: "Complete LiveContext w AppendOk s1 = (s', r)" by (auto simp: d sample_env_def)
  with Complete_succeeds [OF w(2)] obtain u where "r = Inr u" by (auto simp: is_ok_iff)
  with file_jobs.complete_ok [of s1 sample_env LiveContext w s' u] c w
  have "file_view s' ''a'' = None" by (auto simp: holds_def file_invar_def sample_env_def sample_job_def ended_in_def carried_out_def)
  with ex w(1) show ?thesis
    by (simp add: workPersistent_turn_def file_view_def sample_env_def sample_queue_def)
qed

theorem job_removed_only_after_success_witness:
  "\<exists>w. fst (snd (workPersistent_turn file_job_store sample_env (\<lambda>_. ''e'') (sample_queue HandlerOk) LiveContext 100 1 100
       sample_store)) = Some w \<and> ID (Job w) = ''a'' \<and>
     decide (q_handlersByName (sample_queue HandlerOk)) w 1 100 = Finished"
proof -
  obtain s' v did fs where t: "workPersistent_turn file_job_store sample_env (\<lambda>_. ''e'') (sample_queue HandlerOk)
      LiveContext 100 1 100 sample_store = (s', v, did, fs)" "map_of (fjs_jobs s') ''a'' = None"
    using sample_turn by blast
  have "keyed_jobs (fjs_jobs sample_store)" "0 < fe_clock sample_env"
    "map_of (fjs_jobs sample_store) ''a'' = Some sample_record"
    by (simp_all add: sample_defs keyed_jobs_def gomap_wf_def)
  from job_removed_only_after_success [OF this t] show ?thesis unfolding t by auto
qed

end
