(* ===== verification/GoStrings.thy ===== *)
theory GoStrings
  imports GoText
begin

text \<open>
  More of Go's \<open>strings\<close> and \<open>strconv\<close> packages on byte strings: \<open>Split\<close> and \<open>Contains\<close> for a
  separator of one byte, \<open>Fields\<close>, \<open>ToUpper\<close>, \<open>ToLower\<close> and \<open>Atoi\<close>.
\<close>

section \<open>Splitting\<close>

fun split_on :: "char \<Rightarrow> string \<Rightarrow> string list" where
  "split_on sep [] = [[]]"
| "split_on sep (c # s) =
     (if c = sep then [] # split_on sep s
      else case split_on sep s of [] \<Rightarrow> [[c]] | w # ws \<Rightarrow> (c # w) # ws)"

lemma split_on_not_Nil [simp]: "split_on sep s \<noteq> []"
  by (cases s) (auto split: list.splits)

lemma split_on_absent: "sep \<notin> set s \<Longrightarrow> split_on sep s = [s]"
  by (induction s) auto

lemma split_on_append: "sep \<notin> set w \<Longrightarrow> split_on sep (w @ sep # s) = w # split_on sep s"
  by (induction w) auto

text \<open>The runs of bytes between white-space runes.\<close>

definition flush_field :: "string \<Rightarrow> string list \<Rightarrow> string list" where
  "flush_field word rest = (if word = [] then rest else word # rest)"

function fields_from :: "string \<Rightarrow> string \<Rightarrow> string list" where
  "fields_from word s =
     (if s = [] then flush_field word []
      else if 0 < space_first s then flush_field word (fields_from [] (drop (space_first s) s))
      else fields_from (word @ take (fst (decode_rune s)) s) (drop (fst (decode_rune s)) s))"
  by pat_completeness auto
termination
proof (relation "measure (\<lambda>(w, s). length s)", goal_cases)
  case (3 w s)
  then show ?case using decode_rune_pos[of s] by (cases s) auto
qed auto

declare fields_from.simps [simp del]

definition go_fields :: "string \<Rightarrow> string list" where
  "go_fields s = fields_from [] s"

section \<open>Case\<close>

text \<open>
  ASCII strings are mapped byte by byte. For the others Go maps each rune by the Unicode tables;
  that mapping is the argument \<open>unicode\<close>.
\<close>

definition is_ascii :: "string \<Rightarrow> bool" where
  "is_ascii s = list_all (\<lambda>c. byte c < 128) s"

definition upper_byte :: "char \<Rightarrow> char" where
  "upper_byte c = (if 97 \<le> byte c \<and> byte c \<le> 122 then char_of (byte c - 32) else c)"

definition lower_byte :: "char \<Rightarrow> char" where
  "lower_byte c = (if 65 \<le> byte c \<and> byte c \<le> 90 then char_of (byte c + 32) else c)"

definition to_upper :: "(string \<Rightarrow> string) \<Rightarrow> string \<Rightarrow> string" where
  "to_upper unicode s = (if is_ascii s then map upper_byte s else unicode s)"

definition to_lower :: "(string \<Rightarrow> string) \<Rightarrow> string \<Rightarrow> string" where
  "to_lower unicode s = (if is_ascii s then map lower_byte s else unicode s)"

section \<open>Numbers\<close>

definition is_digit :: "char \<Rightarrow> bool" where
  "is_digit c = (48 \<le> byte c \<and> byte c \<le> 57)"

fun digits_value :: "int \<Rightarrow> string \<Rightarrow> int" where
  "digits_value acc [] = acc"
| "digits_value acc (c # s) = digits_value (10 * acc + (int (byte c) - 48)) s"

text \<open>\<open>strconv.Atoi\<close>: an optional sign, decimal digits, and a value that fits 64 bits.\<close>

definition atoi :: "string \<Rightarrow> int option" where
  "atoi s =
     (let (neg, ds) = (case s of [] \<Rightarrow> (False, []) | c # t \<Rightarrow> if byte c = 45 then (True, t) else if byte c = 43 then (False, t) else (False, s));
          v = (if neg then - digits_value 0 ds else digits_value 0 ds)
      in if ds \<noteq> [] \<and> list_all is_digit ds \<and> - (2 ^ 63) \<le> v \<and> v < 2 ^ 63 then Some v else None)"

lemma atoi_range: "atoi s = Some v \<Longrightarrow> - (2 ^ 63) \<le> v \<and> v < 2 ^ 63"
  by (auto simp: atoi_def Let_def split: prod.splits if_splits)


text \<open>\<open>strconv.FormatUint\<close> in base ten.\<close>

fun decimal :: "nat \<Rightarrow> string" where
  "decimal n = (if n < 10 then [char_of (48 + n)] else decimal (n div 10) @ [char_of (48 + n mod 10)])"

declare decimal.simps [simp del]

lemma decimal_not_Nil [simp]: "decimal n \<noteq> []"
  by (subst decimal.simps) auto

lemma decimal_digits: "list_all is_digit (decimal n)"
proof (induction n rule: decimal.induct)
  case (1 n)
  have "byte (char_of (48 + n mod 10)) = 48 + n mod 10" by (simp add: of_char_of)
  then show ?case using 1 by (subst decimal.simps) (auto simp: is_digit_def list_all_iff of_char_of)
qed

lemma digits_value_append: "digits_value acc (s @ [c]) = 10 * digits_value acc s + (int (byte c) - 48)"
  by (induction s arbitrary: acc) auto

lemma digits_value_decimal: "digits_value 0 (decimal n) = int n"
proof (induction n rule: decimal.induct)
  case (1 n)
  have "10 * int (n div 10) + int (n mod 10) = int n" by presburger
  moreover have "n mod 10 + 48 < 256" by simp
  ultimately show ?case using 1 by (subst decimal.simps) (auto simp: digits_value_append of_char_of)
qed

lemma decimal_clean: "c \<in> set (decimal n) \<Longrightarrow> 48 \<le> byte c \<and> byte c \<le> 57"
  using decimal_digits[of n] by (auto simp: list_all_iff is_digit_def)

lemma atoi_decimal: "int n < 2 ^ 63 \<Longrightarrow> atoi (decimal n) = Some (int n)"
proof -
  assume n: "int n < 2 ^ 63"
  obtain c t where ct: "decimal n = c # t" by (cases "decimal n") auto
  then have "48 \<le> byte c" using decimal_clean[of c n] by simp
  then show ?thesis using n decimal_digits[of n] digits_value_decimal[of n] unfolding atoi_def ct by auto
qed


lemma decimal_not_in: "byte c < 48 \<or> 57 < byte c \<Longrightarrow> c \<notin> set (decimal n)"
  using decimal_clean[of c n] by auto


lemma decimal_value_inj: "decimal m = decimal n \<Longrightarrow> m = n"
  by (metis digits_value_decimal of_nat_eq_iff)

text \<open>\<open>strconv.ParseUint\<close> in base ten and 64 bits: decimal digits only.\<close>

definition parse_uint :: "string \<Rightarrow> int option" where
  "parse_uint s =
     (if s \<noteq> [] \<and> list_all is_digit s \<and> digits_value 0 s < 2 ^ 64 then Some (digits_value 0 s) else None)"

lemma parse_uint_decimal: "int n < 2 ^ 64 \<Longrightarrow> parse_uint (decimal n) = Some (int n)"
  by (simp add: parse_uint_def decimal_digits digits_value_decimal)

text \<open>\<open>strings.Cut\<close> at the first occurrence of one byte.\<close>

fun cut_at :: "char \<Rightarrow> string \<Rightarrow> string \<times> string \<times> bool" where
  "cut_at sep [] = ([], [], False)"
| "cut_at sep (c # s) = (if c = sep then ([], s, True) else case cut_at sep s of (a, b, ok) \<Rightarrow> (c # a, b, ok))"

lemma cut_at_found: "sep \<notin> set w \<Longrightarrow> cut_at sep (w @ sep # s) = (w, s, True)"
  by (induction w) auto

end
