(* ===== verification/UnixMicro.thy ===== *)
theory UnixMicro
  imports GoStrings
begin

text \<open>
  Times as the remote stores keep them: microseconds since 1970, as numbers or as decimal texts.
\<close>

section \<open>Times and numbers\<close>

text \<open>Microseconds since 1970 and back; \<open>UnixMicro\<close> rounds down, and is specified for the years in which the result has 64 bits.\<close>

definition unix_epoch :: instant where
  "unix_epoch = 62135596800 * 10 ^ 9"

definition unix_micro :: "instant \<Rightarrow> int" where
  "unix_micro t = (t - unix_epoch) div 1000"

definition time_unix_micro :: "int \<Rightarrow> instant" where
  "time_unix_micro n = unix_epoch + 1000 * n"

text \<open>What is kept of a time in whole microseconds.\<close>

definition whole_micros :: "instant \<Rightarrow> instant" where
  "whole_micros t = time_unix_micro (unix_micro t)"

lemma whole_micros_alt: "whole_micros t = 1000 * (t div 1000)"
proof -
  have "(t + 1000 * - 62135596800000000) div 1000 = - 62135596800000000 + t div 1000" by (rule div_mult_self2) simp
  then show ?thesis unfolding whole_micros_def time_unix_micro_def unix_micro_def unix_epoch_def by simp
qed

lemma whole_micros_le: "whole_micros t \<le> t" "t < whole_micros t + 1000"
  by (simp_all add: whole_micros_alt)

lemma whole_micros_le_iff: "whole_micros a \<le> b \<longleftrightarrow> whole_micros a \<le> whole_micros b"
proof -
  define A B m where "A = a div 1000" and "B = b div 1000" and "m = b mod 1000"
  then have "b = 1000 * B + m" "0 \<le> m" "m < 1000" by simp_all
  then have "1000 * A \<le> b \<longleftrightarrow> A \<le> B" by (intro iffI) linarith+
  then show ?thesis by (simp add: whole_micros_alt A_def B_def)
qed

lemma whole_micros_id_iff: "whole_micros t = t \<longleftrightarrow> t mod 1000 = 0"
  unfolding whole_micros_alt using minus_mult_div_eq_mod [of t 1000] by auto

lemma micros_before: "n \<le> unix_micro t \<Longrightarrow> time_unix_micro n \<le> t"
  using whole_micros_le(1) [of t] by (simp add: time_unix_micro_def whole_micros_def)

text \<open>\<open>strconv.FormatInt\<close> in base ten, which \<open>strconv.ParseInt\<close> and Lua's \<open>tonumber\<close> read.\<close>

definition format_int :: "int \<Rightarrow> string" where
  "format_int n = (if n < 0 then CHR ''-'' # decimal (nat (- n)) else decimal (nat n))"

lemma atoi_format_int: "- (2 ^ 63) \<le> n \<Longrightarrow> n < 2 ^ 63 \<Longrightarrow> atoi (format_int n) = Some n"
  by (cases "n < 0") (auto simp: format_int_def atoi_decimal, simp add: atoi_def decimal_digits digits_value_decimal)

lemma format_int_not_Nil [simp]: "format_int n \<noteq> []"
  by (simp add: format_int_def)

text \<open>Such texts are digits after an optional sign.\<close>

lemma digits_ascii: "list_all is_digit s \<Longrightarrow> list_all (\<lambda>c. byte c < 128) s"
  by (auto simp: list_all_iff is_digit_def)

lemma not_digit_minus [simp]: "\<not> is_digit (CHR ''-'')"
  by (simp add: is_digit_def)

lemma format_int_digits:
  obtains (positive) "format_int n = decimal (nat n)" "0 \<le> n" | (negative) "format_int n = CHR ''-'' # decimal (nat (- n))" "n < 0"
  by (cases "n < 0") (auto simp: format_int_def)

lemma format_int_ascii: "list_all (\<lambda>c. byte c < 128) (format_int n)"
  by (rule format_int_digits [of n]) (simp_all add: digits_ascii [OF decimal_digits])

end
