(* ===== verification/SqlDatabase.thy ===== *)
theory SqlDatabase
  imports UnixMicro
begin

text \<open>
  What the SQL stores use of a database. The database is not part of the program: its statements on one table are the fields of the record
  \<open>sql\<close>, an argument of the operations, and what the SQL standard says of them is \<open>sql_table\<close>. A condition on a row is a
  predicate, in which a comparison with \<open>NULL\<close> is false; texts are compared by their bytes. A statement runs without
  interruption; several statements do not, so what a query saw may be out of date.
\<close>

record ('d, 'row) sql =
  SELECT :: "('row \<Rightarrow> bool) \<Rightarrow> 'd \<Rightarrow> 'row list"
  INSERT :: "'row \<Rightarrow> 'd \<Rightarrow> 'd option"
  UPDATE :: "('row \<Rightarrow> 'row) \<Rightarrow> ('row \<Rightarrow> bool) \<Rightarrow> 'd \<Rightarrow> 'd \<times> nat"
  DELETE :: "('row \<Rightarrow> bool) \<Rightarrow> 'd \<Rightarrow> 'd \<times> nat"

definition rows :: "('d, 'row) sql \<Rightarrow> 'd \<Rightarrow> 'row set" where
  "rows D d = set (SELECT D (\<lambda>_. True) d)"

text \<open>
  \<open>pk\<close> is the primary key. \<open>INSERT\<close> is \<open>None\<close> when the key exists. Databases count the rows that an \<open>UPDATE\<close> matched, or those of
  them that it changed.
\<close>

definition sql_table :: "('row \<Rightarrow> string) \<Rightarrow> ('d, 'row) sql \<Rightarrow> bool" where
  "sql_table pk D =
     ((\<forall>P d. set (SELECT D P d) = {r \<in> rows D d. P r}) \<and>
      (\<forall>d. inj_on pk (rows D d)) \<and>
      (\<forall>r d. case INSERT D r d of
          None \<Rightarrow> \<exists>q \<in> rows D d. pk q = pk r
        | Some d' \<Rightarrow> (\<forall>q \<in> rows D d. pk q \<noteq> pk r) \<and> rows D d' = insert r (rows D d)) \<and>
      (\<forall>f P d. (\<forall>r. pk (f r) = pk r) \<longrightarrow>
         rows D (fst (UPDATE D f P d)) = (\<lambda>r. if P r then f r else r) ` rows D d) \<and>
      (\<forall>f P d. card {r \<in> rows D d. P r \<and> f r \<noteq> r} \<le> snd (UPDATE D f P d) \<and> snd (UPDATE D f P d) \<le> card {r \<in> rows D d. P r}) \<and>
      (\<forall>P d. rows D (fst (DELETE D P d)) = {r \<in> rows D d. \<not> P r} \<and> snd (DELETE D P d) = card {r \<in> rows D d. P r}))"

lemma sql_select:
  assumes "sql_table pk D"
  shows "set (SELECT D P d) = {r \<in> rows D d. P r}"
  by (rule assms [unfolded sql_table_def, THEN conjunct1, THEN spec, THEN spec])

lemma sql_keys:
  assumes "sql_table pk D"
  shows "inj_on pk (rows D d)"
  by (rule assms [unfolded sql_table_def, THEN conjunct2, THEN conjunct1, THEN spec])

lemma sql_insert:
  assumes "sql_table pk D"
  shows "case INSERT D r d of
      None \<Rightarrow> \<exists>q \<in> rows D d. pk q = pk r
    | Some d' \<Rightarrow> (\<forall>q \<in> rows D d. pk q \<noteq> pk r) \<and> rows D d' = insert r (rows D d)"
  by (rule assms [unfolded sql_table_def, THEN conjunct2, THEN conjunct2, THEN conjunct1, THEN spec, THEN spec])

lemma sql_update:
  assumes "sql_table pk D"
  shows "(\<And>r. pk (f r) = pk r) \<Longrightarrow> rows D (fst (UPDATE D f P d)) = (\<lambda>r. if P r then f r else r) ` rows D d"
    "card {r \<in> rows D d. P r \<and> f r \<noteq> r} \<le> snd (UPDATE D f P d)" "snd (UPDATE D f P d) \<le> card {r \<in> rows D d. P r}"
proof -
  note laws = assms [unfolded sql_table_def, THEN conjunct2, THEN conjunct2, THEN conjunct2]
  show "rows D (fst (UPDATE D f P d)) = (\<lambda>r. if P r then f r else r) ` rows D d" if "\<And>r. pk (f r) = pk r"
    by (rule laws [THEN conjunct1, THEN spec, THEN spec, THEN spec, THEN mp]) (simp add: that)
  note count = laws [THEN conjunct2, THEN conjunct1, THEN spec, THEN spec, THEN spec]
  show "card {r \<in> rows D d. P r \<and> f r \<noteq> r} \<le> snd (UPDATE D f P d)" by (rule count [THEN conjunct1])
  show "snd (UPDATE D f P d) \<le> card {r \<in> rows D d. P r}" by (rule count [THEN conjunct2])
qed

lemma sql_delete:
  assumes "sql_table pk D"
  shows "rows D (fst (DELETE D P d)) = {r \<in> rows D d. \<not> P r}" "snd (DELETE D P d) = card {r \<in> rows D d. P r}"
  by (rule assms [unfolded sql_table_def, THEN conjunct2, THEN conjunct2, THEN conjunct2, THEN conjunct2, THEN conjunct2,
      THEN spec, THEN spec, THEN conjunct1]
    assms [unfolded sql_table_def, THEN conjunct2, THEN conjunct2, THEN conjunct2, THEN conjunct2, THEN conjunct2,
      THEN spec, THEN spec, THEN conjunct2])+

section \<open>Rows by key\<close>

definition row_at :: "('row \<Rightarrow> string) \<Rightarrow> ('d, 'row) sql \<Rightarrow> 'd \<Rightarrow> string \<Rightarrow> 'row option" where
  "row_at pk D d k = map_of (map (\<lambda>r. (pk r, r)) (SELECT D (\<lambda>_. True) d)) k"

lemma row_at_iff:
  assumes "sql_table pk D"
  shows "row_at pk D d k = Some r \<longleftrightarrow> r \<in> rows D d \<and> pk r = k"
proof
  assume "row_at pk D d k = Some r"
  then show "r \<in> rows D d \<and> pk r = k" by (auto simp: row_at_def rows_def dest: map_of_SomeD)
next
  assume r: "r \<in> rows D d \<and> pk r = k"
  then have "k \<in> fst ` set (map (\<lambda>r. (pk r, r)) (SELECT D (\<lambda>_. True) d))" by (force simp: rows_def)
  then obtain q where q: "row_at pk D d k = Some q" unfolding row_at_def by (metis map_of_eq_None_iff not_None_eq)
  then have "q \<in> rows D d \<and> pk q = k" by (auto simp: row_at_def rows_def dest: map_of_SomeD)
  with r sql_keys [OF assms, of d] have "q = r" by (auto simp: inj_on_def)
  with q show "row_at pk D d k = Some r" by simp
qed

lemma row_at_None: "sql_table pk D \<Longrightarrow> row_at pk D d k = None \<longleftrightarrow> (\<forall>r \<in> rows D d. pk r \<noteq> k)"
  using row_at_iff [of pk D d k] by (metis not_None_eq)

lemma rows_row_at: "sql_table pk D \<Longrightarrow> rows D d = {r. row_at pk D d (pk r) = Some r}"
  using row_at_iff [of pk D d] by blast

lemma row_at_eqI:
  assumes "sql_table pk D" "\<And>r. r \<in> rows D d' \<longleftrightarrow> m (pk r) = Some r" "\<And>k r. m k = Some r \<Longrightarrow> pk r = k"
  shows "row_at pk D d' = m"
proof (rule ext, rule option.expand)
  fix k
  show "(row_at pk D d' k = None) = (m k = None)" using assms row_at_iff [OF assms(1), of d' k] by (metis not_None_eq)
  show "row_at pk D d' k \<noteq> None \<Longrightarrow> m k \<noteq> None \<Longrightarrow> the (row_at pk D d' k) = the (m k)"
    using assms row_at_iff [OF assms(1), of d' k] by (metis option.exhaust_sel option.inject)
qed

text \<open>The statements on the row of one key.\<close>

lemma row_at_insert:
  assumes "sql_table pk D" "INSERT D r d = Some d'"
  shows "row_at pk D d (pk r) = None" "row_at pk D d' = (row_at pk D d)(pk r \<mapsto> r)"
proof -
  have i: "(\<forall>q \<in> rows D d. pk q \<noteq> pk r) \<and> rows D d' = insert r (rows D d)"
    using sql_insert [OF assms(1), where r = r and d = d] assms(2) by simp
  then show "row_at pk D d (pk r) = None" by (simp add: row_at_None [OF assms(1)])
  show "row_at pk D d' = (row_at pk D d)(pk r \<mapsto> r)"
  proof (rule row_at_eqI [OF assms(1)])
    show "q \<in> rows D d' \<longleftrightarrow> ((row_at pk D d)(pk r \<mapsto> r)) (pk q) = Some q" for q
      using i row_at_iff [OF assms(1), of d "pk q" q] by auto
    show "((row_at pk D d)(pk r \<mapsto> r)) k = Some q \<Longrightarrow> pk q = k" for k q
      using row_at_iff [OF assms(1)] by (auto split: if_splits)
  qed
qed

lemma row_at_insert_None: "sql_table pk D \<Longrightarrow> INSERT D r d = None \<Longrightarrow> \<exists>q. row_at pk D d (pk r) = Some q"
  using sql_insert [of pk D, where r = r and d = d] row_at_None [of pk D d "pk r"] by (cases "row_at pk D d (pk r)") auto

lemma row_at_unique: "sql_table pk D \<Longrightarrow> row_at pk D d k = Some r \<Longrightarrow> q \<in> rows D d \<Longrightarrow> pk q = k \<Longrightarrow> q = r"
  using row_at_iff [of pk D d k q] by simp

lemma key_rows:
  assumes "sql_table pk D" "\<And>r. P r \<Longrightarrow> pk r = k"
  shows "{r \<in> rows D d. P r} = (case row_at pk D d k of None \<Rightarrow> {} | Some r \<Rightarrow> if P r then {r} else {})"
proof (cases "row_at pk D d k")
  case None
  then have "\<forall>r \<in> rows D d. pk r \<noteq> k" using row_at_None [OF assms(1)] by blast
  then show ?thesis using assms(2) unfolding None option.case by blast
next
  case (Some r)
  then have r: "r \<in> rows D d" using row_at_iff [OF assms(1)] by blast
  have u: "q = r" if "q \<in> rows D d \<and> P q" for q
    using row_at_unique [OF assms(1) Some conjunct1 [OF that]] assms(2) [OF conjunct2 [OF that]] by blast
  show ?thesis
  proof (cases "P r")
    case True
    with r u have "{r \<in> rows D d. P r} = {r}" by blast
    then show ?thesis by (simp add: Some True)
  next
    case False
    with u have "{r \<in> rows D d. P r} = {}" by blast
    then show ?thesis by (simp add: Some False)
  qed
qed

lemma card_key_rows:
  assumes "sql_table pk D" "\<And>r. P r \<Longrightarrow> pk r = k"
  shows "card {r \<in> rows D d. P r} = card (case row_at pk D d k of None \<Rightarrow> {} | Some r \<Rightarrow> if P r then {r} else {})"
  by (rule arg_cong [where f = card]) (rule key_rows [OF assms])

lemma row_at_update:
  assumes T: "sql_table pk D" and P: "\<And>r. P r \<Longrightarrow> pk r = k" and f: "\<And>r. pk (f r) = pk r"
  shows "row_at pk D (fst (UPDATE D f P d)) =
    (case row_at pk D d k of None \<Rightarrow> row_at pk D d | Some r \<Rightarrow> if P r then (row_at pk D d)(k \<mapsto> f r) else row_at pk D d)"
proof -
  have u: "rows D (fst (UPDATE D f P d)) = (\<lambda>r. if P r then f r else r) ` rows D d"
    by (rule sql_update(1) [OF T]) (rule f)
  have at: "row_at pk D (fst (UPDATE D f P d)) j = map_option (\<lambda>r. if P r then f r else r) (row_at pk D d j)" for j
  proof (cases "row_at pk D d j")
    case None
    then have "\<forall>r \<in> rows D d. pk r \<noteq> j" using row_at_None [OF T] by blast
    then have "\<forall>r \<in> rows D (fst (UPDATE D f P d)). pk r \<noteq> j" unfolding u by (auto simp: f)
    then have "row_at pk D (fst (UPDATE D f P d)) j = None" using row_at_None [OF T] by blast
    then show ?thesis by (simp add: None)
  next
    case (Some r)
    then have "r \<in> rows D d" "pk r = j" using row_at_iff [OF T] by blast+
    then have "(if P r then f r else r) \<in> rows D (fst (UPDATE D f P d))" "pk (if P r then f r else r) = j" unfolding u by (auto simp: f)
    then have "row_at pk D (fst (UPDATE D f P d)) j = Some (if P r then f r else r)" using row_at_iff [OF T] by blast
    then show ?thesis by (simp add: Some)
  qed
  have other: "\<not> P r" if "row_at pk D d j = Some r" "j \<noteq> k" for j r
    using that P row_at_iff [OF T, of d j r] by blast
  show ?thesis
  proof (rule ext)
    fix j
    show "row_at pk D (fst (UPDATE D f P d)) j = (case row_at pk D d k of None \<Rightarrow> row_at pk D d
        | Some r \<Rightarrow> if P r then (row_at pk D d)(k \<mapsto> f r) else row_at pk D d) j"
    proof (cases "j = k")
      case True
      then show ?thesis by (simp add: at split: option.splits)
    next
      case False
      then show ?thesis using other [of j] by (cases "row_at pk D d j") (simp_all add: at split: option.splits)
    qed
  qed
qed

text \<open>An update of one row says by its count whether it changed it.\<close>

lemma update_count:
  assumes T: "sql_table pk D" and P: "\<And>r. P r \<Longrightarrow> pk r = k" and f: "\<And>r. pk (f r) = pk r"
  obtains (none) "snd (UPDATE D f P d) = 0" "row_at pk D (fst (UPDATE D f P d)) = row_at pk D d"
  | (one) r where "snd (UPDATE D f P d) = 1" "row_at pk D d k = Some r" "P r"
      "row_at pk D (fst (UPDATE D f P d)) = (row_at pk D d)(k \<mapsto> f r)"
proof -
  have le: "snd (UPDATE D f P d) \<le> card (case row_at pk D d k of None \<Rightarrow> {} | Some r \<Rightarrow> if P r then {r} else {})"
    using sql_update(3) [OF T, of f P d] card_key_rows [OF T P, of P d] by simp
  have ge: "card (case row_at pk D d k of None \<Rightarrow> {} | Some r \<Rightarrow> if P r \<and> f r \<noteq> r then {r} else {}) \<le> snd (UPDATE D f P d)"
    using sql_update(2) [OF T, where f = f and P = P and d = d] card_key_rows [OF T, of "\<lambda>r. P r \<and> f r \<noteq> r" k d] P by simp
  note at = row_at_update [OF T, where P = P and k = k and f = f and d = d, OF P f]
  show thesis
  proof (cases "row_at pk D d k")
    case None
    with le at none show ?thesis by simp
  next
    case (Some r)
    show ?thesis
    proof (cases "P r")
      case False
      with le at none Some show ?thesis by simp
    next
      case P: True
      show ?thesis
      proof (cases "snd (UPDATE D f P d) = 0")
        case True
        with ge Some P have "f r = r" by (cases "f r = r") simp_all
        with at Some P have "row_at pk D (fst (UPDATE D f P d)) = row_at pk D d" by (simp add: fun_upd_idem)
        with True none show ?thesis by blast
      next
        case False
        with le Some P have "snd (UPDATE D f P d) = 1" by simp
        with at Some P one show ?thesis by simp
      qed
    qed
  qed
qed

lemma row_at_delete:
  assumes T: "sql_table pk D" and P: "\<And>r. P r \<Longrightarrow> pk r = k"
  shows "row_at pk D (fst (DELETE D P d)) =
      (case row_at pk D d k of None \<Rightarrow> row_at pk D d | Some r \<Rightarrow> if P r then (row_at pk D d)(k := None) else row_at pk D d)"
    "snd (DELETE D P d) = (case row_at pk D d k of None \<Rightarrow> 0 | Some r \<Rightarrow> if P r then 1 else 0)"
proof -
  have u: "rows D (fst (DELETE D P d)) = {r \<in> rows D d. \<not> P r}" "snd (DELETE D P d) = card {r \<in> rows D d. P r}"
    by (rule sql_delete [OF T])+
  have "card {r \<in> rows D d. P r} = card (case row_at pk D d k of None \<Rightarrow> {} | Some r \<Rightarrow> if P r then {r} else {})"
    by (rule card_key_rows [OF T P])
  then show "snd (DELETE D P d) = (case row_at pk D d k of None \<Rightarrow> 0 | Some r \<Rightarrow> if P r then 1 else 0)"
    by (simp add: u(2) split: option.splits)
  have at: "row_at pk D (fst (DELETE D P d)) j = (case row_at pk D d j of None \<Rightarrow> None | Some r \<Rightarrow> if P r then None else Some r)" for j
  proof (cases "row_at pk D d j")
    case None
    then have "\<forall>r \<in> rows D d. pk r \<noteq> j" using row_at_None [OF T] by blast
    then have "\<forall>r \<in> rows D (fst (DELETE D P d)). pk r \<noteq> j" unfolding u(1) by simp
    then have "row_at pk D (fst (DELETE D P d)) j = None" using row_at_None [OF T] by blast
    then show ?thesis by (simp add: None)
  next
    case (Some r)
    then have r: "r \<in> rows D d" "pk r = j" using row_at_iff [OF T] by blast+
    show ?thesis
    proof (cases "P r")
      case True
      then have "\<forall>q \<in> rows D (fst (DELETE D P d)). pk q \<noteq> j" using row_at_unique [OF T Some] unfolding u(1) by blast
      then have "row_at pk D (fst (DELETE D P d)) j = None" using row_at_None [OF T] by blast
      then show ?thesis by (simp add: Some True)
    next
      case False
      then have "r \<in> rows D (fst (DELETE D P d))" using r unfolding u(1) by simp
      then have "row_at pk D (fst (DELETE D P d)) j = Some r" using row_at_iff [OF T] r(2) by blast
      then show ?thesis using Some False by simp
    qed
  qed
  have other: "\<not> P r" if "row_at pk D d j = Some r" "j \<noteq> k" for j r
    using that P row_at_iff [OF T, of d j r] by blast
  show "row_at pk D (fst (DELETE D P d)) =
      (case row_at pk D d k of None \<Rightarrow> row_at pk D d | Some r \<Rightarrow> if P r then (row_at pk D d)(k := None) else row_at pk D d)"
  proof (rule ext)
    fix j
    show "row_at pk D (fst (DELETE D P d)) j =
      (case row_at pk D d k of None \<Rightarrow> row_at pk D d | Some r \<Rightarrow> if P r then (row_at pk D d)(k := None) else row_at pk D d) j"
    proof (cases "j = k")
      case True
      then show ?thesis by (simp add: at split: option.splits)
    next
      case False
      then show ?thesis using other [of j] by (cases "row_at pk D d j") (simp_all add: at split: option.splits)
    qed
  qed
qed

section \<open>A database in memory\<close>

definition unique_rows :: "('row \<Rightarrow> string) \<Rightarrow> 'row list \<Rightarrow> 'row list" where
  "unique_rows pk d = map snd (AList.clearjunk (map (\<lambda>r. (pk r, r)) d))"

definition memory_sql :: "('row \<Rightarrow> string) \<Rightarrow> ('row list, 'row) sql" where
  "memory_sql pk =
     \<lparr>SELECT = \<lambda>P d. filter P (unique_rows pk d),
      INSERT = \<lambda>r d. if list_ex (\<lambda>q. pk q = pk r) (unique_rows pk d) then None else Some (r # unique_rows pk d),
      UPDATE = \<lambda>f P d. (map (\<lambda>r. if P r then f r else r) (unique_rows pk d), length (filter P (unique_rows pk d))),
      DELETE = \<lambda>P d. (filter (\<lambda>r. \<not> P r) (unique_rows pk d), length (filter P (unique_rows pk d)))\<rparr>"

lemma keyed_clearjunk: "map (\<lambda>r. (pk r, r)) (unique_rows pk d) = AList.clearjunk (map (\<lambda>r. (pk r, r)) d)"
proof -
  have "set (AList.clearjunk (map (\<lambda>r. (pk r, r)) d)) \<subseteq> (\<lambda>r. (pk r, r)) ` set d"
  proof
    fix x assume "x \<in> set (AList.clearjunk (map (\<lambda>r. (pk r, r)) d))"
    then have "map_of (map (\<lambda>r. (pk r, r)) d) (fst x) = Some (snd x)"
      by (metis distinct_clearjunk map_of_clearjunk map_of_is_SomeI prod.collapse)
    then show "x \<in> (\<lambda>r. (pk r, r)) ` set d" by (cases x) (auto dest: map_of_SomeD)
  qed
  then have "map ((\<lambda>r. (pk r, r)) \<circ> snd) (AList.clearjunk (map (\<lambda>r. (pk r, r)) d)) = AList.clearjunk (map (\<lambda>r. (pk r, r)) d)"
    by (intro map_idI) auto
  then show ?thesis by (simp add: unique_rows_def)
qed

lemma unique_rows_distinct: "distinct (map pk (unique_rows pk d))"
proof -
  have "map fst (map (\<lambda>r. (pk r, r)) (unique_rows pk d)) = map pk (unique_rows pk d)" by simp
  then show ?thesis using distinct_clearjunk [of "map (\<lambda>r. (pk r, r)) d"] unfolding keyed_clearjunk by simp
qed

lemma unique_rows_id: "distinct (map pk d) \<Longrightarrow> unique_rows pk d = d"
  by (simp add: unique_rows_def distinct_clearjunk_id comp_def)

lemma distinct_same_key: "distinct (map pk d) \<Longrightarrow> r \<in> set d \<Longrightarrow> q \<in> set d \<Longrightarrow> pk r = pk q \<Longrightarrow> r = q"
  by (simp add: distinct_map inj_on_def)

lemma length_filter_card: "distinct (map pk d) \<Longrightarrow> length (filter P d) = card {r \<in> set d. P r}"
  using distinct_card [of "filter P d"] by (simp add: distinct_map)

lemma memory_sql_table: "sql_table pk (memory_sql pk)"
proof -
  have rows: "rows (memory_sql pk) d = set (unique_rows pk d)" for d by (simp add: rows_def memory_sql_def)
  note dist = unique_rows_distinct [of pk]
  have upd: "distinct (map pk (map (\<lambda>r. if P r then f r else r) (unique_rows pk d)))" if "\<forall>r. pk (f r) = pk r" for f P d
  proof -
    have "map pk (map (\<lambda>r. if P r then f r else r) (unique_rows pk d)) = map pk (unique_rows pk d)" using that by simp
    then show ?thesis by (simp only: dist)
  qed
  have del: "distinct (map pk (filter P (unique_rows pk d)))" for P d using dist [of d] by (simp add: distinct_map_filter)
  show ?thesis
    unfolding sql_table_def rows
  proof (intro conjI allI impI)
    show "inj_on pk (set (unique_rows pk d))" for d using dist [of d] by (simp add: distinct_map)
    show "case INSERT (memory_sql pk) r d of None \<Rightarrow> \<exists>q \<in> set (unique_rows pk d). pk q = pk r
        | Some d' \<Rightarrow> (\<forall>q \<in> set (unique_rows pk d). pk q \<noteq> pk r) \<and> set (unique_rows pk d') = insert r (set (unique_rows pk d))" for r d
    proof (cases "pk r \<in> pk ` set (unique_rows pk d)")
      case True
      then show ?thesis by (auto simp: memory_sql_def list_ex_iff)
    next
      case False
      then have "unique_rows pk (r # unique_rows pk d) = r # unique_rows pk d" using dist [of d] by (intro unique_rows_id) simp
      with False show ?thesis by (force simp: memory_sql_def list_ex_iff)
    qed
    show "set (unique_rows pk (fst (UPDATE (memory_sql pk) f P d))) = (\<lambda>r. if P r then f r else r) ` set (unique_rows pk d)"
      if "\<forall>r. pk (f r) = pk r" for f P d
      using unique_rows_id [OF upd [OF that]] by (simp add: memory_sql_def)
    show "card {r \<in> set (unique_rows pk d). P r \<and> f r \<noteq> r} \<le> snd (UPDATE (memory_sql pk) f P d)" for f P d
      using length_filter_card [OF dist, of P d] by (auto simp: memory_sql_def intro!: card_mono)
    show "snd (UPDATE (memory_sql pk) f P d) \<le> card {r \<in> set (unique_rows pk d). P r}" for f P d
      using length_filter_card [OF dist, of P d] by (simp add: memory_sql_def)
    show "set (unique_rows pk (fst (DELETE (memory_sql pk) P d))) = {r \<in> set (unique_rows pk d). \<not> P r}" for P d
      using unique_rows_id [OF del] by (simp add: memory_sql_def)
    show "snd (DELETE (memory_sql pk) P d) = card {r \<in> set (unique_rows pk d). P r}" for P d
      using length_filter_card [OF dist, of P d] by (simp add: memory_sql_def)
  qed (simp add: memory_sql_def)
qed

section \<open>Running a statement\<close>

text \<open>
  \<open>ExecContext\<close> and \<open>RowsAffected\<close>: the number of rows arrives, or an error is reported although the statement ran, by either of the two, or
  without its having run.
\<close>

datatype exec_io = ExecReplies | ExecReplyLost | ExecNoCount | ExecNotRun

datatype exec_result = ExecFailed | CountFailed | Affected nat

definition exec :: "exec_io \<Rightarrow> ('d \<Rightarrow> 'd \<times> nat) \<Rightarrow> 'd \<Rightarrow> 'd \<times> exec_result" where
  "exec io statement d =
     (case io of
        ExecReplies \<Rightarrow> (fst (statement d), Affected (snd (statement d)))
      | ExecReplyLost \<Rightarrow> (fst (statement d), ExecFailed)
      | ExecNoCount \<Rightarrow> (fst (statement d), CountFailed)
      | ExecNotRun \<Rightarrow> (d, ExecFailed))"

lemma exec_cases:
  assumes "exec io statement d = (d', a)"
  obtains (ran) "d' = fst (statement d)" "\<And>n. a = Affected n \<Longrightarrow> n = snd (statement d)" | (not_run) "d' = d" "\<And>n. a \<noteq> Affected n"
  using assms by (auto simp: exec_def split: exec_io.splits)

text \<open>A query fails, finds no row, or finds one.\<close>

datatype 'row seen = SeenError | SeenNothing | SeenRow 'row

end
