(* ===== verification/FileSchedulerStore.thy ===== *)
theory FileSchedulerStore
  imports FileJobStore
begin

text \<open>
  The durable local store of scheduled tasks: \<open>src/backend/framework/file_scheduler_store.go\<close>
  with the types and errors of \<open>scheduler_store.go\<close>. It has the structure of the job store: a
  map of tasks in memory and the append-only log of \<open>EventLog\<close>. Operations whose Go names the job
  store also has carry the prefix \<open>Scheduler\<close>.
\<close>

section \<open>Data\<close>

datatype scheduler_error =
    ErrSchedulerStoreUnavailable
  | ErrSchedulerContextUnavailable
  | ErrSchedulerContext ctx_error
  | ErrSchedulerStoreClosed
  | ErrSchedulerStoreFull
  | ErrSchedulerStoreConflict
  | ErrScheduledTaskStateNotFound
  | ErrScheduledTaskNotDue
  | ErrScheduledTaskReserved
  | ErrScheduledTaskReservationInvalid
  | ErrSchedulerStoreOperationFailed io_failure
  | ErrInvalidFileSchedulerStoreOptions
  | ErrFileSchedulerStoreCorrupt

definition defaultFileSchedulerStoreMaxTasks :: int where
  "defaultFileSchedulerStoreMaxTasks = 1000"

definition fileSchedulerStoreEventVersion :: int where
  "fileSchedulerStoreEventVersion = 1"

definition fileSchedulerStoreMaxEventBytes :: int where
  "fileSchedulerStoreMaxEventBytes = 64 * 1024"

definition fileSchedulerStoreMaxNameBytes :: nat where
  "fileSchedulerStoreMaxNameBytes = 1024"

definition fileSchedulerStoreMaxErrorBytes :: nat where
  "fileSchedulerStoreMaxErrorBytes = 4 * 1024"

definition schedulerReservationTokenBytes :: nat where
  "schedulerReservationTokenBytes = 32"

record StoredScheduledTask =
  st_Name :: string
  st_NextRunAt :: instant
  st_LastScheduledAt :: instant
  st_LastCompletedAt :: instant
  st_LastError :: string
  st_ReservedUntil :: instant

record ScheduledTaskReservation =
  sr_Task :: StoredScheduledTask
  sr_Token :: string
  sr_ReservedUntil :: instant

record FileSchedulerStoreOptions =
  so_Path :: string
  so_MaxTasks :: int

record fileStoredScheduledTask =
  ft_state :: StoredScheduledTask
  ft_reservationToken :: string

record fileSchedulerStoreEvent =
  se_Version :: int
  se_Type :: string
  se_Name :: string
  se_Token :: string
  se_ScheduledAt :: instant
  se_ReservedUntil :: instant
  se_NextRunAt :: instant
  se_LastCompletedAt :: instant
  se_Error :: string

record FileSchedulerStore =
  fss_path :: string
  fss_maxTasks :: int
  fss_file :: "fileSchedulerStoreEvent log_file"
  fss_tasks :: "(string, fileStoredScheduledTask) gomap"
  fss_closed :: bool

section \<open>Validation and normalisation\<close>

definition validStoredScheduledTaskName :: "string \<Rightarrow> bool" where
  "validStoredScheduledTaskName name =
     (trim_space name \<noteq> [] \<and> length name \<le> fileSchedulerStoreMaxNameBytes)"

definition newSchedulerReservationToken :: "string option \<Rightarrow> scheduler_error + string" where
  "newSchedulerReservationToken random =
     (case random of
        None \<Rightarrow> Inl (ErrSchedulerStoreOperationFailed RandomIdentifier)
      | Some buffer \<Rightarrow> Inr (hex_encode buffer))"

definition normalizeFileSchedulerStoreError :: "string \<Rightarrow> string" where
  "normalizeFileSchedulerStoreError e =
     (if length e \<le> fileSchedulerStoreMaxErrorBytes then e
      else shrink_to_valid (take fileSchedulerStoreMaxErrorBytes e))"

definition DefaultFileSchedulerStoreOptions :: "string \<Rightarrow> FileSchedulerStoreOptions" where
  "DefaultFileSchedulerStoreOptions p = \<lparr>so_Path = p, so_MaxTasks = defaultFileSchedulerStoreMaxTasks\<rparr>"

definition normalizeFileSchedulerStoreOptions ::
  "(string \<Rightarrow> string option) \<Rightarrow> FileSchedulerStoreOptions \<Rightarrow> scheduler_error + FileSchedulerStoreOptions" where
  "normalizeFileSchedulerStoreOptions abs_path options =
     (let p = trim_space (so_Path options) in
      if p = [] \<or> so_MaxTasks options < 0 then Inl ErrInvalidFileSchedulerStoreOptions
      else case abs_path p of
        None \<Rightarrow> Inl ErrInvalidFileSchedulerStoreOptions
      | Some q \<Rightarrow>
          Inr \<lparr>so_Path = q,
               so_MaxTasks = (if so_MaxTasks options = 0 then defaultFileSchedulerStoreMaxTasks
                              else so_MaxTasks options)\<rparr>)"

section \<open>The log\<close>

definition scheduler_event :: "string \<Rightarrow> string \<Rightarrow> fileSchedulerStoreEvent" where
  "scheduler_event typ name =
     \<lparr>se_Version = fileSchedulerStoreEventVersion, se_Type = typ, se_Name = name, se_Token = [],
      se_ScheduledAt = 0, se_ReservedUntil = 0, se_NextRunAt = 0, se_LastCompletedAt = 0, se_Error = []\<rparr>"

definition scheduler_encodable :: "fileSchedulerStoreEvent \<Rightarrow> bool" where
  "scheduler_encodable e =
     (json_time_ok (se_ScheduledAt e) \<and> json_time_ok (se_ReservedUntil e) \<and>
      json_time_ok (se_NextRunAt e) \<and> json_time_ok (se_LastCompletedAt e))"

definition scheduler_roundtrip :: "fileSchedulerStoreEvent \<Rightarrow> fileSchedulerStoreEvent" where
  "scheduler_roundtrip e =
     e\<lparr>se_Type := utf8_coerce (se_Type e), se_Name := utf8_coerce (se_Name e),
       se_Token := utf8_coerce (se_Token e), se_Error := utf8_coerce (se_Error e)\<rparr>"

text \<open>Bytes of an encoded event; \<open>x\<close> stands for a quotation mark in the keys.\<close>

definition scheduler_event_bytes :: "fileSchedulerStoreEvent \<Rightarrow> nat" where
  "scheduler_event_bytes e =
     2 + (length ''xversionx:'' + json_int_bytes (se_Version e))
       + (length '',xtypex:'' + json_string_bytes (se_Type e))
       + (length '',xnamex:'' + json_string_bytes (se_Name e))
       + (if se_Token e = [] then 0 else length '',xtokenx:'' + json_string_bytes (se_Token e))
       + (length '',xscheduledAtx:'' + json_time_bytes (se_ScheduledAt e))
       + (length '',xreservedUntilx:'' + json_time_bytes (se_ReservedUntil e))
       + (length '',xnextRunAtx:'' + json_time_bytes (se_NextRunAt e))
       + (length '',xlastCompletedAtx:'' + json_time_bytes (se_LastCompletedAt e))
       + (if se_Error e = [] then 0 else length '',xerrorx:'' + json_string_bytes (se_Error e))"

definition encode_scheduler_event :: "fileSchedulerStoreEvent \<Rightarrow> (fileSchedulerStoreEvent \<times> nat) option" where
  "encode_scheduler_event e =
     (if scheduler_encodable e then Some (scheduler_roundtrip e, scheduler_event_bytes e) else None)"

definition scheduler_append ::
  "append_io \<Rightarrow> fileSchedulerStoreEvent \<Rightarrow> FileSchedulerStore \<Rightarrow> FileSchedulerStore \<times> (scheduler_error + unit)" where
  "scheduler_append io e s =
     (case append_log io (encode_scheduler_event e) (fss_file s) of
        (f, r) \<Rightarrow> (s\<lparr>fss_file := f\<rparr>, map_sum ErrSchedulerStoreOperationFailed id r))"

definition scheduler_ready :: "go_context \<Rightarrow> FileSchedulerStore \<Rightarrow> scheduler_error option" where
  "scheduler_ready ctx s =
     (case ctx_err ctx of
        Some e \<Rightarrow> Some (ErrSchedulerContext e)
      | None \<Rightarrow> if fss_closed s then Some ErrSchedulerStoreClosed else None)"

section \<open>Operations\<close>

definition new_task :: "string \<Rightarrow> instant \<Rightarrow> fileStoredScheduledTask" where
  "new_task name nextRunAt =
     \<lparr>ft_state = \<lparr>st_Name = name, st_NextRunAt = nextRunAt, st_LastScheduledAt = 0, st_LastCompletedAt = 0,
                  st_LastError = [], st_ReservedUntil = 0\<rparr>, ft_reservationToken = []\<rparr>"

definition Initialize ::
  "go_context \<Rightarrow> string \<Rightarrow> instant \<Rightarrow> append_io \<Rightarrow> FileSchedulerStore
    \<Rightarrow> FileSchedulerStore \<times> (scheduler_error + unit)" where
  [op_defs]: "Initialize ctx name nextRunAt io s =
     (if ctx = NilContext then (s, Inl ErrSchedulerContextUnavailable)
      else if \<not> validStoredScheduledTaskName name \<or> is_zero_time nextRunAt then (s, Inl ErrSchedulerStoreConflict)
      else case scheduler_ready ctx s of
        Some e \<Rightarrow> (s, Inl e)
      | None \<Rightarrow>
          if map_of (fss_tasks s) name \<noteq> None then (s, Inr ())
          else if int (length (fss_tasks s)) \<ge> fss_maxTasks s then (s, Inl ErrSchedulerStoreFull)
          else case scheduler_append io ((scheduler_event ''initialize'' name)\<lparr>se_NextRunAt := nextRunAt\<rparr>) s of
            (s', Inl e) \<Rightarrow> (s', Inl e)
          | (s', Inr _) \<Rightarrow> (s'\<lparr>fss_tasks := AList.update name (new_task name nextRunAt) (fss_tasks s')\<rparr>, Inr ()))"

definition SchedulerState ::
  "go_context \<Rightarrow> string \<Rightarrow> FileSchedulerStore \<Rightarrow> scheduler_error + StoredScheduledTask" where
  [op_defs]: "SchedulerState ctx name s =
     (if ctx = NilContext then Inl ErrSchedulerContextUnavailable
      else if \<not> validStoredScheduledTaskName name then Inl ErrSchedulerStoreConflict
      else case scheduler_ready ctx s of
        Some e \<Rightarrow> Inl e
      | None \<Rightarrow>
          (case map_of (fss_tasks s) name of
             None \<Rightarrow> Inl ErrScheduledTaskStateNotFound
           | Some r \<Rightarrow> Inr (ft_state r)))"

definition SchedulerReserve ::
  "go_context \<Rightarrow> string \<Rightarrow> instant \<Rightarrow> duration \<Rightarrow> string option \<Rightarrow> append_io \<Rightarrow> FileSchedulerStore
    \<Rightarrow> FileSchedulerStore \<times> (scheduler_error + ScheduledTaskReservation)" where
  [op_defs]: "SchedulerReserve ctx name now lease random io s =
     (if ctx = NilContext then (s, Inl ErrSchedulerContextUnavailable)
      else if \<not> validStoredScheduledTaskName name \<or> is_zero_time now \<or> lease \<le> 0
      then (s, Inl ErrScheduledTaskReservationInvalid)
      else case scheduler_ready ctx s of
        Some e \<Rightarrow> (s, Inl e)
      | None \<Rightarrow>
          (case map_of (fss_tasks s) name of
             None \<Rightarrow> (s, Inl ErrScheduledTaskStateNotFound)
           | Some r \<Rightarrow>
               if ft_reservationToken r \<noteq> [] \<and> st_ReservedUntil (ft_state r) > now
               then (s, Inl ErrScheduledTaskReserved)
               else if st_NextRunAt (ft_state r) > now then (s, Inl ErrScheduledTaskNotDue)
               else case newSchedulerReservationToken random of
                 Inl e \<Rightarrow> (s, Inl e)
               | Inr token \<Rightarrow>
                   (case scheduler_append io
                           ((scheduler_event ''reserve'' name)\<lparr>se_Token := token,
                              se_ScheduledAt := st_NextRunAt (ft_state r), se_ReservedUntil := now + lease\<rparr>) s of
                      (s', Inl e) \<Rightarrow> (s', Inl e)
                    | (s', Inr _) \<Rightarrow>
                        let r' = r\<lparr>ft_reservationToken := token,
                                  ft_state := (ft_state r)\<lparr>st_ReservedUntil := now + lease\<rparr>\<rparr>
                        in (s'\<lparr>fss_tasks := AList.update name r' (fss_tasks s')\<rparr>,
                            Inr \<lparr>sr_Task = ft_state r', sr_Token = token, sr_ReservedUntil = now + lease\<rparr>))))"

definition completed_task :: "instant \<Rightarrow> instant \<Rightarrow> instant \<Rightarrow> string \<Rightarrow> fileStoredScheduledTask \<Rightarrow> fileStoredScheduledTask" where
  "completed_task scheduledAt nextRunAt completedAt lastError r =
     r\<lparr>ft_reservationToken := [],
       ft_state := (ft_state r)\<lparr>st_NextRunAt := nextRunAt, st_LastScheduledAt := scheduledAt,
         st_LastCompletedAt := completedAt, st_LastError := lastError, st_ReservedUntil := 0\<rparr>\<rparr>"

definition SchedulerComplete ::
  "go_context \<Rightarrow> ScheduledTaskReservation \<Rightarrow> instant \<Rightarrow> instant \<Rightarrow> string \<Rightarrow> append_io \<Rightarrow> FileSchedulerStore
    \<Rightarrow> FileSchedulerStore \<times> (scheduler_error + unit)" where
  [op_defs]: "SchedulerComplete ctx v nextRunAt completedAt lastError io s =
     (if ctx = NilContext then (s, Inl ErrSchedulerContextUnavailable)
      else if \<not> validStoredScheduledTaskName (st_Name (sr_Task v)) \<or> sr_Token v = [] \<or>
              is_zero_time (st_NextRunAt (sr_Task v)) \<or> is_zero_time nextRunAt \<or> is_zero_time completedAt \<or>
              \<not> nextRunAt > completedAt
      then (s, Inl ErrScheduledTaskReservationInvalid)
      else
        let err = normalizeFileSchedulerStoreError lastError in
        case scheduler_ready ctx s of
          Some e \<Rightarrow> (s, Inl e)
        | None \<Rightarrow>
            (case map_of (fss_tasks s) (st_Name (sr_Task v)) of
               None \<Rightarrow> (s, Inl ErrScheduledTaskReservationInvalid)
             | Some r \<Rightarrow>
                 if ft_reservationToken r \<noteq> sr_Token v \<or> st_NextRunAt (ft_state r) \<noteq> st_NextRunAt (sr_Task v)
                 then (s, Inl ErrScheduledTaskReservationInvalid)
                 else case scheduler_append io
                        ((scheduler_event ''complete'' (st_Name (sr_Task v)))\<lparr>se_Token := sr_Token v,
                           se_ScheduledAt := st_NextRunAt (sr_Task v), se_NextRunAt := nextRunAt,
                           se_LastCompletedAt := completedAt, se_Error := err\<rparr>) s of
                   (s', Inl e) \<Rightarrow> (s', Inl e)
                 | (s', Inr _) \<Rightarrow>
                     (s'\<lparr>fss_tasks := AList.update (st_Name (ft_state r))
                        (completed_task (st_NextRunAt (sr_Task v)) nextRunAt completedAt err r) (fss_tasks s')\<rparr>, Inr ())))"

definition SchedulerStates :: "FileSchedulerStore \<Rightarrow> StoredScheduledTask list" where
  [op_defs]: "SchedulerStates s = sort_key st_Name (map (\<lambda>(_, r). ft_state r) (fss_tasks s))"

definition SchedulerClose :: "bool \<Rightarrow> FileSchedulerStore \<Rightarrow> FileSchedulerStore \<times> (scheduler_error + unit)" where
  [op_defs]: "SchedulerClose close_ok s =
     (if fss_closed s then (s, Inr ())
      else (s\<lparr>fss_closed := True\<rparr>,
            if close_ok then Inr () else Inl (ErrSchedulerStoreOperationFailed CloseLog)))"

section \<open>Replay\<close>

definition applySchedulerEvent ::
  "(string, fileStoredScheduledTask) gomap \<Rightarrow> fileSchedulerStoreEvent
    \<Rightarrow> scheduler_error + (string, fileStoredScheduledTask) gomap" where
  "applySchedulerEvent m e =
     (if se_Version e \<noteq> fileSchedulerStoreEventVersion \<or> \<not> validStoredScheduledTaskName (se_Name e)
      then Inl ErrFileSchedulerStoreCorrupt
      else if se_Type e = ''initialize'' then
        (if is_zero_time (se_NextRunAt e) then Inl ErrFileSchedulerStoreCorrupt
         else if map_of m (se_Name e) \<noteq> None then Inl ErrFileSchedulerStoreCorrupt
         else Inr (AList.update (se_Name e) (new_task (se_Name e) (se_NextRunAt e)) m))
      else if se_Type e = ''reserve'' then
        (case map_of m (se_Name e) of
           None \<Rightarrow> Inl ErrFileSchedulerStoreCorrupt
         | Some r \<Rightarrow>
             if se_Token e = [] \<or> is_zero_time (se_ScheduledAt e) \<or> se_ScheduledAt e \<noteq> st_NextRunAt (ft_state r) \<or>
                is_zero_time (se_ReservedUntil e)
             then Inl ErrFileSchedulerStoreCorrupt
             else Inr (AList.update (se_Name e)
                    (r\<lparr>ft_reservationToken := se_Token e,
                       ft_state := (ft_state r)\<lparr>st_ReservedUntil := se_ReservedUntil e\<rparr>\<rparr>) m))
      else if se_Type e = ''complete'' then
        (case map_of m (se_Name e) of
           None \<Rightarrow> Inl ErrFileSchedulerStoreCorrupt
         | Some r \<Rightarrow>
             if se_Token e = [] \<or> ft_reservationToken r \<noteq> se_Token e \<or> is_zero_time (se_ScheduledAt e) \<or>
                se_ScheduledAt e \<noteq> st_NextRunAt (ft_state r) \<or> is_zero_time (se_NextRunAt e) \<or>
                is_zero_time (se_LastCompletedAt e) \<or> \<not> se_NextRunAt e > se_LastCompletedAt e
             then Inl ErrFileSchedulerStoreCorrupt
             else Inr (AList.update (se_Name e)
                    (completed_task (se_ScheduledAt e) (se_NextRunAt e) (se_LastCompletedAt e) (se_Error e) r) m))
      else Inl ErrFileSchedulerStoreCorrupt)"

definition scheduler_replay ::
  "replay_io \<Rightarrow> FileSchedulerStore \<Rightarrow> FileSchedulerStore \<times> (scheduler_error + unit)" where
  "scheduler_replay io s =
     (case replay_log io fileSchedulerStoreMaxEventBytes ErrFileSchedulerStoreCorrupt
             ErrSchedulerStoreOperationFailed applySchedulerEvent (fss_tasks s) (fss_file s) of
        (f, Inl e) \<Rightarrow> (s\<lparr>fss_file := f\<rparr>, Inl e)
      | (f, Inr m) \<Rightarrow> (s\<lparr>fss_file := f, fss_tasks := m\<rparr>, Inr ()))"

definition NewFileSchedulerStore ::
  "(string \<Rightarrow> string option) \<Rightarrow> FileSchedulerStoreOptions \<Rightarrow> open_io \<Rightarrow> replay_io
    \<Rightarrow> fileSchedulerStoreEvent log_file \<Rightarrow> fileSchedulerStoreEvent log_file \<times> (scheduler_error + FileSchedulerStore)" where
  "NewFileSchedulerStore abs_path options oio rio f =
     (case normalizeFileSchedulerStoreOptions abs_path options of
        Inl e \<Rightarrow> (f, Inl e)
      | Inr o' \<Rightarrow>
          (case oio of
             MkdirFails \<Rightarrow> (f, Inl (ErrSchedulerStoreOperationFailed CreateDirectory))
           | OpenFails \<Rightarrow> (f, Inl (ErrSchedulerStoreOperationFailed OpenLog))
           | ChmodFails \<Rightarrow> (f, Inl (ErrSchedulerStoreOperationFailed SecureLog))
           | OpenOk \<Rightarrow>
               (case scheduler_replay rio
                  \<lparr>fss_path = so_Path o', fss_maxTasks = so_MaxTasks o', fss_file = f, fss_tasks = [],
                   fss_closed = False\<rparr> of
                  (s, Inl e) \<Rightarrow> (fss_file s, Inl e)
                | (s, Inr _) \<Rightarrow> (fss_file s, Inr s))))"

section \<open>Basic facts\<close>

lemma scheduler_event_sel [simp]:
  "se_Version (scheduler_event t n) = fileSchedulerStoreEventVersion" "se_Type (scheduler_event t n) = t"
  "se_Name (scheduler_event t n) = n" "se_Token (scheduler_event t n) = []" "se_ScheduledAt (scheduler_event t n) = 0"
  "se_ReservedUntil (scheduler_event t n) = 0" "se_NextRunAt (scheduler_event t n) = 0"
  "se_LastCompletedAt (scheduler_event t n) = 0" "se_Error (scheduler_event t n) = []"
  by (simp_all add: scheduler_event_def)

lemma normalizeFileSchedulerStoreError_eq: "normalizeFileSchedulerStoreError = normalizeFileJobStoreError"
  by (simp add: fun_eq_iff normalizeFileSchedulerStoreError_def normalizeFileJobStoreError_def
      fileSchedulerStoreMaxErrorBytes_def fileJobStoreMaxErrorBytes_def)

lemma newSchedulerReservationToken_valid:
  "newSchedulerReservationToken (Some b) = Inr t \<Longrightarrow> length b = schedulerReservationTokenBytes \<Longrightarrow> validJobIdentifier t"
  using hex_encode_digits [of b]
  by (auto simp: newSchedulerReservationToken_def validJobIdentifier_def schedulerReservationTokenBytes_def
      jobIdentifierBytes_def)

lemma scheduler_append_frame:
  assumes "scheduler_append io e s = (s', r)"
  shows "fss_tasks s' = fss_tasks s" "fss_maxTasks s' = fss_maxTasks s" "fss_closed s' = fss_closed s"
  using assms by (auto simp: scheduler_append_def split: prod.splits)

lemma scheduler_append_ok_iff:
  "scheduler_append io e s = (s', Inr u) \<longleftrightarrow>
     scheduler_encodable e \<and> io = AppendOk \<and>
     s' = s\<lparr>fss_file := write_line (scheduler_roundtrip e) (scheduler_event_bytes e) (fss_file s)\<rparr>"
  by (auto simp: scheduler_append_def append_log_def encode_scheduler_event_def split: append_io.splits if_splits)

lemma completed_task_sel [simp]:
  "ft_reservationToken (completed_task a b c d r) = []" "st_Name (ft_state (completed_task a b c d r)) = st_Name (ft_state r)"
  "st_NextRunAt (ft_state (completed_task a b c d r)) = b"
  by (simp_all add: completed_task_def)

lemma new_task_sel [simp]:
  "ft_reservationToken (new_task n t) = []" "st_Name (ft_state (new_task n t)) = n" "st_NextRunAt (ft_state (new_task n t)) = t"
  by (simp_all add: new_task_def)

end
