(* ===== verification/SqlSchedulerStore.thy ===== *)
theory SqlSchedulerStore
  imports SqlDatabase FileSchedulerStore
begin

text \<open>
  The store of scheduled tasks in an SQL table: \<open>src/backend/framework/sql_scheduler_store.go\<close>. Statements are not grouped in transactions: what a
  query saw is an argument, since the row may have changed before the statement that follows, and the conditions of
  \<open>UPDATE\<close> are what keeps schedulers apart.
\<close>

section \<open>Data\<close>

definition sqlSchedulerStoreMaxNameBytes :: nat where "sqlSchedulerStoreMaxNameBytes = 255"

datatype SQLPlaceholderStyle = SQLPlaceholderQuestionMark | SQLPlaceholderDollar | OtherPlaceholder string

record SQLSchedulerStoreOptions =
  sso_Table :: string
  sso_PlaceholderStyle :: SQLPlaceholderStyle

text \<open>A row of the table; \<open>None\<close> is \<open>NULL\<close>.\<close>

record sql_task_row =
  tr_name :: string
  tr_next_run_at :: int
  tr_last_scheduled_at :: "int option"
  tr_last_completed_at :: "int option"
  tr_last_error :: "string option"
  tr_reservation_token :: "string option"
  tr_reserved_until :: "int option"

record sqlStoredScheduledTask =
  qt_state :: StoredScheduledTask
  qt_reservationToken :: string

type_synonym 'd task_sql = "('d, sql_task_row) sql"

section \<open>Options and names\<close>

definition identifier_letter :: "char \<Rightarrow> bool" where
  "identifier_letter c = (97 \<le> byte c \<and> byte c \<le> 122 \<or> 65 \<le> byte c \<and> byte c \<le> 90 \<or> byte c = 95)"

definition validSQLIdentifier :: "string \<Rightarrow> bool" where
  "validSQLIdentifier identifier =
     (case identifier of
        [] \<Rightarrow> False
      | c # cs \<Rightarrow> identifier_letter c \<and> list_all (\<lambda>c. identifier_letter c \<or> 48 \<le> byte c \<and> byte c \<le> 57) cs)"

text \<open>\<open>None\<close> for the error \<open>ErrInvalidSQLSchedulerStoreOptions\<close>.\<close>

definition normalizeSQLSchedulerStoreOptions :: "SQLSchedulerStoreOptions \<Rightarrow> SQLSchedulerStoreOptions option" where
  "normalizeSQLSchedulerStoreOptions options =
     (let table = trim_space (sso_Table options); table = (if table = [] then ''bridra_scheduled_tasks'' else table);
          style = (if sso_PlaceholderStyle options = OtherPlaceholder [] then SQLPlaceholderQuestionMark else sso_PlaceholderStyle options)
      in if \<not> validSQLIdentifier table \<or> style \<noteq> SQLPlaceholderQuestionMark \<and> style \<noteq> SQLPlaceholderDollar then None
         else Some \<lparr>sso_Table = table, sso_PlaceholderStyle = style\<rparr>)"

definition validSQLScheduledTaskName :: "string \<Rightarrow> bool" where
  "validSQLScheduledTaskName name = (validStoredScheduledTaskName name \<and> length name \<le> sqlSchedulerStoreMaxNameBytes)"

definition sqlSchedulerStoreTime :: "instant \<Rightarrow> int" where
  "sqlSchedulerStoreTime value = unix_micro value"

section \<open>Rows\<close>

definition scanSQLStoredScheduledTask :: "sql_task_row \<Rightarrow> sqlStoredScheduledTask option" where
  "scanSQLStoredScheduledTask row =
     (if \<not> validSQLScheduledTaskName (tr_name row) \<or>
         (tr_last_scheduled_at row = None) \<noteq> (tr_last_completed_at row = None) \<or>
         (tr_reservation_token row = None) \<noteq> (tr_reserved_until row = None) \<or>
         tr_reservation_token row = Some []
      then None
      else Some
        \<lparr>qt_state =
           \<lparr>st_Name = tr_name row, st_NextRunAt = time_unix_micro (tr_next_run_at row),
            st_LastScheduledAt = (case tr_last_scheduled_at row of None \<Rightarrow> 0 | Some n \<Rightarrow> time_unix_micro n),
            st_LastCompletedAt = (case tr_last_completed_at row of None \<Rightarrow> 0 | Some n \<Rightarrow> time_unix_micro n),
            st_LastError = (case tr_last_error row of None \<Rightarrow> [] | Some e \<Rightarrow> e),
            st_ReservedUntil = (case tr_reserved_until row of None \<Rightarrow> 0 | Some n \<Rightarrow> time_unix_micro n)\<rparr>,
         qt_reservationToken = (case tr_reservation_token row of None \<Rightarrow> [] | Some t \<Rightarrow> t)\<rparr>)"

text \<open>\<open>reserved_until <= now\<close>, false for \<open>NULL\<close>.\<close>

definition at_most :: "int option \<Rightarrow> int \<Rightarrow> bool" where
  "at_most column bound = (case column of None \<Rightarrow> False | Some n \<Rightarrow> n \<le> bound)"

section \<open>Operations\<close>

definition sql_scheduler_ready :: "go_context \<Rightarrow> scheduler_error option" where
  "sql_scheduler_ready ctx =
     (if ctx = NilContext then Some ErrSchedulerContextUnavailable else map_option ErrSchedulerContext (ctx_err ctx))"

definition sqlSchedulerStoreError :: "string \<Rightarrow> scheduler_error" where
  "sqlSchedulerStoreError operation = ErrSchedulerStoreOperationFailed (RemoteCall operation)"

text \<open>
  \<open>before\<close> and \<open>after\<close> are what \<open>stateExists\<close> answers, \<open>None\<close> for an error. An insertion that violates the primary key fails.
\<close>

definition SqlSchedulerInitialize ::
  "'d task_sql \<Rightarrow> go_context \<Rightarrow> string \<Rightarrow> instant \<Rightarrow> bool option \<Rightarrow> exec_io \<Rightarrow> bool option \<Rightarrow> 'd \<Rightarrow> 'd \<times> (scheduler_error + unit)" where
  [op_defs]: "SqlSchedulerInitialize D ctx name nextRunAt before io after d =
     (case sql_scheduler_ready ctx of
        Some e \<Rightarrow> (d, Inl e)
      | None \<Rightarrow>
          if \<not> validSQLScheduledTaskName name \<or> is_zero_time nextRunAt then (d, Inl ErrSchedulerStoreConflict)
          else case before of
            None \<Rightarrow> (d, Inl (sqlSchedulerStoreError ''check initialization conflict''))
          | Some True \<Rightarrow> (d, Inr ())
          | Some False \<Rightarrow>
              let row = \<lparr>tr_name = name, tr_next_run_at = sqlSchedulerStoreTime nextRunAt, tr_last_scheduled_at = None, tr_last_completed_at = None,
                         tr_last_error = None, tr_reservation_token = None, tr_reserved_until = None\<rparr>;
                  inserted = (if io = ExecNotRun then None else INSERT D row d)
              in case inserted of
                Some d' \<Rightarrow>
                  if io \<noteq> ExecReplyLost then (d', Inr ())
                  else (d', if after = Some True then Inr () else Inl (sqlSchedulerStoreError ''initialize task''))
              | None \<Rightarrow> (d, if after = Some True then Inr () else Inl (sqlSchedulerStoreError ''initialize task'')))"

definition SqlSchedulerState :: "go_context \<Rightarrow> string \<Rightarrow> sql_task_row seen \<Rightarrow> scheduler_error + StoredScheduledTask" where
  "SqlSchedulerState ctx name query =
     (case sql_scheduler_ready ctx of
        Some e \<Rightarrow> Inl e
      | None \<Rightarrow>
          if \<not> validSQLScheduledTaskName name then Inl ErrSchedulerStoreConflict
          else case query of
            SeenNothing \<Rightarrow> Inl ErrScheduledTaskStateNotFound
          | SeenError \<Rightarrow> Inl (sqlSchedulerStoreError ''read task state'')
          | SeenRow row \<Rightarrow>
              (case scanSQLStoredScheduledTask row of
                 None \<Rightarrow> Inl (sqlSchedulerStoreError ''read task state'')
               | Some record1 \<Rightarrow> Inr (qt_state record1)))"

definition reserve_task_row ::
  "'d task_sql \<Rightarrow> string \<Rightarrow> int \<Rightarrow> string \<Rightarrow> int \<Rightarrow> int \<Rightarrow> 'd \<Rightarrow> 'd \<times> nat" where
  "reserve_task_row D token until name nextRunAt now =
     UPDATE D (\<lambda>row. row\<lparr>tr_reservation_token := Some token, tr_reserved_until := Some until\<rparr>)
       (\<lambda>row. tr_name row = name \<and> tr_next_run_at row = nextRunAt \<and> tr_next_run_at row \<le> now \<and>
              (tr_reservation_token row = None \<or> at_most (tr_reserved_until row) now))"

text \<open>
  The rounds of \<open>Reserve\<close>: what the query saw, the random bytes of the token, and how the update ends. A round whose update finds the row changed is
  followed by the next; the context is done when the list ends.
\<close>

fun sql_reserve_rounds ::
  "'d task_sql \<Rightarrow> string \<Rightarrow> instant \<Rightarrow> instant \<Rightarrow> (sql_task_row seen \<times> string option \<times> exec_io) list \<Rightarrow> 'd
    \<Rightarrow> 'd \<times> (scheduler_error + ScheduledTaskReservation)" where
  "sql_reserve_rounds D name now reservedUntil [] d = (d, Inl (ErrSchedulerContext Canceled))"
| "sql_reserve_rounds D name now reservedUntil ((query, random, io) # rounds) d =
     (case query of
        SeenNothing \<Rightarrow> (d, Inl ErrScheduledTaskStateNotFound)
      | SeenError \<Rightarrow> (d, Inl (sqlSchedulerStoreError ''read reservation state''))
      | SeenRow row \<Rightarrow>
          (case scanSQLStoredScheduledTask row of
             None \<Rightarrow> (d, Inl (sqlSchedulerStoreError ''read reservation state''))
           | Some record1 \<Rightarrow>
               if qt_reservationToken record1 \<noteq> [] \<and> st_ReservedUntil (qt_state record1) > now then (d, Inl ErrScheduledTaskReserved)
               else if st_NextRunAt (qt_state record1) > now then (d, Inl ErrScheduledTaskNotDue)
               else case newSchedulerReservationToken random of
                 Inl e \<Rightarrow> (d, Inl e)
               | Inr token \<Rightarrow>
                   (case exec io (reserve_task_row D token (sqlSchedulerStoreTime reservedUntil) name
                            (sqlSchedulerStoreTime (st_NextRunAt (qt_state record1))) (sqlSchedulerStoreTime now)) d of
                      (d', ExecFailed) \<Rightarrow> (d', Inl (sqlSchedulerStoreError ''reserve task''))
                    | (d', CountFailed) \<Rightarrow> (d', Inl (sqlSchedulerStoreError ''inspect reservation''))
                    | (d', Affected n) \<Rightarrow>
                        if n = 0 then sql_reserve_rounds D name now reservedUntil rounds d'
                        else if n \<noteq> 1 then (d', Inl (sqlSchedulerStoreError ''reserve task''))
                        else (d', Inr \<lparr>sr_Task = (qt_state record1)\<lparr>st_ReservedUntil := reservedUntil\<rparr>, sr_Token = token,
                                       sr_ReservedUntil = reservedUntil\<rparr>))))"

text \<open>The query is for the row of the name.\<close>

definition seen_named :: "string \<Rightarrow> sql_task_row seen \<Rightarrow> bool" where
  "seen_named name query = (case query of SeenRow row \<Rightarrow> tr_name row = name | _ \<Rightarrow> True)"

definition SqlSchedulerReserve ::
  "'d task_sql \<Rightarrow> go_context \<Rightarrow> string \<Rightarrow> instant \<Rightarrow> duration \<Rightarrow> (sql_task_row seen \<times> string option \<times> exec_io) list \<Rightarrow> 'd
    \<Rightarrow> 'd \<times> (scheduler_error + ScheduledTaskReservation)" where
  [op_defs]: "SqlSchedulerReserve D ctx name now lease rounds d =
     (case sql_scheduler_ready ctx of
        Some e \<Rightarrow> (d, Inl e)
      | None \<Rightarrow>
          if \<not> validSQLScheduledTaskName name \<or> is_zero_time now \<or> lease \<le> 0 then (d, Inl ErrScheduledTaskReservationInvalid)
          else sql_reserve_rounds D name now (now + lease) (takeWhile (\<lambda>r. seen_named name (fst r)) rounds) d)"

definition complete_task_row ::
  "'d task_sql \<Rightarrow> string \<Rightarrow> string \<Rightarrow> int \<Rightarrow> int \<Rightarrow> int \<Rightarrow> string \<Rightarrow> 'd \<Rightarrow> 'd \<times> nat" where
  "complete_task_row D name token scheduledAt nextRunAt completedAt er =
     UPDATE D (\<lambda>row. row\<lparr>tr_next_run_at := nextRunAt, tr_last_scheduled_at := Some scheduledAt, tr_last_completed_at := Some completedAt,
                        tr_last_error := Some er, tr_reservation_token := None, tr_reserved_until := None\<rparr>)
       (\<lambda>row. tr_name row = name \<and> tr_reservation_token row = Some token \<and> tr_next_run_at row = scheduledAt)"

definition SqlSchedulerComplete ::
  "'d task_sql \<Rightarrow> go_context \<Rightarrow> ScheduledTaskReservation \<Rightarrow> instant \<Rightarrow> instant \<Rightarrow> string \<Rightarrow> exec_io \<Rightarrow> 'd
    \<Rightarrow> 'd \<times> (scheduler_error + unit)" where
  [op_defs]: "SqlSchedulerComplete D ctx reservation nextRunAt completedAt lastError io d =
     (case sql_scheduler_ready ctx of
        Some e \<Rightarrow> (d, Inl e)
      | None \<Rightarrow>
          if \<not> validSQLScheduledTaskName (st_Name (sr_Task reservation)) \<or> sr_Token reservation = [] \<or>
             is_zero_time (st_NextRunAt (sr_Task reservation)) \<or> is_zero_time nextRunAt \<or> is_zero_time completedAt \<or>
             \<not> nextRunAt > completedAt
          then (d, Inl ErrScheduledTaskReservationInvalid)
          else case exec io (complete_task_row D (st_Name (sr_Task reservation)) (sr_Token reservation)
                  (sqlSchedulerStoreTime (st_NextRunAt (sr_Task reservation))) (sqlSchedulerStoreTime nextRunAt)
                  (sqlSchedulerStoreTime completedAt) (normalizeFileSchedulerStoreError lastError)) d of
            (d', ExecFailed) \<Rightarrow> (d', Inl (sqlSchedulerStoreError ''complete task''))
          | (d', CountFailed) \<Rightarrow> (d', Inl (sqlSchedulerStoreError ''inspect completion''))
          | (d', Affected n) \<Rightarrow>
              (d', if n = 0 then Inl ErrScheduledTaskReservationInvalid
                   else if n \<noteq> 1 then Inl (sqlSchedulerStoreError ''complete task'') else Inr ()))"

end
