(* ===== verification/SqlJobStore.thy ===== *)
theory SqlJobStore
  imports SqlSchedulerStore FileJobStore
begin

text \<open>
  The store of jobs in an SQL table: \<open>src/backend/framework/sql_job_store.go\<close>. As in the store of scheduled tasks there are no transactions: what a query
  saw is an argument, and the conditions of \<open>UPDATE\<close> and \<open>DELETE\<close> decide.
\<close>

section \<open>Data\<close>

record SQLJobStoreOptions =
  sjo_Table :: string
  sjo_PlaceholderStyle :: SQLPlaceholderStyle
  sjo_MaxPayloadBytes :: int

definition DefaultSQLJobStoreOptions :: SQLJobStoreOptions where
  "DefaultSQLJobStoreOptions =
     \<lparr>sjo_Table = ''bridra_jobs'', sjo_PlaceholderStyle = SQLPlaceholderQuestionMark,
      sjo_MaxPayloadBytes = defaultFileJobStoreMaxPayloadBytes\<rparr>"

text \<open>A row of the table; \<open>None\<close> is \<open>NULL\<close>.\<close>

record sql_job_row =
  jr_id :: string
  jr_handler :: string
  jr_payload :: string
  jr_available_at :: int
  jr_enqueued_at :: int
  jr_attempts :: int
  jr_reservation_token :: "string option"
  jr_reserved_until :: "int option"
  jr_failed_at :: "int option"
  jr_last_error :: "string option"

type_synonym 'd job_sql = "('d, sql_job_row) sql"

text \<open>\<open>None\<close> for the error \<open>ErrInvalidSQLJobStoreOptions\<close>.\<close>

definition normalizeSQLJobStoreOptions :: "SQLJobStoreOptions \<Rightarrow> SQLJobStoreOptions option" where
  "normalizeSQLJobStoreOptions options =
     (let table = trim_space (sjo_Table options);
          table = (if table = [] then sjo_Table DefaultSQLJobStoreOptions else table);
          style = (if sjo_PlaceholderStyle options = OtherPlaceholder [] then sjo_PlaceholderStyle DefaultSQLJobStoreOptions
                   else sjo_PlaceholderStyle options);
          maxPayload = (if sjo_MaxPayloadBytes options = 0 then sjo_MaxPayloadBytes DefaultSQLJobStoreOptions
                        else sjo_MaxPayloadBytes options)
      in if \<not> validSQLIdentifier table \<or> style \<noteq> SQLPlaceholderQuestionMark \<and> style \<noteq> SQLPlaceholderDollar \<or> maxPayload < 0 then None
         else Some \<lparr>sjo_Table = table, sjo_PlaceholderStyle = style, sjo_MaxPayloadBytes = maxPayload\<rparr>)"

definition sqlJobStoreTime :: "instant \<Rightarrow> int" where
  "sqlJobStoreTime value = unix_micro value"

text \<open>What a row says of its job.\<close>

definition row_job :: "sql_job_row \<Rightarrow> StoredJob" where
  "row_job row =
     \<lparr>ID = jr_id row, Handler = jr_handler row, Payload = jr_payload row, AvailableAt = time_unix_micro (jr_available_at row),
      EnqueuedAt = time_unix_micro (jr_enqueued_at row), Attempts = jr_attempts row\<rparr>"

definition scanSQLStoredJob :: "sql_job_row \<Rightarrow> int \<Rightarrow> StoredJob option" where
  "scanSQLStoredJob row maxPayloadBytes =
     (if jr_attempts row < 0 \<or> jr_attempts row > 2 ^ 63 - 1 then None
      else if validateStoredJob (row_job row) maxPayloadBytes \<noteq> None then None
      else Some (row_job row))"

definition scanSQLFailedJob :: "sql_job_row \<Rightarrow> int \<Rightarrow> FailedStoredJob option" where
  "scanSQLFailedJob row maxPayloadBytes =
     (case jr_failed_at row of
        None \<Rightarrow> None
      | Some failedAt \<Rightarrow>
          if jr_attempts row < 0 \<or> jr_attempts row > 2 ^ 63 - 1 then None
          else if validateStoredJob (row_job row) maxPayloadBytes \<noteq> None then None
          else Some \<lparr>FailedJob = row_job row, FailedAt = time_unix_micro failedAt,
                     FailedError = (case jr_last_error row of None \<Rightarrow> [] | Some e \<Rightarrow> e)\<rparr>)"

section \<open>Operations\<close>

definition sql_job_ready :: "go_context \<Rightarrow> job_error option" where
  "sql_job_ready ctx = (if ctx = NilContext then Some ErrJobContextUnavailable else map_option ErrContext (ctx_err ctx))"

definition sqlJobStoreError :: "string \<Rightarrow> job_error" where
  "sqlJobStoreError operation = ErrJobStoreOperationFailed (RemoteCall operation)"

text \<open>
  \<open>before\<close> and \<open>after\<close> are what \<open>jobExists\<close> answers, \<open>None\<close> for an error. An insertion that violates the primary key fails.
  An error that is joined with that of the second check is represented by the first.
\<close>

definition SqlEnqueue ::
  "'d job_sql \<Rightarrow> int \<Rightarrow> go_context \<Rightarrow> StoredJob \<Rightarrow> bool option \<Rightarrow> exec_io \<Rightarrow> bool option \<Rightarrow> 'd \<Rightarrow> 'd \<times> (job_error + unit)" where
  [op_defs]: "SqlEnqueue D maxPayloadBytes ctx job before io after d =
     (case sql_job_ready ctx of
        Some e \<Rightarrow> (d, Inl e)
      | None \<Rightarrow>
          (case validateStoredJob job maxPayloadBytes of
             Some e \<Rightarrow> (d, Inl e)
           | None \<Rightarrow>
               (case before of
                  None \<Rightarrow> (d, Inl (sqlJobStoreError ''check enqueue conflict''))
                | Some True \<Rightarrow> (d, Inl ErrJobStoreConflict)
                | Some False \<Rightarrow>
                    let row = \<lparr>jr_id = ID job, jr_handler = Handler job, jr_payload = Payload job,
                               jr_available_at = sqlJobStoreTime (AvailableAt job), jr_enqueued_at = sqlJobStoreTime (EnqueuedAt job),
                               jr_attempts = Attempts job, jr_reservation_token = None, jr_reserved_until = None,
                               jr_failed_at = None, jr_last_error = None\<rparr>;
                        failure = (if after = Some True then ErrJobStoreConflict else sqlJobStoreError ''enqueue'')
                    in case (if io = ExecNotRun then None else INSERT D row d) of
                         Some d' \<Rightarrow> (d', if io \<noteq> ExecReplyLost then Inr () else Inl failure)
                       | None \<Rightarrow> (d, Inl failure))))"

text \<open>
  The query for the first job that is due, on the table as it is. The update adds to a \<open>BIGINT\<close>, an error of the statement at the largest value.
\<close>

definition ready_row :: "int \<Rightarrow> sql_job_row \<Rightarrow> bool" where
  "ready_row now row =
     (jr_failed_at row = None \<and> jr_available_at row \<le> now \<and> (jr_reservation_token row = None \<or> at_most (jr_reserved_until row) now))"

definition row_order :: "sql_job_row \<Rightarrow> int \<times> int \<times> string" where
  "row_order row = (jr_available_at row, jr_enqueued_at row, jr_id row)"

definition readyJob :: "'d job_sql \<Rightarrow> instant \<Rightarrow> 'd \<Rightarrow> sql_job_row seen" where
  "readyJob D now d =
     (case sort_key row_order (SELECT D (ready_row (sqlJobStoreTime now)) d) of [] \<Rightarrow> SeenNothing | row # _ \<Rightarrow> SeenRow row)"

definition reservable_row :: "string \<Rightarrow> int \<Rightarrow> int \<Rightarrow> sql_job_row \<Rightarrow> bool" where
  "reservable_row jid attempts now row = (jr_id row = jid \<and> jr_attempts row = attempts \<and> ready_row now row)"

definition reserve_job_row :: "'d job_sql \<Rightarrow> string \<Rightarrow> int \<Rightarrow> string \<Rightarrow> int \<Rightarrow> int \<Rightarrow> 'd \<Rightarrow> 'd \<times> nat" where
  "reserve_job_row D token until jid attempts now =
     UPDATE D (\<lambda>row. row\<lparr>jr_reservation_token := Some token, jr_reserved_until := Some until, jr_attempts := jr_attempts row + 1\<rparr>)
       (reservable_row jid attempts now)"

definition addition_io :: "'d job_sql \<Rightarrow> string \<Rightarrow> int \<Rightarrow> int \<Rightarrow> exec_io \<Rightarrow> 'd \<Rightarrow> exec_io" where
  "addition_io D jid attempts now io d =
     (if attempts = 2 ^ 63 - 1 \<and> SELECT D (reservable_row jid attempts now) d \<noteq> [] then ExecNotRun else io)"

text \<open>
  The rounds of \<open>Reserve\<close>: what the query saw, the random bytes of the token, and how the update ends. A round whose update finds the row changed is
  followed by the next; the context is done when the list ends.
\<close>

fun sql_job_rounds ::
  "'d job_sql \<Rightarrow> int \<Rightarrow> instant \<Rightarrow> instant \<Rightarrow> (sql_job_row seen \<times> string option \<times> exec_io) list \<Rightarrow> 'd
    \<Rightarrow> 'd \<times> (job_error + JobReservation)" where
  "sql_job_rounds D maxPayloadBytes now reservedUntil [] d = (d, Inl (ErrContext Canceled))"
| "sql_job_rounds D maxPayloadBytes now reservedUntil ((query, random, io) # rounds) d =
     (case query of
        SeenNothing \<Rightarrow> (d, Inl ErrJobStoreEmpty)
      | SeenError \<Rightarrow> (d, Inl (sqlJobStoreError ''select ready job''))
      | SeenRow row \<Rightarrow>
          (case scanSQLStoredJob row maxPayloadBytes of
             None \<Rightarrow> (d, Inl (sqlJobStoreError ''select ready job''))
           | Some job \<Rightarrow>
               (case newJobIdentifier random of
                  Inl e \<Rightarrow> (d, Inl e)
                | Inr token \<Rightarrow>
                    (case exec (addition_io D (ID job) (Attempts job) (sqlJobStoreTime now) io d)
                            (reserve_job_row D token (sqlJobStoreTime reservedUntil) (ID job) (Attempts job) (sqlJobStoreTime now)) d of
                       (d', ExecFailed) \<Rightarrow> (d', Inl (sqlJobStoreError ''reserve job''))
                     | (d', CountFailed) \<Rightarrow> (d', Inl (sqlJobStoreError ''inspect reservation''))
                     | (d', Affected n) \<Rightarrow>
                         if n = 0 then sql_job_rounds D maxPayloadBytes now reservedUntil rounds d'
                         else if n \<noteq> 1 then (d', Inl (sqlJobStoreError ''reserve job''))
                         else (d', Inr \<lparr>Job = job\<lparr>Attempts := wrap64 (Attempts job + 1)\<rparr>, Token = token, ReservedUntil = reservedUntil\<rparr>)))))"

definition SqlReserve ::
  "'d job_sql \<Rightarrow> int \<Rightarrow> go_context \<Rightarrow> instant \<Rightarrow> duration \<Rightarrow> (sql_job_row seen \<times> string option \<times> exec_io) list \<Rightarrow> 'd
    \<Rightarrow> 'd \<times> (job_error + JobReservation)" where
  [op_defs]: "SqlReserve D maxPayloadBytes ctx now lease rounds d =
     (case sql_job_ready ctx of
        Some e \<Rightarrow> (d, Inl e)
      | None \<Rightarrow>
          if is_zero_time now \<or> lease \<le> 0 then (d, Inl ErrJobReservationInvalid)
          else sql_job_rounds D maxPayloadBytes now (now + lease) rounds d)"

text \<open>A statement that must affect one row.\<close>

definition requireOneAffected ::
  "exec_io \<Rightarrow> ('d \<Rightarrow> 'd \<times> nat) \<Rightarrow> string \<Rightarrow> job_error \<Rightarrow> 'd \<Rightarrow> 'd \<times> (job_error + unit)" where
  "requireOneAffected io statement operation zeroError d =
     (case exec io statement d of
        (d', ExecFailed) \<Rightarrow> (d', Inl (sqlJobStoreError operation))
      | (d', CountFailed) \<Rightarrow> (d', Inl (sqlJobStoreError (''inspect '' @ operation)))
      | (d', Affected n) \<Rightarrow>
          (d', if n = 0 then Inl zeroError else if n \<noteq> 1 then Inl (sqlJobStoreError operation) else Inr ()))"

definition sql_finishReservation ::
  "go_context \<Rightarrow> JobReservation \<Rightarrow> ('d \<Rightarrow> 'd \<times> nat) \<Rightarrow> string \<Rightarrow> exec_io \<Rightarrow> 'd \<Rightarrow> 'd \<times> (job_error + unit)" where
  "sql_finishReservation ctx reservation statement operation io d =
     (if ID (Job reservation) = [] \<or> Token reservation = [] then (d, Inl ErrJobReservationInvalid)
      else case sql_job_ready ctx of
        Some e \<Rightarrow> (d, Inl e)
      | None \<Rightarrow> requireOneAffected io statement operation ErrJobReservationInvalid d)"

definition reserved_row :: "JobReservation \<Rightarrow> sql_job_row \<Rightarrow> bool" where
  "reserved_row reservation row = (jr_id row = ID (Job reservation) \<and> jr_reservation_token row = Some (Token reservation))"

definition SqlRelease ::
  "'d job_sql \<Rightarrow> go_context \<Rightarrow> JobReservation \<Rightarrow> instant \<Rightarrow> string \<Rightarrow> exec_io \<Rightarrow> 'd \<Rightarrow> 'd \<times> (job_error + unit)" where
  [op_defs]: "SqlRelease D ctx reservation availableAt lastError io d =
     (if is_zero_time availableAt then (d, Inl ErrJobReservationInvalid)
      else sql_finishReservation ctx reservation
        (UPDATE D (\<lambda>row. row\<lparr>jr_available_at := sqlJobStoreTime availableAt, jr_reservation_token := None, jr_reserved_until := None,
                             jr_last_error := Some (normalizeFileJobStoreError lastError)\<rparr>) (reserved_row reservation))
        ''release job'' io d)"

definition SqlComplete :: "'d job_sql \<Rightarrow> go_context \<Rightarrow> JobReservation \<Rightarrow> exec_io \<Rightarrow> 'd \<Rightarrow> 'd \<times> (job_error + unit)" where
  [op_defs]: "SqlComplete D ctx reservation io d =
     sql_finishReservation ctx reservation (DELETE D (reserved_row reservation)) ''complete job'' io d"

definition SqlFail ::
  "'d job_sql \<Rightarrow> go_context \<Rightarrow> JobReservation \<Rightarrow> string \<Rightarrow> instant \<Rightarrow> exec_io \<Rightarrow> 'd \<Rightarrow> 'd \<times> (job_error + unit)" where
  [op_defs]: "SqlFail D ctx reservation lastError clock io d =
     sql_finishReservation ctx reservation
       (UPDATE D (\<lambda>row. row\<lparr>jr_reservation_token := None, jr_reserved_until := None, jr_failed_at := Some (sqlJobStoreTime clock),
                            jr_last_error := Some (normalizeFileJobStoreError lastError)\<rparr>) (reserved_row reservation))
       ''fail job'' io d"

fun scan_failed :: "int \<Rightarrow> sql_job_row list \<Rightarrow> FailedStoredJob list option" where
  "scan_failed maxPayloadBytes [] = Some []"
| "scan_failed maxPayloadBytes (row # rest) =
     (case scanSQLFailedJob row maxPayloadBytes of
        None \<Rightarrow> None
      | Some failed \<Rightarrow> map_option ((#) failed) (scan_failed maxPayloadBytes rest))"

definition failed_order :: "sql_job_row \<Rightarrow> int \<times> string" where
  "failed_order row = (case jr_failed_at row of None \<Rightarrow> 0 | Some t \<Rightarrow> t, jr_id row)"

text \<open>\<open>io\<close> says whether the query, its iteration and its end succeed.\<close>

definition SqlFailedJobs ::
  "'d job_sql \<Rightarrow> int \<Rightarrow> go_context \<Rightarrow> bool \<times> bool \<times> bool \<Rightarrow> 'd \<Rightarrow> job_error + FailedStoredJob list" where
  "SqlFailedJobs D maxPayloadBytes ctx io d =
     (case sql_job_ready ctx of
        Some e \<Rightarrow> Inl e
      | None \<Rightarrow>
          if \<not> fst io then Inl (sqlJobStoreError ''query failed jobs'')
          else case scan_failed maxPayloadBytes (sort_key failed_order (SELECT D (\<lambda>row. jr_failed_at row \<noteq> None) d)) of
            None \<Rightarrow> Inl (sqlJobStoreError ''scan failed job'')
          | Some failed \<Rightarrow>
              if \<not> fst (snd io) then Inl (sqlJobStoreError ''iterate failed jobs'')
              else if \<not> snd (snd io) then Inl (sqlJobStoreError ''close failed jobs'')
              else Inr failed)"

definition failed_row :: "string \<Rightarrow> sql_job_row \<Rightarrow> bool" where
  "failed_row jid row = (jr_id row = jid \<and> jr_failed_at row \<noteq> None)"

definition SqlRetryFailed :: "'d job_sql \<Rightarrow> go_context \<Rightarrow> string \<Rightarrow> instant \<Rightarrow> exec_io \<Rightarrow> 'd \<Rightarrow> 'd \<times> (job_error + unit)" where
  [op_defs]: "SqlRetryFailed D ctx jid availableAt io d =
     (if jid = [] \<or> is_zero_time availableAt then (d, Inl ErrJobStoreConflict)
      else case sql_job_ready ctx of
        Some e \<Rightarrow> (d, Inl e)
      | None \<Rightarrow>
          requireOneAffected io
            (UPDATE D (\<lambda>row. row\<lparr>jr_attempts := 0, jr_available_at := sqlJobStoreTime availableAt, jr_reservation_token := None,
                                 jr_reserved_until := None, jr_failed_at := None, jr_last_error := None\<rparr>) (failed_row jid))
            ''retry failed job'' ErrJobStoreConflict d)"

definition SqlForgetFailed :: "'d job_sql \<Rightarrow> go_context \<Rightarrow> string \<Rightarrow> exec_io \<Rightarrow> 'd \<Rightarrow> 'd \<times> (job_error + unit)" where
  [op_defs]: "SqlForgetFailed D ctx jid io d =
     (if jid = [] then (d, Inl ErrJobStoreConflict)
      else case sql_job_ready ctx of
        Some e \<Rightarrow> (d, Inl e)
      | None \<Rightarrow> requireOneAffected io (DELETE D (failed_row jid)) ''forget failed job'' ErrJobStoreConflict d)"

end
