(* ===== verification/SqlJobQueue.thy ===== *)
theory SqlJobQueue
  imports SqlJobStore JobStoreContract
begin

text \<open>
  The queue on an SQL database: the contract \<open>job_store\<close> is interpreted by the SQL store, for any database that runs its statements as the
  standard says, and reservations are shown to hold against clients whose queries are out of date.
\<close>

section \<open>What the statements do\<close>

definition row_view :: "sql_job_row \<Rightarrow> job_view" where
  "row_view row =
     \<lparr>jv_job = row_job row, jv_token = (case jr_reservation_token row of None \<Rightarrow> [] | Some t \<Rightarrow> t),
      jv_until = (case jr_reserved_until row of None \<Rightarrow> 0 | Some n \<Rightarrow> time_unix_micro n), jv_failed = (jr_failed_at row \<noteq> None)\<rparr>"

definition sql_job_view :: "'d job_sql \<Rightarrow> 'd \<Rightarrow> string \<Rightarrow> job_view option" where
  "sql_job_view D d i = map_option row_view (row_at jr_id D d i)"

lemma sql_job_view_same: "row_at jr_id D d' = row_at jr_id D d \<Longrightarrow> sql_job_view D d' = sql_job_view D d"
  by (rule ext) (simp add: sql_job_view_def)

lemma sql_job_view_row: "row_at jr_id D d' = (row_at jr_id D d)(i := r) \<Longrightarrow>
    sql_job_view D d' = (sql_job_view D d)(i := map_option row_view r)"
  by (rule ext) (simp add: sql_job_view_def)

definition taken_row :: "sql_job_row \<Rightarrow> string \<Rightarrow> int \<Rightarrow> sql_job_row" where
  "taken_row row token until =
     row\<lparr>jr_reservation_token := Some token, jr_reserved_until := Some until, jr_attempts := jr_attempts row + 1\<rparr>"

lemma taken_row_sel [simp]:
  "jr_id (taken_row row token until) = jr_id row" "jr_reservation_token (taken_row row token until) = Some token"
  "jr_reserved_until (taken_row row token until) = Some until" "jr_failed_at (taken_row row token until) = jr_failed_at row"
  "row_job (taken_row row token until) = (row_job row)\<lparr>Attempts := jr_attempts row + 1\<rparr>"
  by (simp_all add: taken_row_def row_job_def)

lemma reserve_job_row_effect:
  assumes T: "sql_table jr_id D" and run: "reserve_job_row D token until jid attempts now d = (d', n)"
  shows "n = 0 \<and> row_at jr_id D d' = row_at jr_id D d \<or>
    n = 1 \<and> (\<exists>row. row_at jr_id D d jid = Some row \<and> reservable_row jid attempts now row \<and>
      row_at jr_id D d' = (row_at jr_id D d)(jid \<mapsto> taken_row row token until))"
proof -
  define f where "f = (\<lambda>row. taken_row row token until)"
  define P where "P = reservable_row jid attempts now"
  have u: "UPDATE D f P d = (d', n)" using run by (simp add: reserve_job_row_def f_def P_def taken_row_def)
  have P: "\<And>r. P r \<Longrightarrow> jr_id r = jid" and f: "\<And>r. jr_id (f r) = jr_id r" by (simp_all add: P_def f_def reservable_row_def)
  show ?thesis
    by (rule update_count [where f = f and P = P and k = jid and d = d, OF T P f]) (use u in \<open>auto simp: f_def P_def\<close>)
qed

text \<open>What the rounds of a reservation do, whatever their queries saw.\<close>

definition taken_in ::
  "'d job_sql \<Rightarrow> int \<Rightarrow> instant \<Rightarrow> instant \<Rightarrow> sql_job_row seen set \<Rightarrow> 'd \<Rightarrow> 'd \<Rightarrow> JobReservation \<Rightarrow> bool" where
  "taken_in D maxPayloadBytes now until queries d d' v =
     (\<exists>seen job row. SeenRow seen \<in> queries \<and> scanSQLStoredJob seen maxPayloadBytes = Some job \<and>
        row_at jr_id D d (ID job) = Some row \<and> reservable_row (ID job) (Attempts job) (unix_micro now) row \<and> Attempts job \<noteq> 2 ^ 63 - 1 \<and>
        row_at jr_id D d' = (row_at jr_id D d)(ID job \<mapsto> taken_row row (Token v) (unix_micro until)) \<and>
        v = \<lparr>Job = job\<lparr>Attempts := wrap64 (Attempts job + 1)\<rparr>, Token = Token v, ReservedUntil = until\<rparr>)"

lemma taken_in_mono: "taken_in D mx now until A d d' v \<Longrightarrow> A \<subseteq> B \<Longrightarrow> taken_in D mx now until B d d' v"
  unfolding taken_in_def by blast

lemma taken_inE:
  assumes "taken_in D mx now until queries d d' v"
  obtains seen job row where "SeenRow seen \<in> queries" "scanSQLStoredJob seen mx = Some job" "row_at jr_id D d (ID job) = Some row"
    "reservable_row (ID job) (Attempts job) (unix_micro now) row" "Attempts job \<noteq> 2 ^ 63 - 1"
    "row_at jr_id D d' = (row_at jr_id D d)(ID job \<mapsto> taken_row row (Token v) (unix_micro until))"
    "Job v = job\<lparr>Attempts := wrap64 (Attempts job + 1)\<rparr>" "ReservedUntil v = until" "ID (Job v) = ID job"
proof -
  from assms obtain seen where "\<exists>job row. SeenRow seen \<in> queries \<and> scanSQLStoredJob seen mx = Some job \<and>
      row_at jr_id D d (ID job) = Some row \<and> reservable_row (ID job) (Attempts job) (unix_micro now) row \<and> Attempts job \<noteq> 2 ^ 63 - 1 \<and>
      row_at jr_id D d' = (row_at jr_id D d)(ID job \<mapsto> taken_row row (Token v) (unix_micro until)) \<and>
      v = \<lparr>Job = job\<lparr>Attempts := wrap64 (Attempts job + 1)\<rparr>, Token = Token v, ReservedUntil = until\<rparr>"
    unfolding taken_in_def by (rule exE)
  then show thesis
  proof (elim exE conjE)
    fix job row
    assume v: "v = \<lparr>Job = job\<lparr>Attempts := wrap64 (Attempts job + 1)\<rparr>, Token = Token v, ReservedUntil = until\<rparr>"
    have "Job v = job\<lparr>Attempts := wrap64 (Attempts job + 1)\<rparr>" "ReservedUntil v = until" by (subst v, simp)+
    moreover from this have "ID (Job v) = ID job" by simp
    moreover assume "SeenRow seen \<in> queries" "scanSQLStoredJob seen mx = Some job" "row_at jr_id D d (ID job) = Some row"
      "reservable_row (ID job) (Attempts job) (unix_micro now) row" "Attempts job \<noteq> 2 ^ 63 - 1"
      "row_at jr_id D d' = (row_at jr_id D d)(ID job \<mapsto> taken_row row (Token v) (unix_micro until))"
    ultimately show thesis by (intro that [of seen job row])
  qed
qed

lemma addition_at_largest:
  assumes "sql_table jr_id D" "row_at jr_id D d jid = Some row" "reservable_row jid attempts now row" "addition_io D jid attempts now io d \<noteq> ExecNotRun"
  shows "attempts \<noteq> 2 ^ 63 - 1"
proof
  assume "attempts = 2 ^ 63 - 1"
  moreover have "row \<in> set (SELECT D (reservable_row jid attempts now) d)"
    using sql_select [OF assms(1), of "reservable_row jid attempts now" d] row_at_iff [OF assms(1), of d jid row] assms(2,3) by simp
  then have "SELECT D (reservable_row jid attempts now) d \<noteq> []" by force
  ultimately show False using assms(4) by (simp add: addition_io_def)
qed

lemma exec_not_run: "exec ExecNotRun statement d = (d, ExecFailed)"
  by (simp add: exec_def)

lemma sql_job_rounds_effect:
  assumes T: "sql_table jr_id D" and run: "sql_job_rounds D mx now until rounds d = (d', res)"
  shows "row_at jr_id D d' = row_at jr_id D d \<and> \<not> is_ok res \<or>
    (\<exists>v. taken_in D mx now until (fst ` set rounds) d d' v \<and> (\<forall>w. res = Inr w \<longrightarrow> w = v))"
  using run
proof (induction rounds arbitrary: d)
  case (Cons x rounds)
  obtain query random io where x: "x = (query, random, io)" by (cases x) auto
  show ?case
  proof (cases "d' = d \<and> \<not> is_ok res")
    case False
    obtain seen where q: "query = SeenRow seen" using Cons.prems False by (cases query) (auto simp: x)
    obtain job where job: "scanSQLStoredJob seen mx = Some job" using Cons.prems False by (auto simp: x q split: option.splits)
    obtain token where token: "newJobIdentifier random = Inr token" using Cons.prems False by (auto simp: x q job split: sum.splits)
    let ?stmt = "reserve_job_row D token (unix_micro until) (ID job) (Attempts job) (unix_micro now)"
    let ?io = "addition_io D (ID job) (Attempts job) (unix_micro now) io d"
    obtain d1 a where e: "exec ?io ?stmt d = (d1, a)" by force
    obtain d2 n where s: "?stmt d = (d2, n)" by force
    have res: "(d', res) = (case a of ExecFailed \<Rightarrow> (d1, Inl (sqlJobStoreError ''reserve job''))
        | CountFailed \<Rightarrow> (d1, Inl (sqlJobStoreError ''inspect reservation''))
        | Affected n \<Rightarrow> if n = 0 then sql_job_rounds D mx now until rounds d1
            else if n \<noteq> 1 then (d1, Inl (sqlJobStoreError ''reserve job''))
            else (d1, Inr \<lparr>Job = job\<lparr>Attempts := wrap64 (Attempts job + 1)\<rparr>, Token = token, ReservedUntil = until\<rparr>))"
      using Cons.prems e by (simp add: x q job token sqlJobStoreTime_def)
    note eff = reserve_job_row_effect [OF T s]
    show ?thesis
    proof (cases "a = Affected 0")
      case True
      then have "row_at jr_id D d1 = row_at jr_id D d" using e eff s by (auto elim!: exec_cases)
      moreover have "sql_job_rounds D mx now until rounds d1 = (d', res)" using res True by simp
      ultimately have "row_at jr_id D d' = row_at jr_id D d \<and> \<not> is_ok res \<or>
          (\<exists>v. taken_in D mx now until (fst ` set rounds) d d' v \<and> (\<forall>w. res = Inr w \<longrightarrow> w = v))"
        using Cons.IH [of d1] by (simp add: taken_in_def)
      moreover have "fst ` set rounds \<subseteq> fst ` set (x # rounds)" by auto
      ultimately show ?thesis using taken_in_mono [of D mx now until "fst ` set rounds" d d'] by blast
    next
      case False
      then have d1: "d' = d1" "\<And>v. res = Inr v \<Longrightarrow> a = Affected 1 \<and>
          v = \<lparr>Job = job\<lparr>Attempts := wrap64 (Attempts job + 1)\<rparr>, Token = token, ReservedUntil = until\<rparr>"
        using res by (auto split: exec_result.splits if_splits)
      show ?thesis
      proof (cases "\<exists>row. row_at jr_id D d (ID job) = Some row \<and> reservable_row (ID job) (Attempts job) (unix_micro now) row \<and>
          d1 = d2 \<and> row_at jr_id D d2 = (row_at jr_id D d)(ID job \<mapsto> taken_row row token (unix_micro until)) \<and> ?io \<noteq> ExecNotRun")
        case True
        then obtain row where row: "row_at jr_id D d (ID job) = Some row" "reservable_row (ID job) (Attempts job) (unix_micro now) row"
          "d1 = d2" "row_at jr_id D d2 = (row_at jr_id D d)(ID job \<mapsto> taken_row row token (unix_micro until))" "?io \<noteq> ExecNotRun" by blast
        have "Attempts job \<noteq> 2 ^ 63 - 1" by (rule addition_at_largest [OF T row(1,2,5)])
        then have "taken_in D mx now until (fst ` set (x # rounds)) d d'
            \<lparr>Job = job\<lparr>Attempts := wrap64 (Attempts job + 1)\<rparr>, Token = token, ReservedUntil = until\<rparr>"
          unfolding taken_in_def d1(1) row(3) using job row(1,2,4)
          by (intro exI [of _ seen] exI [of _ job] exI [of _ row]) (simp add: x q)
        then show ?thesis using d1(2) by blast
      next
        case False
        have same: "row_at jr_id D d1 = row_at jr_id D d \<and> a \<noteq> Affected 1"
        proof (cases "?io = ExecNotRun")
          case True
          then show ?thesis using e by (auto simp: exec_not_run)
        next
          case nr: False
          from e show ?thesis
          proof (rule exec_cases)
            assume "d1 = fst (?stmt d)" "\<And>n. a = Affected n \<Longrightarrow> n = snd (?stmt d)"
            with s have "d1 = d2" "\<And>m. a = Affected m \<Longrightarrow> m = n" by simp_all
            with eff False nr show ?thesis by auto
          qed auto
        qed
        then show ?thesis using d1 by (auto simp: is_ok_iff)
      qed
    qed
  qed simp
qed (use is_ok.simps(1) in fastforce)

lemma SqlReserve_effect:
  assumes "sql_table jr_id D" "SqlReserve D mx ctx now lease rounds d = (d', res)"
  shows "row_at jr_id D d' = row_at jr_id D d \<and> \<not> is_ok res \<or>
    (\<exists>v. taken_in D mx now (now + lease) (fst ` set rounds) d d' v \<and> (\<forall>w. res = Inr w \<longrightarrow> w = v))"
proof (cases "sql_job_rounds D mx now (now + lease) rounds d = (d', res)")
  case False
  with assms(2) show ?thesis by (auto simp: SqlReserve_def split: option.splits if_splits)
qed (rule sql_job_rounds_effect [OF assms(1)])

lemma scanned_job: "scanSQLStoredJob row mx = Some job \<Longrightarrow> job = row_job row"
  by (auto simp: scanSQLStoredJob_def split: if_splits)

lemma scanned_id: "scanSQLStoredJob row mx = Some job \<Longrightarrow> ID job \<noteq> []"
  by (auto simp: scanSQLStoredJob_def validateStoredJob_def row_job_def split: if_splits dest: validJobIdentifier_nonempty)

lemma scanned_attempts: "scanSQLStoredJob row mx = Some job \<Longrightarrow> 0 \<le> Attempts job \<and> Attempts job \<le> 2 ^ 63 - 1"
  by (auto simp: scanSQLStoredJob_def row_job_def split: if_splits)

text \<open>Ending a reservation.\<close>

lemma requireOneAffected_cases:
  assumes "requireOneAffected io statement operation zeroError d = (d', res)"
  obtains (ran) "d' = fst (statement d)" "is_ok res \<Longrightarrow> snd (statement d) = 1" | (not_run) "d' = d" "\<not> is_ok res"
proof -
  obtain d1 a where e: "exec io statement d = (d1, a)" by force
  have res: "d' = d1" "is_ok res \<Longrightarrow> a = Affected 1"
    using assms e by (auto simp: requireOneAffected_def split: exec_result.splits if_splits)
  from e show thesis
  proof (rule exec_cases)
    assume "d1 = fst (statement d)" "\<And>n. a = Affected n \<Longrightarrow> n = snd (statement d)"
    with res ran show thesis by auto
  next
    assume "d1 = d" "\<And>n. a \<noteq> Affected n"
    with res not_run show thesis by blast
  qed
qed

lemma sql_finishReservation_cases:
  assumes "sql_finishReservation ctx v statement operation io d = (d', res)"
  obtains (ran) "d' = fst (statement d)" "is_ok res \<Longrightarrow> snd (statement d) = 1" | (not_run) "d' = d" "\<not> is_ok res"
  using assms by (auto simp: sql_finishReservation_def split: if_splits option.splits elim!: requireOneAffected_cases)

lemma row_view_token: "reserved_row v row \<Longrightarrow> jv_token (row_view row) = Token v \<and> jr_id row = ID (Job v)"
  by (simp add: reserved_row_def row_view_def)

lemma ended_by_update:
  assumes T: "sql_table jr_id D" and f: "\<And>r. jr_id (f r) = jr_id r"
    and g: "\<And>r. map_option row_view (Some (f r)) = g (row_view r)"
    and u: "UPDATE D f (reserved_row v) d = (d', n)"
  shows "n = 0 \<and> sql_job_view D d' = sql_job_view D d \<or> n = 1 \<and> ended_in g (sql_job_view D d) v (sql_job_view D d')"
proof -
  have P: "\<And>r. reserved_row v r \<Longrightarrow> jr_id r = ID (Job v)" by (simp add: reserved_row_def)
  show ?thesis
  proof (rule update_count [where f = f and P = "reserved_row v" and k = "ID (Job v)" and d = d, OF T P f])
    assume "snd (UPDATE D f (reserved_row v) d) = 0" "row_at jr_id D (fst (UPDATE D f (reserved_row v) d)) = row_at jr_id D d"
    then show ?thesis using u sql_job_view_same [of D d' d] by simp
  next
    fix r assume r: "snd (UPDATE D f (reserved_row v) d) = 1" "row_at jr_id D d (ID (Job v)) = Some r" "reserved_row v r"
      "row_at jr_id D (fst (UPDATE D f (reserved_row v) d)) = (row_at jr_id D d)(ID (Job v) \<mapsto> f r)"
    then have "sql_job_view D d' = (sql_job_view D d)(ID (Job v) := g (row_view r))"
      using u sql_job_view_row [of D d' d "ID (Job v)" "Some (f r)"] g by simp
    then show ?thesis using r u row_view_token by (auto simp: ended_in_def sql_job_view_def)
  qed
qed

lemma ended_by_delete:
  assumes T: "sql_table jr_id D" and u: "DELETE D (reserved_row v) d = (d', n)"
  shows "n = 0 \<and> sql_job_view D d' = sql_job_view D d \<or> n = 1 \<and> ended_in (\<lambda>_. None) (sql_job_view D d) v (sql_job_view D d')"
proof -
  have P: "\<And>r. reserved_row v r \<Longrightarrow> jr_id r = ID (Job v)" by (simp add: reserved_row_def)
  note del = row_at_delete [where P = "reserved_row v", OF T P, of d, unfolded u, simplified]
  show ?thesis
  proof (cases "\<exists>r. row_at jr_id D d (ID (Job v)) = Some r \<and> reserved_row v r")
    case True
    then obtain r where r: "row_at jr_id D d (ID (Job v)) = Some r" "reserved_row v r" by blast
    with del have "n = 1" "sql_job_view D d' = (sql_job_view D d)(ID (Job v) := None)"
      using sql_job_view_row [of D d' d "ID (Job v)" None] by simp_all
    then show ?thesis using r row_view_token by (auto simp: ended_in_def sql_job_view_def)
  next
    case False
    with del have "n = 0" "row_at jr_id D d' = row_at jr_id D d" by (auto split: option.splits)
    then show ?thesis using sql_job_view_same [of D d' d] by simp
  qed
qed

lemma finished_by:
  assumes "\<And>d1 n. statement d = (d1, n) \<Longrightarrow>
      n = 0 \<and> sql_job_view D d1 = sql_job_view D d \<or> n = 1 \<and> ended_in g (sql_job_view D d) v (sql_job_view D d1)"
    "sql_finishReservation ctx v statement operation io d = (d', res)"
  shows "sql_job_view D d' = sql_job_view D d \<and> \<not> is_ok res \<or> ended_in g (sql_job_view D d) v (sql_job_view D d')"
  using assms(2)
proof (cases rule: sql_finishReservation_cases)
  case ran
  then show ?thesis using assms(1) [of "fst (statement d)" "snd (statement d)"] by auto
qed auto

section \<open>The contract\<close>

record sql_job_env =
  je_before :: "bool option"
  je_after :: "bool option"
  je_query_fails :: bool
  je_random :: "string option"
  je_reserve_io :: exec_io
  je_io :: exec_io
  je_clock :: instant

text \<open>Calls that run one after another: the query of a reservation sees the table as it is.\<close>

definition sql_job_store :: "'d job_sql \<Rightarrow> int \<Rightarrow> (sql_job_env, 'd) JobStore" where
  "sql_job_store D maxPayloadBytes =
     \<lparr>js_Enqueue = \<lambda>env ctx j d. SqlEnqueue D maxPayloadBytes ctx j (je_before env) (je_io env) (je_after env) d,
      js_Reserve = \<lambda>env ctx now lease d. SqlReserve D maxPayloadBytes ctx now lease
        [(if je_query_fails env then SeenError else readyJob D now d, je_random env, je_reserve_io env)] d,
      js_Release = \<lambda>env ctx v t er d. SqlRelease D ctx v t er (je_io env) d,
      js_Complete = \<lambda>env ctx v d. SqlComplete D ctx v (je_io env) d,
      js_Fail = \<lambda>env ctx v er d. SqlFail D ctx v er (je_clock env) (je_io env) d\<rparr>"

lemma readyJob_row:
  assumes T: "sql_table jr_id D" and r: "readyJob D now d = SeenRow seen"
  shows "row_at jr_id D d (jr_id seen) = Some seen"
proof -
  let ?rows = "SELECT D (ready_row (sqlJobStoreTime now)) d"
  from r obtain more where "sort_key row_order ?rows = seen # more" by (auto simp: readyJob_def split: list.splits)
  then have "seen \<in> set (sort_key row_order ?rows)" by (simp only: list.set_intros)
  then have "seen \<in> set ?rows" by simp
  then have "seen \<in> rows D d" unfolding sql_select [OF T] by blast
  then show ?thesis using row_at_iff [OF T] by blast
qed

lemma row_job_sel [simp]: "ID (row_job row) = jr_id row" "Attempts (row_job row) = jr_attempts row"
  by (simp_all add: row_job_def)

lemma taken_reserved:
  assumes T: "sql_table jr_id D" and t: "taken_in D mx now until {readyJob D now d} d d' v"
  shows "reserved_in whole_micros now (sql_job_view D d) v (sql_job_view D d')"
proof -
  from t obtain seen job row where x: "SeenRow seen \<in> {readyJob D now d}" "scanSQLStoredJob seen mx = Some job"
    "row_at jr_id D d (ID job) = Some row" "reservable_row (ID job) (Attempts job) (unix_micro now) row" "Attempts job \<noteq> 2 ^ 63 - 1"
    "row_at jr_id D d' = (row_at jr_id D d)(ID job \<mapsto> taken_row row (Token v) (unix_micro until))"
    "Job v = job\<lparr>Attempts := wrap64 (Attempts job + 1)\<rparr>" "ReservedUntil v = until" "ID (Job v) = ID job"
    by (rule taken_inE)
  have row: "row = seen" "job = row_job row"
    using readyJob_row [OF T, of now d seen] scanned_job [OF x(2)] x(1,3) by simp_all
  have w: "wrap64 (jr_attempts row + 1) = jr_attempts row + 1" using scanned_attempts [OF x(2)] x(5) by (simp add: row)
  have v: "Job v = (row_job row)\<lparr>Attempts := jr_attempts row + 1\<rparr>" "ReservedUntil v = until"
    using x(7,8) by (simp_all add: row(2) w)
  have "sql_job_view D d' = (sql_job_view D d)(ID job \<mapsto> row_view (taken_row row (Token v) (unix_micro until)))"
    using sql_job_view_row [OF x(6)] by simp
  moreover have "jr_available_at row \<le> unix_micro now" "jr_failed_at row = None"
    "jr_reservation_token row = None \<or> at_most (jr_reserved_until row) (unix_micro now)"
    using x(4) by (simp_all add: reservable_row_def ready_row_def)
  then have "AvailableAt (row_job row) \<le> now" "\<not> jv_failed (row_view row)" "jv_token (row_view row) = [] \<or> jv_until (row_view row) \<le> now"
    by (auto simp: row_job_def row_view_def at_most_def micros_before split: option.splits)
  ultimately show ?thesis
    unfolding reserved_in_def using x(3) v w
    by (intro exI [of _ "row_view row"]) (simp add: sql_job_view_def row_view_def row(2) whole_micros_def)
qed

lemma SqlReserve_fresh:
  assumes T: "sql_table jr_id D"
    and run: "SqlReserve D mx ctx now lease [(if fails then SeenError else readyJob D now d, random, io)] d = (d', res)"
  shows "sql_job_view D d' = sql_job_view D d \<and> \<not> is_ok res \<or>
    (\<exists>v. reserved_in whole_micros now (sql_job_view D d) v (sql_job_view D d') \<and> (\<forall>w. res = Inr w \<longrightarrow> w = v))"
proof -
  let ?q = "if fails then SeenError else readyJob D now d"
  from SqlReserve_effect [OF T run] show ?thesis
  proof (elim disjE exE conjE)
    assume "row_at jr_id D d' = row_at jr_id D d" "\<not> is_ok res"
    then show ?thesis using sql_job_view_same [of D d' d] by simp
  next
    fix v assume v: "taken_in D mx now (now + lease) (fst ` set [(?q, random, io)]) d d' v" "\<forall>w. res = Inr w \<longrightarrow> w = v"
    have "taken_in D mx now (now + lease) {readyJob D now d} d d' v"
    proof (cases fails)
      case True
      with v(1) show ?thesis by (simp add: taken_in_def)
    qed (use v(1) in simp)
    from taken_reserved [OF T this] v(2) show ?thesis by blast
  qed
qed

lemma carried_views:
  "map_option row_view (Some (row\<lparr>jr_available_at := unix_micro t, jr_reservation_token := None, jr_reserved_until := None, jr_last_error := e\<rparr>)) =
     carried_out whole_micros (TryAgain t) (row_view row)"
  "map_option row_view (Some (row\<lparr>jr_reservation_token := None, jr_reserved_until := None, jr_failed_at := Some c, jr_last_error := e\<rparr>)) =
     carried_out whole_micros (Buried qe) (row_view row)"
  "carried_out whole_micros Finished = (\<lambda>_. None)"
  by (auto simp: carried_out_def row_view_def row_job_def whole_micros_def)

lemma SqlRelease_effect:
  assumes T: "sql_table jr_id D" and run: "SqlRelease D ctx v t er io d = (d', res)"
  shows "sql_job_view D d' = sql_job_view D d \<and> \<not> is_ok res \<or>
    ended_in (carried_out whole_micros (TryAgain t)) (sql_job_view D d) v (sql_job_view D d')"
proof (cases "is_zero_time t")
  case False
  define f :: "sql_job_row \<Rightarrow> sql_job_row" where "f = (\<lambda>row. row\<lparr>jr_available_at := unix_micro t, jr_reservation_token := None, jr_reserved_until := None,
      jr_last_error := Some (normalizeFileJobStoreError er)\<rparr>)"
  show ?thesis
    by (rule finished_by [where statement = "UPDATE D f (reserved_row v)", OF ended_by_update [OF T]])
      (use run False in \<open>auto simp: f_def carried_views(1) [simplified] SqlRelease_def sqlJobStoreTime_def\<close>)
qed (use run in \<open>auto simp: SqlRelease_def\<close>)

lemma SqlFail_effect:
  assumes T: "sql_table jr_id D" and run: "SqlFail D ctx v er clock io d = (d', res)"
  shows "sql_job_view D d' = sql_job_view D d \<and> \<not> is_ok res \<or>
    ended_in (carried_out whole_micros (Buried qe)) (sql_job_view D d) v (sql_job_view D d')"
proof -
  define f :: "sql_job_row \<Rightarrow> sql_job_row" where "f = (\<lambda>row. row\<lparr>jr_reservation_token := None, jr_reserved_until := None, jr_failed_at := Some (unix_micro clock),
      jr_last_error := Some (normalizeFileJobStoreError er)\<rparr>)"
  show ?thesis
    by (rule finished_by [where statement = "UPDATE D f (reserved_row v)", OF ended_by_update [OF T]])
      (use run in \<open>auto simp: f_def carried_views(2) [where qe = qe, simplified] SqlFail_def sqlJobStoreTime_def\<close>)
qed

lemma SqlComplete_effect:
  assumes T: "sql_table jr_id D" and run: "SqlComplete D ctx v io d = (d', res)"
  shows "sql_job_view D d' = sql_job_view D d \<and> \<not> is_ok res \<or>
    ended_in (carried_out whole_micros Finished) (sql_job_view D d) v (sql_job_view D d')"
  unfolding carried_views(3)
  by (rule finished_by [where statement = "DELETE D (reserved_row v)", OF ended_by_delete [OF T]])
    (use run in \<open>auto simp: SqlComplete_def\<close>)

interpretation sql_jobs: job_store "sql_job_store D mx" "\<lambda>_. True" "sql_job_view D" "\<lambda>_. sql_table jr_id D" whole_micros
  for D :: "'d job_sql" and mx
proof (unfold_locales, goal_cases)
  case (1 s env ctx now lease s' v)
  from SqlReserve_fresh [OF 1(1), of mx ctx now lease "je_query_fails env" s "je_random env" "je_reserve_io env" s' "Inr v"] 1
  show ?case by (auto simp: sql_job_store_def leases_recovered_def intro!: exI [of _ "sql_job_view D s"])
next
  case (2 s env ctx now lease s' e)
  from SqlReserve_fresh [OF 2(1), of mx ctx now lease "je_query_fails env" s "je_random env" "je_reserve_io env" s' "Inl e"] 2
  show ?case by (auto simp: sql_job_store_def leases_recovered_def intro!: exI [of _ "sql_job_view D s"])
next
  case (3 s env ctx v s' u)
  from SqlComplete_effect [OF 3(1), of ctx v "je_io env" s s' "Inr u"] 3 show ?case by (auto simp: sql_job_store_def)
next
  case (4 s env ctx v s' e)
  from SqlComplete_effect [OF 4(1), of ctx v "je_io env" s s' "Inl e"] 4 show ?case by (auto simp: sql_job_store_def)
next
  case (5 s env ctx v t er s' u)
  from SqlRelease_effect [OF 5(1), of ctx v t er "je_io env" s s' "Inr u"] 5 show ?case by (auto simp: sql_job_store_def)
next
  case (6 s env ctx v t er s' e)
  from SqlRelease_effect [OF 6(1), of ctx v t er "je_io env" s s' "Inl e"] 6 show ?case by (auto simp: sql_job_store_def)
next
  case (7 env s ctx v er s' u qe)
  from SqlFail_effect [OF 7(2), of ctx v er "je_clock env" "je_io env" s s' "Inr u" qe] 7 show ?case by (auto simp: sql_job_store_def)
next
  case (8 env s ctx v er s' e qe)
  from SqlFail_effect [OF 8(2), of ctx v er "je_clock env" "je_io env" s s' "Inl e" qe] 8 show ?case by (auto simp: sql_job_store_def)
qed

section \<open>Properties\<close>

text \<open>The calls of clients of the table, each with what its queries saw.\<close>

datatype sql_job_call =
    CallEnqueue go_context StoredJob "bool option" exec_io "bool option"
  | CallReserve go_context instant duration "(sql_job_row seen \<times> string option \<times> exec_io) list"
  | CallRelease go_context JobReservation instant string exec_io
  | CallComplete go_context JobReservation exec_io
  | CallFail go_context JobReservation string instant exec_io
  | CallRetryFailed go_context string instant exec_io
  | CallForgetFailed go_context string exec_io

fun call_sql :: "'d job_sql \<Rightarrow> int \<Rightarrow> sql_job_call \<Rightarrow> 'd \<Rightarrow> 'd" where
  "call_sql D mx (CallEnqueue ctx j before io after) d = fst (SqlEnqueue D mx ctx j before io after d)"
| "call_sql D mx (CallReserve ctx now lease rounds) d = fst (SqlReserve D mx ctx now lease rounds d)"
| "call_sql D mx (CallRelease ctx v t er io) d = fst (SqlRelease D ctx v t er io d)"
| "call_sql D mx (CallComplete ctx v io) d = fst (SqlComplete D ctx v io d)"
| "call_sql D mx (CallFail ctx v er clock io) d = fst (SqlFail D ctx v er clock io d)"
| "call_sql D mx (CallRetryFailed ctx jid t io) d = fst (SqlRetryFailed D ctx jid t io d)"
| "call_sql D mx (CallForgetFailed ctx jid io) d = fst (SqlForgetFailed D ctx jid io d)"

text \<open>Calls other than the holder's, while the lease of \<open>v\<close> runs, counted in whole microseconds.\<close>

definition names_reservation :: "JobReservation \<Rightarrow> JobReservation \<Rightarrow> bool" where
  "names_reservation v w = (ID (Job w) = ID (Job v) \<and> Token w = Token v)"

fun leaves_alone :: "JobReservation \<Rightarrow> sql_job_call \<Rightarrow> bool" where
  "leaves_alone v (CallReserve ctx now lease rounds) = (unix_micro now < unix_micro (ReservedUntil v))"
| "leaves_alone v (CallRelease ctx w t er io) = (\<not> names_reservation v w)"
| "leaves_alone v (CallComplete ctx w io) = (\<not> names_reservation v w)"
| "leaves_alone v (CallFail ctx w er clock io) = (\<not> names_reservation v w)"
| "leaves_alone v _ = True"

definition held_row :: "'d job_sql \<Rightarrow> JobReservation \<Rightarrow> 'd \<Rightarrow> bool" where
  "held_row D v d =
     (\<exists>row. row_at jr_id D d (ID (Job v)) = Some row \<and> jr_reservation_token row = Some (Token v) \<and>
        jr_reserved_until row = Some (unix_micro (ReservedUntil v)) \<and> jr_failed_at row = None)"

lemma held_row_same: "row_at jr_id D d' = row_at jr_id D d \<Longrightarrow> held_row D v d' = held_row D v d"
  by (simp add: held_row_def)

lemma held_row_update:
  assumes T: "sql_table jr_id D" and P: "\<And>r. P r \<Longrightarrow> jr_id r = k" and f: "\<And>r. jr_id (f r) = jr_id r"
    and other: "\<And>r. P r \<Longrightarrow> jr_id r = ID (Job v) \<Longrightarrow> jr_reservation_token r = Some (Token v) \<Longrightarrow> jr_failed_at r = None \<Longrightarrow> False"
    and held: "held_row D v d"
  shows "held_row D v (fst (UPDATE D f P d))"
proof -
  note at = row_at_update [where P = P and k = k and f = f and d = d, OF T P f]
  from held obtain row where row: "row_at jr_id D d (ID (Job v)) = Some row" "jr_reservation_token row = Some (Token v)" "jr_failed_at row = None"
    "jr_reserved_until row = Some (unix_micro (ReservedUntil v))"
    by (auto simp: held_row_def)
  have "jr_id row = ID (Job v)" using row_at_iff [OF T] row(1) by blast
  with other row have "\<not> P row" by blast
  with row(1) have "row_at jr_id D (fst (UPDATE D f P d)) (ID (Job v)) = Some row"
    by (cases "k = ID (Job v)") (simp_all add: at split: option.splits)
  with row show ?thesis by (simp add: held_row_def)
qed

lemma held_row_delete:
  assumes T: "sql_table jr_id D" and P: "\<And>r. P r \<Longrightarrow> jr_id r = k"
    and other: "\<And>r. P r \<Longrightarrow> jr_id r = ID (Job v) \<Longrightarrow> jr_reservation_token r = Some (Token v) \<Longrightarrow> jr_failed_at r = None \<Longrightarrow> False"
    and held: "held_row D v d"
  shows "held_row D v (fst (DELETE D P d))"
proof -
  note at = row_at_delete(1) [where P = P and k = k and d = d, OF T P]
  from held obtain row where row: "row_at jr_id D d (ID (Job v)) = Some row" "jr_reservation_token row = Some (Token v)" "jr_failed_at row = None"
    "jr_reserved_until row = Some (unix_micro (ReservedUntil v))"
    by (auto simp: held_row_def)
  have "jr_id row = ID (Job v)" using row_at_iff [OF T] row(1) by blast
  with other row have "\<not> P row" by blast
  with row(1) have "row_at jr_id D (fst (DELETE D P d)) (ID (Job v)) = Some row"
    by (cases "k = ID (Job v)") (simp_all add: at split: option.splits)
  with row show ?thesis by (simp add: held_row_def)
qed

lemma held_after_reserve: "taken_in D mx now until queries d d' v \<Longrightarrow> held_row D v d'"
  by (erule taken_inE) (simp add: held_row_def reservable_row_def ready_row_def)

lemma held_not_ready:
  "held_row D v d \<Longrightarrow> unix_micro now < unix_micro (ReservedUntil v) \<Longrightarrow> row_at jr_id D d jid = Some row \<Longrightarrow>
     reservable_row jid attempts (unix_micro now) row \<Longrightarrow> jid \<noteq> ID (Job v)"
  by (auto simp: held_row_def reservable_row_def ready_row_def at_most_def)

lemma held_row_finish:
  assumes "held_row D v (fst (statement d))" "held_row D v d"
  shows "held_row D v (fst (sql_finishReservation ctx w statement operation io d))"
proof -
  obtain d' res where run: "sql_finishReservation ctx w statement operation io d = (d', res)" by force
  then have "held_row D v d'" by (cases rule: sql_finishReservation_cases) (use assms in auto)
  then show ?thesis by (simp add: run)
qed

lemma held_row_call:
  assumes T: "sql_table jr_id D" and held: "held_row D v d" and alone: "leaves_alone v call"
  shows "held_row D v (call_sql D mx call d)"
proof (cases call)
  case (CallEnqueue ctx j before io after)
  show ?thesis
  proof (cases "call_sql D mx call d = d")
    case False
    then obtain row where "INSERT D row d = Some (call_sql D mx call d)"
      by (auto simp: CallEnqueue SqlEnqueue_def Let_def split: option.splits if_splits bool.splits)
    from row_at_insert [OF T this] held show ?thesis by (auto simp: held_row_def)
  qed (simp add: held)
next
  case (CallReserve ctx now lease rounds)
  obtain d' res where run: "SqlReserve D mx ctx now lease rounds d = (d', res)" by force
  from SqlReserve_effect [OF T run] have "held_row D v d'"
  proof (elim disjE exE conjE)
    assume "row_at jr_id D d' = row_at jr_id D d"
    then show ?thesis using held by (simp add: held_row_def)
  next
    fix w assume "taken_in D mx now (now + lease) (fst ` set rounds) d d' w"
    then obtain job :: StoredJob and row where x: "row_at jr_id D d (ID job) = Some row" "reservable_row (ID job) (Attempts job) (unix_micro now) row"
      "row_at jr_id D d' = (row_at jr_id D d)(ID job \<mapsto> taken_row row (Token w) (unix_micro (now + lease)))"
      by (rule taken_inE) blast
    have "ID job \<noteq> ID (Job v)" by (rule held_not_ready [OF held _ x(1,2)]) (use alone in \<open>simp add: CallReserve\<close>)
    then show ?thesis using held x(3) by (simp add: held_row_def)
  qed
  then show ?thesis by (simp add: CallReserve run)
next
  case (CallRelease ctx w t er io)
  show ?thesis
  proof (cases "is_zero_time t")
    case False
    define f :: "sql_job_row \<Rightarrow> sql_job_row" where "f = (\<lambda>row. row\<lparr>jr_available_at := sqlJobStoreTime t, jr_reservation_token := None,
      jr_reserved_until := None, jr_last_error := Some (normalizeFileJobStoreError er)\<rparr>)"
    have "held_row D v (fst (UPDATE D f (reserved_row w) d))"
      by (rule held_row_update [OF T, where k = "ID (Job w)"])
        (use alone held in \<open>auto simp: f_def reserved_row_def CallRelease names_reservation_def\<close>)
    from held_row_finish [where statement = "UPDATE D f (reserved_row w)", OF this held] False show ?thesis
      by (simp add: CallRelease SqlRelease_def f_def)
  qed (simp add: CallRelease SqlRelease_def held)
next
  case (CallComplete ctx w io)
  have "held_row D v (fst (DELETE D (reserved_row w) d))"
    by (rule held_row_delete [OF T, where k = "ID (Job w)"])
      (use alone held in \<open>auto simp: reserved_row_def CallComplete names_reservation_def\<close>)
  from held_row_finish [where statement = "DELETE D (reserved_row w)", OF this held] show ?thesis
    by (simp add: CallComplete SqlComplete_def)
next
  case (CallFail ctx w er clock io)
  define f :: "sql_job_row \<Rightarrow> sql_job_row" where "f = (\<lambda>row. row\<lparr>jr_reservation_token := None, jr_reserved_until := None,
    jr_failed_at := Some (sqlJobStoreTime clock), jr_last_error := Some (normalizeFileJobStoreError er)\<rparr>)"
  have "held_row D v (fst (UPDATE D f (reserved_row w) d))"
    by (rule held_row_update [OF T, where k = "ID (Job w)"])
      (use alone held in \<open>auto simp: f_def reserved_row_def CallFail names_reservation_def\<close>)
  from held_row_finish [where statement = "UPDATE D f (reserved_row w)", OF this held] show ?thesis
    by (simp add: CallFail SqlFail_def f_def)
next
  case (CallRetryFailed ctx jid t io)
  define f :: "sql_job_row \<Rightarrow> sql_job_row" where "f = (\<lambda>row. row\<lparr>jr_attempts := 0, jr_available_at := sqlJobStoreTime t, jr_reservation_token := None,
    jr_reserved_until := None, jr_failed_at := None, jr_last_error := None\<rparr>)"
  have u: "held_row D v (fst (UPDATE D f (failed_row jid) d))"
    by (rule held_row_update [OF T, where k = jid]) (use held in \<open>auto simp: f_def failed_row_def\<close>)
  obtain d' res where r: "requireOneAffected io (UPDATE D f (failed_row jid)) ''retry failed job'' ErrJobStoreConflict d = (d', res)" by force
  then have "held_row D v d'" by (cases rule: requireOneAffected_cases) (simp_all add: u held)
  then show ?thesis using r by (auto simp: CallRetryFailed SqlRetryFailed_def f_def held split: option.splits)
next
  case (CallForgetFailed ctx jid io)
  have u: "held_row D v (fst (DELETE D (failed_row jid) d))"
    by (rule held_row_delete [OF T, where k = jid]) (use held in \<open>auto simp: failed_row_def\<close>)
  obtain d' res where r: "requireOneAffected io (DELETE D (failed_row jid)) ''forget failed job'' ErrJobStoreConflict d = (d', res)" by force
  then have "held_row D v d'" by (cases rule: requireOneAffected_cases) (simp_all add: u held)
  then show ?thesis using r by (auto simp: CallForgetFailed SqlForgetFailed_def held split: option.splits)
qed

lemma held_row_calls:
  "sql_table jr_id D \<Longrightarrow> held_row D v d \<Longrightarrow> list_all (leaves_alone v) calls \<Longrightarrow> held_row D v (fold (call_sql D mx) calls d)"
  by (induction calls arbitrary: d) (simp_all add: held_row_call)

lemma held_completes:
  assumes T: "sql_table jr_id D" and held: "held_row D v d" and names: "ID (Job v) \<noteq> []" "Token v \<noteq> []"
  shows "is_ok (ret (SqlComplete D LiveContext v ExecReplies d))"
proof -
  from held obtain row where row: "row_at jr_id D d (ID (Job v)) = Some row" "jr_reservation_token row = Some (Token v)"
    by (auto simp: held_row_def)
  then have "jr_id row = ID (Job v)" using row_at_iff [OF T] by blast
  with row have "snd (DELETE D (reserved_row v) d) = 1"
    using row_at_delete(2) [where P = "reserved_row v" and k = "ID (Job v)", OF T, of d] by (simp add: reserved_row_def)
  then show ?thesis using names
    by (simp add: SqlComplete_def sql_finishReservation_def sql_job_ready_def requireOneAffected_def exec_def)
qed

text \<open>
  C16. A reservation on an SQL database holds without transactions. After a successful \<open>Reserve\<close>, whatever calls other clients make before the lease
  ends, counted in whole microseconds, however their statements fail and however out of date their queries are, no other reservation is
  of the same job, and the holder can still complete it.
\<close>

theorem sql_reservation_holds:
  assumes "sql_table jr_id D" "SqlReserve D mx ctx now lease rounds d = (d1, Inr v)" "Token v \<noteq> []" "list_all (leaves_alone v) calls"
    "unix_micro now' < unix_micro (ReservedUntil v)"
    "SqlReserve D mx ctx' now' lease' rounds' (fold (call_sql D mx) calls d1) = (d2, r)"
  shows "(\<forall>w. r = Inr w \<longrightarrow> ID (Job w) \<noteq> ID (Job v)) \<and> is_ok (ret (SqlComplete D LiveContext v ExecReplies d2))"
proof -
  from SqlReserve_effect [OF assms(1,2)] have t: "taken_in D mx now (now + lease) (fst ` set rounds) d d1 v" by auto
  have names: "ID (Job v) \<noteq> []" by (rule taken_inE [OF t]) (simp add: scanned_id)
  let ?d = "fold (call_sql D mx) calls d1"
  have held: "held_row D v ?d" by (rule held_row_calls [OF assms(1) held_after_reserve [OF t] assms(4)])
  have "held_row D v d2" using held_row_call [OF assms(1) held, of "CallReserve ctx' now' lease' rounds'" mx] assms(5,6) by simp
  then have done': "is_ok (ret (SqlComplete D LiveContext v ExecReplies d2))" by (rule held_completes [OF assms(1) _ names assms(3)])
  have "ID (Job w) \<noteq> ID (Job v)" if "r = Inr w" for w
  proof -
    from SqlReserve_effect [OF assms(1,6)] that have "taken_in D mx now' (now' + lease') (fst ` set rounds') ?d d2 w" by auto
    then obtain job :: StoredJob and row where x: "row_at jr_id D ?d (ID job) = Some row" "reservable_row (ID job) (Attempts job) (unix_micro now') row"
      "ID (Job w) = ID job"
      by (rule taken_inE) blast
    have "ID job \<noteq> ID (Job v)" by (rule held_not_ready [OF held assms(5) x(1,2)])
    then show ?thesis by (simp add: x(3))
  qed
  with done' show ?thesis by blast
qed

text \<open>Two jobs in a table, and clients who saw the first of them free.\<close>

definition free_job_row :: "char \<Rightarrow> sql_job_row" where
  "free_job_row c = \<lparr>jr_id = replicate 64 c, jr_handler = ''h'', jr_payload = ''1'', jr_available_at = 5, jr_enqueued_at = 5, jr_attempts = 0,
     jr_reservation_token = None, jr_reserved_until = None, jr_failed_at = None, jr_last_error = None\<rparr>"

definition sql_clock :: instant where "sql_clock = unix_epoch + 10000"

definition sql_reserve_seen :: "string \<Rightarrow> sql_job_row list \<Rightarrow> sql_job_row list \<Rightarrow> sql_job_row list \<times> (job_error + JobReservation)" where
  "sql_reserve_seen random seen d =
     SqlReserve (memory_sql jr_id) 100 LiveContext sql_clock 20000 (map (\<lambda>row. (SeenRow row, Some random, ExecReplies)) seen) d"

definition first_sql_run :: "sql_job_row list \<times> (job_error + JobReservation)" where
  "first_sql_run = sql_reserve_seen ''x'' [free_job_row CHR ''a''] [free_job_row CHR ''a'', free_job_row CHR ''b'']"

definition stale_calls :: "sql_job_call list" where
  "stale_calls =
     [CallReserve LiveContext sql_clock 20000 [(SeenRow (free_job_row CHR ''a''), Some ''y'', ExecReplies)],
      CallForgetFailed LiveContext (replicate 64 CHR ''a'') ExecReplies,
      CallComplete LiveContext \<lparr>Job = row_job (free_job_row CHR ''a''), Token = ''y'', ReservedUntil = 0\<rparr> ExecReplies]"

definition second_sql_run :: "sql_job_row list \<times> (job_error + JobReservation)" where
  "second_sql_run = sql_reserve_seen ''z'' [free_job_row CHR ''a'', free_job_row CHR ''b''] (fold (call_sql (memory_sql jr_id) 100) stale_calls (post first_sql_run))"

lemma sql_runs_ok: "is_ok (ret first_sql_run)" "is_ok (ret second_sql_run)"
  by code_simp+

theorem sql_reservation_holds_witness:
  "ID (Job (projr (ret second_sql_run))) \<noteq> ID (Job (projr (ret first_sql_run)))"
proof -
  let ?v = "projr (ret first_sql_run)"
  have run: "SqlReserve (memory_sql jr_id) 100 LiveContext sql_clock 20000 [(SeenRow (free_job_row CHR ''a''), Some ''x'', ExecReplies)]
      [free_job_row CHR ''a'', free_job_row CHR ''b''] = (post first_sql_run, Inr ?v)"
    using ok_outcome [OF sql_runs_ok(1)] by (simp add: first_sql_run_def sql_reserve_seen_def)
  have "SqlReserve (memory_sql jr_id) 100 LiveContext sql_clock 20000
      (map (\<lambda>row. (SeenRow row, Some ''z'', ExecReplies)) [free_job_row CHR ''a'', free_job_row CHR ''b''])
      (fold (call_sql (memory_sql jr_id) 100) stale_calls (post first_sql_run)) = (post second_sql_run, Inr (projr (ret second_sql_run)))"
    using ok_outcome [OF sql_runs_ok(2)] by (simp only: second_sql_run_def sql_reserve_seen_def)
  moreover have "Token ?v \<noteq> []" by code_simp
  moreover have "list_all (leaves_alone ?v) stale_calls" by code_simp
  moreover have "unix_micro sql_clock < unix_micro (ReservedUntil ?v)" by code_simp
  ultimately show ?thesis using sql_reservation_holds [OF memory_sql_table run] by blast
qed

text \<open>
  Also on an SQL database the handler of a job runs at most as often as the job has attempts left, whatever statements fail or lose their
  replies: a job at attempt \<open>a\<close> whose handler allows \<open>m\<close> attempts runs at most \<open>m - a\<close> more times in any sequence of turns of workers.
\<close>

theorem sql_worker_runs_bounded:
  assumes "sql_table jr_id D" "row_at jr_id D d i = Some row" "0 \<le> jr_attempts row" "map_of (q_handlersByName q) (jr_handler row) = Some h"
    "jr_attempts row + int (length turns) < 2 ^ 63"
  shows "int (count_list (snd (worker_run (sql_job_store D mx) render q turns d)) i) \<le> max 0 (MaxAttempts (h_options h) - jr_attempts row)"
  using sql_jobs.runs_bounded [OF assms(1), of d i "row_view row" q h turns mx render] assms
  by (simp add: sql_job_view_def row_view_def row_job_def list_all_iff)

text \<open>A job at its first attempt, whose handler always fails and may be tried twice.\<close>

definition sql_queue :: "string JobQueue" where
  "sql_queue =
     \<lparr>q_options = DefaultJobQueueOptions\<lparr>HasStore := True\<rparr>, q_handlers = [],
      q_handlersByName = [(''h'', \<lparr>h_jobType = ''T'', h_name = ''h'', h_options = \<lparr>MaxAttempts = 2, RetryBackoff = 10\<rparr>,
        h_handle = \<lambda>_ _. HandlerFails ''no'', h_encode = Some, h_decode = Some\<rparr>)], q_state = jobQueueRunning\<rparr>"

definition sql_turn :: "sql_job_env \<times> go_context \<times> instant \<times> int \<times> instant" where
  "sql_turn =
     (\<lparr>je_before = None, je_after = None, je_query_fails = False, je_random = Some ''x'', je_reserve_io = ExecReplies, je_io = ExecReplyLost,
       je_clock = sql_clock\<rparr>, LiveContext, sql_clock, 0, sql_clock)"

theorem sql_worker_runs_bounded_witness:
  "int (count_list (snd (worker_run (sql_job_store (memory_sql jr_id) 100) (\<lambda>_. ''e'') sql_queue (replicate 4 sql_turn) [free_job_row CHR ''a'']))
     (replicate 64 CHR ''a'')) \<le> 2"
proof -
  obtain h where h: "map_of (q_handlersByName sql_queue) (jr_handler (free_job_row CHR ''a'')) = Some h" "MaxAttempts (h_options h) = 2"
    by (simp add: sql_queue_def free_job_row_def)
  have "row_at jr_id (memory_sql jr_id) [free_job_row CHR ''a''] (replicate 64 CHR ''a'') = Some (free_job_row CHR ''a'')" by code_simp
  from sql_worker_runs_bounded [OF memory_sql_table this _ h(1), of "replicate 4 sql_turn" 100 "\<lambda>_. ''e''"]
  show ?thesis by (simp add: h(2) free_job_row_def)
qed

end
