(* ===== verification/RedisServer.thy ===== *)
theory RedisServer
  imports UnixMicro "HOL-Library.Multiset"
begin

text \<open>
  What the Redis stores use of the server and of the scripts they run there. The server is not part of the program: its commands are the
  fields of the record \<open>redis\<close>, an argument of the scripts, and what its documentation says of them is \<open>redis_server\<close>. The keys
  of a store have different names and hold one type of value each, so hashes and sorted sets are named by types of their own. Scores
  are integers, which Redis keeps exactly up to \<open>2 ^ 53\<close>. A script runs without interruption; the texts in hashes are represented by what they decode to.
\<close>

section \<open>Commands\<close>

record ('r, 'h, 'z, 'v) redis =
  HGET :: "'h \<Rightarrow> string \<Rightarrow> 'r \<Rightarrow> 'v option"
  HSET :: "'h \<Rightarrow> string \<Rightarrow> 'v \<Rightarrow> 'r \<Rightarrow> 'r"
  HDEL :: "'h \<Rightarrow> string \<Rightarrow> 'r \<Rightarrow> 'r"
  ZRANGE :: "'z \<Rightarrow> 'r \<Rightarrow> (string \<times> int) list"
  ZADD :: "'z \<Rightarrow> int \<Rightarrow> string \<Rightarrow> 'r \<Rightarrow> 'r"
  ZREM :: "'z \<Rightarrow> string \<Rightarrow> 'r \<Rightarrow> 'r"

text \<open>The order of a sorted set: by score, members of equal score by their bytes.\<close>

definition score_key :: "string \<times> int \<Rightarrow> int \<times> string" where
  "score_key x = (snd x, fst x)"

definition redis_server :: "('r, 'h, 'z, 'v) redis \<Rightarrow> bool" where
  "redis_server R =
     ((\<forall>k f v r k' f'. HGET R k' f' (HSET R k f v r) = (if k' = k \<and> f' = f then Some v else HGET R k' f' r)) \<and>
      (\<forall>k f r k' f'. HGET R k' f' (HDEL R k f r) = (if k' = k \<and> f' = f then None else HGET R k' f' r)) \<and>
      (\<forall>z s m r k f. HGET R k f (ZADD R z s m r) = HGET R k f r) \<and>
      (\<forall>z m r k f. HGET R k f (ZREM R z m r) = HGET R k f r) \<and>
      (\<forall>z k f v r. ZRANGE R z (HSET R k f v r) = ZRANGE R z r) \<and>
      (\<forall>z k f r. ZRANGE R z (HDEL R k f r) = ZRANGE R z r) \<and>
      (\<forall>z r. sorted (map score_key (ZRANGE R z r)) \<and> distinct (map fst (ZRANGE R z r))) \<and>
      (\<forall>z z' s m r. set (ZRANGE R z' (ZADD R z s m r)) =
         (if z' = z then insert (m, s) {x \<in> set (ZRANGE R z r). fst x \<noteq> m} else set (ZRANGE R z' r))) \<and>
      (\<forall>z z' m r. set (ZRANGE R z' (ZREM R z m r)) =
         (if z' = z then {x \<in> set (ZRANGE R z r). fst x \<noteq> m} else set (ZRANGE R z' r))))"

lemma redis_hash:
  assumes "redis_server R"
  shows "HGET R k' f' (HSET R k f v r) = (if k' = k \<and> f' = f then Some v else HGET R k' f' r)"
    "HGET R k' f' (HDEL R k f r) = (if k' = k \<and> f' = f then None else HGET R k' f' r)"
    "HGET R k f (ZADD R z s m r) = HGET R k f r"
    "HGET R k f (ZREM R z m r) = HGET R k f r"
  using assms unfolding redis_server_def by simp_all

lemma redis_zset:
  assumes "redis_server R"
  shows "ZRANGE R z (HSET R k f v r) = ZRANGE R z r"
    "ZRANGE R z (HDEL R k f r) = ZRANGE R z r"
    "set (ZRANGE R z' (ZADD R z s m r)) = (if z' = z then insert (m, s) {x \<in> set (ZRANGE R z r). fst x \<noteq> m} else set (ZRANGE R z' r))"
    "set (ZRANGE R z' (ZREM R z m r)) = (if z' = z then {x \<in> set (ZRANGE R z r). fst x \<noteq> m} else set (ZRANGE R z' r))"
  using assms unfolding redis_server_def by simp_all

lemma redis_zset_order:
  assumes "redis_server R"
  shows "sorted (map score_key (ZRANGE R z r))" "distinct (map fst (ZRANGE R z r))"
  using assms unfolding redis_server_def by simp_all

text \<open>A server in memory that behaves as documented.\<close>

type_synonym ('h, 'z, 'v) redis_memory = "(('h \<times> string) \<times> 'v) list \<times> (('z \<times> string) \<times> int) list"

definition memory_redis :: "(('h, 'z, 'v) redis_memory, 'h, 'z, 'v) redis" where
  "memory_redis =
     \<lparr>HGET = \<lambda>k f r. map_of (fst r) (k, f),
      HSET = \<lambda>k f v r. (AList.update (k, f) v (fst r), snd r),
      HDEL = \<lambda>k f r. (AList.delete (k, f) (fst r), snd r),
      ZRANGE = \<lambda>z r. sort_key score_key (map (\<lambda>((z, m), s). (m, s)) (filter (\<lambda>((z', m), s). z' = z) (AList.clearjunk (snd r)))),
      ZADD = \<lambda>z s m r. (fst r, AList.update (z, m) s (snd r)),
      ZREM = \<lambda>z m r. (fst r, AList.delete (z, m) (snd r))\<rparr>"

lemma memory_range: "set (ZRANGE memory_redis z r) = {(m, s). map_of (snd r) (z, m) = Some s}"
proof -
  have "map_of (snd r) (z, m) = Some s \<longleftrightarrow> ((z, m), s) \<in> set (AList.clearjunk (snd r))" for m s
    by (metis distinct_clearjunk map_of_clearjunk map_of_eq_Some_iff)
  then show ?thesis by (force simp: memory_redis_def)
qed

lemma memory_range_distinct: "distinct (map fst (ZRANGE memory_redis z r))"
proof -
  let ?xs = "filter (\<lambda>((z', m), s). z' = z) (AList.clearjunk (snd r))"
  have "inj_on (\<lambda>((z, m), s). m) (set ?xs)"
  proof (rule inj_onI)
    fix x y assume "x \<in> set ?xs" "y \<in> set ?xs" "(\<lambda>((z, m), s). m) x = (\<lambda>((z, m), s). m) y"
    then show "x = y" by (auto intro: eq_key_imp_eq_value [OF distinct_clearjunk])
  qed
  moreover have "distinct ?xs" using distinct_clearjunk [of "snd r"] by (simp add: distinct_map)
  ultimately have "distinct (map (\<lambda>((z, m), s). m) ?xs)" by (simp add: distinct_map)
  moreover have "map (\<lambda>((z, m), s). m) ?xs = map fst (map (\<lambda>((z, m), s). (m, s)) ?xs)" by auto
  ultimately have d: "distinct (map fst (map (\<lambda>((z, m), s). (m, s)) ?xs))" by simp
  have "mset (map fst (sort_key score_key (map (\<lambda>((z, m), s). (m, s)) ?xs))) = mset (map fst (map (\<lambda>((z, m), s). (m, s)) ?xs))"
    by (simp del: map_map)
  from mset_eq_imp_distinct_iff [OF this] d show ?thesis unfolding memory_redis_def redis.select_convs by blast
qed

lemma memory_redis_server: "redis_server memory_redis"
  unfolding redis_server_def
proof (intro conjI allI)
  show "sorted (map score_key (ZRANGE memory_redis z r))" for z r by (simp add: memory_redis_def)
  show "distinct (map fst (ZRANGE memory_redis z r))" for z r by (rule memory_range_distinct)
  show "set (ZRANGE memory_redis z' (ZADD memory_redis z s m r)) =
      (if z' = z then insert (m, s) {x \<in> set (ZRANGE memory_redis z r). fst x \<noteq> m} else set (ZRANGE memory_redis z' r))" for z z' s m r
    unfolding memory_range by (auto simp: memory_redis_def update_conv' split: if_splits)
  show "set (ZRANGE memory_redis z' (ZREM memory_redis z m r)) =
      (if z' = z then {x \<in> set (ZRANGE memory_redis z r). fst x \<noteq> m} else set (ZRANGE memory_redis z' r))" for z z' m r
    unfolding memory_range by (auto simp: memory_redis_def delete_conv' split: if_splits)
qed (simp_all add: memory_redis_def update_conv' delete_conv')

section \<open>Running a script\<close>

text \<open>
  \<open>redis.Script.Run\<close>: the reply arrives, or an error is reported although the script ran, or without its having run. An error reply of the
  script leaves what it did before.
\<close>

datatype script_io = ScriptReplies | ScriptReplyLost | ScriptNotRun

definition run_script :: "script_io \<Rightarrow> ('r \<Rightarrow> 'r \<times> (string + 'a)) \<Rightarrow> 'r \<Rightarrow> 'r \<times> 'a option" where
  "run_script io script r =
     (case io of
        ScriptReplies \<Rightarrow> (case script r of (r', Inl _) \<Rightarrow> (r', None) | (r', Inr reply) \<Rightarrow> (r', Some reply))
      | ScriptReplyLost \<Rightarrow> (fst (script r), None)
      | ScriptNotRun \<Rightarrow> (r, None))"

lemma run_script_cases:
  assumes "run_script io script r = (r', a)"
  obtains (ran) "r' = fst (script r)" "a = None \<or> snd (script r) = Inr (the a)" | (not_run) "r' = r" "a = None"
  using assms by (auto simp: run_script_def split: script_io.splits prod.splits sum.splits)

lemma run_script_reply: "run_script io script r = (r', Some x) \<Longrightarrow> script r = (r', Inr x)"
  by (auto simp: run_script_def split: script_io.splits prod.splits sum.splits)

end
