(* ===== verification/RedisJobStore.thy ===== *)
theory RedisJobStore
  imports RedisServer FileJobStore
begin

text \<open>
  The job store on a Redis server: \<open>src/backend/framework/redis_job_store.go\<close>. A job's record and its payload are fields of two hashes; the job is
  filed in one of three sorted sets, as ready by its available time, as reserved by the end of its lease, or as failed. Every
  operation is one script in Lua; \<open>Reserve\<close> repeats its script.
\<close>

section \<open>Data\<close>

definition redisJobStoreMaxNamespaceBytes :: nat where "redisJobStoreMaxNamespaceBytes = 256"
definition redisJobStoreRecoveryBatch :: nat where "redisJobStoreRecoveryBatch = 128"
definition redisJobStoreMaxExactTime :: int where "redisJobStoreMaxExactTime = 2 ^ 53 - 1"

record RedisJobStoreOptions =
  ro_Namespace :: string
  ro_MaxPayloadBytes :: int

record redisStoredJobMetadata =
  jm_ID :: string
  jm_Handler :: string
  jm_AvailableAt :: string
  jm_EnqueuedAt :: string
  jm_Attempts :: string
  jm_ReadyMember :: string
  jm_ReservationToken :: string
  jm_ReservedUntil :: string
  jm_FailedAt :: string
  jm_LastError :: string

text \<open>\<open>KEYS[1]\<close> and \<open>KEYS[2]\<close> are hashes, \<open>KEYS[3]\<close> to \<open>KEYS[5]\<close> sorted sets.\<close>

datatype job_hash = RecordsKey | PayloadsKey
datatype job_zset = ReadyKey | ReservedKey | FailedKey
datatype job_text = MetadataText redisStoredJobMetadata | PayloadText string

type_synonym 'r job_redis = "('r, job_hash, job_zset, job_text) redis"

text \<open>A field of the hash of records, which holds texts of records only, and of the hash of payloads.\<close>

definition record_of :: "'r job_redis \<Rightarrow> string \<Rightarrow> 'r \<Rightarrow> redisStoredJobMetadata option" where
  "record_of R jid r = (case HGET R RecordsKey jid r of Some (MetadataText m) \<Rightarrow> Some m | _ \<Rightarrow> None)"

definition payload_of :: "'r job_redis \<Rightarrow> string \<Rightarrow> 'r \<Rightarrow> string option" where
  "payload_of R jid r = (case HGET R PayloadsKey jid r of Some (PayloadText p) \<Rightarrow> Some p | _ \<Rightarrow> None)"

text \<open>What Go's JSON does to the texts of a record.\<close>

definition clean_job_metadata :: "redisStoredJobMetadata \<Rightarrow> redisStoredJobMetadata" where
  "clean_job_metadata m =
     \<lparr>jm_ID = utf8_coerce (jm_ID m), jm_Handler = utf8_coerce (jm_Handler m), jm_AvailableAt = utf8_coerce (jm_AvailableAt m),
      jm_EnqueuedAt = utf8_coerce (jm_EnqueuedAt m), jm_Attempts = utf8_coerce (jm_Attempts m), jm_ReadyMember = utf8_coerce (jm_ReadyMember m),
      jm_ReservationToken = utf8_coerce (jm_ReservationToken m), jm_ReservedUntil = utf8_coerce (jm_ReservedUntil m),
      jm_FailedAt = utf8_coerce (jm_FailedAt m), jm_LastError = utf8_coerce (jm_LastError m)\<rparr>"

section \<open>Options, times and members\<close>

text \<open>\<open>None\<close> for the error \<open>ErrInvalidRedisJobStoreOptions\<close>.\<close>

definition normalizeRedisJobStoreOptions :: "RedisJobStoreOptions \<Rightarrow> RedisJobStoreOptions option" where
  "normalizeRedisJobStoreOptions options =
     (let ns = trim_space (ro_Namespace options); ns = (if ns = [] then ''bridra:jobs'' else ns);
          maxBytes = (if ro_MaxPayloadBytes options = 0 then defaultFileJobStoreMaxPayloadBytes else ro_MaxPayloadBytes options)
      in if length ns > redisJobStoreMaxNamespaceBytes \<or> CHR ''{'' \<in> set ns \<or> CHR ''}'' \<in> set ns \<or> maxBytes < 0 then None
         else if list_ex (\<lambda>c. byte c < 32 \<or> byte c = 127) ns then None
         else Some \<lparr>ro_Namespace = ns, ro_MaxPayloadBytes = maxBytes\<rparr>)"

definition redisJobStoreTime :: "instant \<Rightarrow> string option" where
  "redisJobStoreTime value =
     (if is_zero_time value then None
      else if unix_micro value < - redisJobStoreMaxExactTime \<or> unix_micro value > redisJobStoreMaxExactTime then None
      else Some (format_int (unix_micro value)))"

definition parseRedisJobStoreTime :: "string \<Rightarrow> instant option" where
  "parseRedisJobStoreTime value =
     (case atoi value of
        None \<Rightarrow> None
      | Some n \<Rightarrow> if n < - redisJobStoreMaxExactTime \<or> n > redisJobStoreMaxExactTime then None else Some (time_unix_micro n))"

text \<open>\<open>%016x\<close> of a 64-bit word; the sign bit is flipped first.\<close>

fun hex_padded :: "nat \<Rightarrow> nat \<Rightarrow> string" where
  "hex_padded 0 n = []"
| "hex_padded (Suc k) n = hex_digit (n div 16 ^ k mod 16) # hex_padded k n"

definition sortable_micros :: "int \<Rightarrow> 64 word" where
  "sortable_micros n = xor (word_of_int n) (push_bit 63 1)"

definition redisJobStoreReadyMember :: "instant \<Rightarrow> string \<Rightarrow> string" where
  "redisJobStoreReadyMember enqueuedAt jid =
     hex_padded 16 (unat (sortable_micros (unix_micro enqueuedAt))) @ '':'' @ jid"

definition newRedisStoredJobMetadata :: "StoredJob \<Rightarrow> job_error + redisStoredJobMetadata" where
  "newRedisStoredJobMetadata job =
     (case (redisJobStoreTime (AvailableAt job), redisJobStoreTime (EnqueuedAt job)) of
        (Some availableAt, Some enqueuedAt) \<Rightarrow>
          Inr \<lparr>jm_ID = ID job, jm_Handler = Handler job, jm_AvailableAt = availableAt, jm_EnqueuedAt = enqueuedAt,
               jm_Attempts = format_int (Attempts job), jm_ReadyMember = redisJobStoreReadyMember (EnqueuedAt job) (ID job),
               jm_ReservationToken = [], jm_ReservedUntil = [], jm_FailedAt = [], jm_LastError = []\<rparr>
      | _ \<Rightarrow> Inl ErrJobStoreConflict)"

definition decodeRedisStoredJob :: "redisStoredJobMetadata \<Rightarrow> string \<Rightarrow> int \<Rightarrow> (redisStoredJobMetadata \<times> StoredJob) option" where
  "decodeRedisStoredJob encoded payload maxPayloadBytes =
     (let m = clean_job_metadata encoded in
      case (parseRedisJobStoreTime (jm_AvailableAt m), parseRedisJobStoreTime (jm_EnqueuedAt m), atoi (jm_Attempts m)) of
        (Some availableAt, Some enqueuedAt, Some attempts) \<Rightarrow>
          if attempts < 0 then None
          else let job = \<lparr>ID = jm_ID m, Handler = jm_Handler m, Payload = payload, AvailableAt = availableAt,
                          EnqueuedAt = enqueuedAt, Attempts = attempts\<rparr>
               in if validateStoredJob job maxPayloadBytes \<noteq> None then None
                  else if jm_ReadyMember m \<noteq> redisJobStoreReadyMember (EnqueuedAt job) (ID job) then None
                  else Some (m, job)
      | _ \<Rightarrow> None)"

section \<open>Scripts\<close>

text \<open>\<open>tonumber\<close> of a text, \<open>nil\<close> being \<open>None\<close>, and where it is compared; scores are such numbers.\<close>

abbreviation lua_number :: "string \<Rightarrow> int option" where
  "lua_number \<equiv> atoi"

definition score_of :: "string \<Rightarrow> int" where
  "score_of text = (case lua_number text of Some n \<Rightarrow> n | None \<Rightarrow> 0)"

text \<open>\<open>tostring\<close> writes integers below \<open>10 ^ 14\<close> in decimal; \<open>big\<close> is how it writes others.\<close>

definition lua_tostring :: "(int \<Rightarrow> string) \<Rightarrow> int \<Rightarrow> string" where
  "lua_tostring big n = (if n < 10 ^ 14 then format_int n else big n)"

definition enqueue_script ::
  "'r job_redis \<Rightarrow> string \<Rightarrow> redisStoredJobMetadata \<Rightarrow> string \<Rightarrow> string \<Rightarrow> string \<Rightarrow> 'r \<Rightarrow> 'r \<times> (string + int)" where
  "enqueue_script R jid encoded payload availableAt member r =
     (if HGET R RecordsKey jid r \<noteq> None \<or> HGET R PayloadsKey jid r \<noteq> None then (r, Inr 0)
      else (ZADD R ReadyKey (score_of availableAt) member
              (HSET R PayloadsKey jid (PayloadText payload) (HSET R RecordsKey jid (MetadataText encoded) r)), Inr 1))"

text \<open>The loop over expired reservations; \<open>Some\<close> is an error reply.\<close>

fun recover_expired :: "'r job_redis \<Rightarrow> int \<Rightarrow> string list \<Rightarrow> 'r \<Rightarrow> 'r \<times> string option" where
  "recover_expired R now [] r = (r, None)"
| "recover_expired R now (jid # jids) r =
     (case record_of R jid r of
        None \<Rightarrow> recover_expired R now jids (ZREM R ReservedKey jid r)
      | Some job \<Rightarrow>
          if jm_FailedAt job \<noteq> [] then (r, Some ''bridra: reserved job is failed'')
          else if jm_ReservationToken job = [] then recover_expired R now jids (ZREM R ReservedKey jid r)
          else if score_of (jm_ReservedUntil job) \<le> now
            then recover_expired R now jids
                   (ZADD R ReadyKey (score_of (jm_AvailableAt job)) (jm_ReadyMember job)
                     (ZREM R ReservedKey jid
                       (HSET R RecordsKey jid (MetadataText (job\<lparr>jm_ReservationToken := [], jm_ReservedUntil := []\<rparr>)) r)))
          else recover_expired R now jids r)"

datatype job_reply = JobRetry | JobNone | JobReserved redisStoredJobMetadata string

definition expired_ids :: "'r job_redis \<Rightarrow> int \<Rightarrow> 'r \<Rightarrow> string list" where
  "expired_ids R now r = map fst (take redisJobStoreRecoveryBatch (filter (\<lambda>x. snd x \<le> now) (ZRANGE R ReservedKey r)))"

definition take_ready ::
  "'r job_redis \<Rightarrow> (int \<Rightarrow> string) \<Rightarrow> string \<Rightarrow> string \<Rightarrow> string \<Rightarrow> 'r \<Rightarrow> 'r \<times> (string + job_reply)" where
  "take_ready R big member token until r =
     (let jid = drop 17 member in
      case (record_of R jid r, payload_of R jid r) of
        (Some job, Some payload) \<Rightarrow>
          if jm_ID job \<noteq> jid \<or> jm_ReadyMember job \<noteq> member \<or> jm_FailedAt job \<noteq> [] \<or> jm_ReservationToken job \<noteq> []
          then (r, Inl ''bridra: ready job state is corrupt'')
          else (case lua_number (jm_Attempts job) of
             None \<Rightarrow> (r, Inl ''bridra: job attempt count is corrupt'')
           | Some attempts \<Rightarrow>
               if attempts < 0 then (r, Inl ''bridra: job attempt count is corrupt'')
               else let job' = job\<lparr>jm_Attempts := lua_tostring big (attempts + 1), jm_ReservationToken := token, jm_ReservedUntil := until\<rparr>
                    in (ZADD R ReservedKey (score_of until) jid (ZREM R ReadyKey member (HSET R RecordsKey jid (MetadataText job') r)),
                        Inr (JobReserved job' payload)))
      | _ \<Rightarrow> (r, Inl ''bridra: ready job data is missing''))"

definition job_reserve_script ::
  "'r job_redis \<Rightarrow> (int \<Rightarrow> string) \<Rightarrow> string \<Rightarrow> string \<Rightarrow> string \<Rightarrow> 'r \<Rightarrow> 'r \<times> (string + job_reply)" where
  "job_reserve_script R big now token until r =
     (let expired = expired_ids R (score_of now) r in
      case recover_expired R (score_of now) expired r of
        (r1, Some e) \<Rightarrow> (r1, Inl e)
      | (r1, None) \<Rightarrow>
          (case ZRANGE R ReadyKey r1 of
             (member, s) # _ \<Rightarrow>
               if s > score_of now then (r1, Inr (if length expired = redisJobStoreRecoveryBatch then JobRetry else JobNone))
               else take_ready R big member token until r1
           | [] \<Rightarrow> (r1, Inr (if length expired = redisJobStoreRecoveryBatch then JobRetry else JobNone))))"

text \<open>The scripts that end a reservation start alike: the record must exist under the token given.\<close>

definition with_reservation ::
  "'r job_redis \<Rightarrow> string \<Rightarrow> string \<Rightarrow> (redisStoredJobMetadata \<Rightarrow> 'r \<Rightarrow> 'r) \<Rightarrow> 'r \<Rightarrow> 'r \<times> (string + int)" where
  "with_reservation R jid token f r =
     (case record_of R jid r of
        None \<Rightarrow> (r, Inr 0)
      | Some job \<Rightarrow> if jm_ReservationToken job \<noteq> token then (r, Inr 0) else (f job r, Inr 1))"

definition release_script :: "'r job_redis \<Rightarrow> string \<Rightarrow> string \<Rightarrow> string \<Rightarrow> string \<Rightarrow> 'r \<Rightarrow> 'r \<times> (string + int)" where
  "release_script R jid token availableAt er =
     with_reservation R jid token (\<lambda>job r.
       ZADD R ReadyKey (score_of availableAt) (jm_ReadyMember job)
         (ZREM R ReservedKey jid
           (HSET R RecordsKey jid (MetadataText
             (job\<lparr>jm_AvailableAt := availableAt, jm_ReservationToken := [], jm_ReservedUntil := [], jm_LastError := er\<rparr>)) r)))"

definition drop_job :: "'r job_redis \<Rightarrow> string \<Rightarrow> redisStoredJobMetadata \<Rightarrow> 'r \<Rightarrow> 'r" where
  "drop_job R jid job r =
     ZREM R FailedKey jid (ZREM R ReservedKey jid (ZREM R ReadyKey (jm_ReadyMember job) (HDEL R PayloadsKey jid (HDEL R RecordsKey jid r))))"

definition job_complete_script :: "'r job_redis \<Rightarrow> string \<Rightarrow> string \<Rightarrow> 'r \<Rightarrow> 'r \<times> (string + int)" where
  "job_complete_script R jid token = with_reservation R jid token (drop_job R jid)"

definition fail_script :: "'r job_redis \<Rightarrow> string \<Rightarrow> string \<Rightarrow> string \<Rightarrow> string \<Rightarrow> 'r \<Rightarrow> 'r \<times> (string + int)" where
  "fail_script R jid token failedAt er =
     with_reservation R jid token (\<lambda>job r.
       ZADD R FailedKey (score_of failedAt) jid
         (ZREM R ReservedKey jid (ZREM R ReadyKey (jm_ReadyMember job)
           (HSET R RecordsKey jid (MetadataText
             (job\<lparr>jm_ReservationToken := [], jm_ReservedUntil := [], jm_FailedAt := failedAt, jm_LastError := er\<rparr>)) r))))"

fun collect_failed :: "'r job_redis \<Rightarrow> 'r \<Rightarrow> string list \<Rightarrow> string + (redisStoredJobMetadata \<times> string) list" where
  "collect_failed R r [] = Inr []"
| "collect_failed R r (jid # jids) =
     (case (record_of R jid r, payload_of R jid r) of
        (Some m, Some p) \<Rightarrow> map_sum (\<lambda>e. e) ((#) (m, p)) (collect_failed R r jids)
      | _ \<Rightarrow> Inl ''bridra: failed job data is missing'')"

definition failed_jobs_script :: "'r job_redis \<Rightarrow> 'r \<Rightarrow> string + (redisStoredJobMetadata \<times> string) list" where
  "failed_jobs_script R r = collect_failed R r (map fst (ZRANGE R FailedKey r))"

definition with_failed ::
  "'r job_redis \<Rightarrow> string \<Rightarrow> (redisStoredJobMetadata \<Rightarrow> 'r \<Rightarrow> 'r) \<Rightarrow> 'r \<Rightarrow> 'r \<times> (string + int)" where
  "with_failed R jid f r =
     (case record_of R jid r of
        None \<Rightarrow> (r, Inr 0)
      | Some job \<Rightarrow> if jm_FailedAt job = [] then (r, Inr 0) else (f job r, Inr 1))"

definition retry_failed_script :: "'r job_redis \<Rightarrow> string \<Rightarrow> string \<Rightarrow> 'r \<Rightarrow> 'r \<times> (string + int)" where
  "retry_failed_script R jid availableAt =
     with_failed R jid (\<lambda>job r.
       ZADD R ReadyKey (score_of availableAt) (jm_ReadyMember job)
         (ZREM R FailedKey jid
           (HSET R RecordsKey jid (MetadataText
             (job\<lparr>jm_Attempts := ''0'', jm_AvailableAt := availableAt, jm_ReservationToken := [], jm_ReservedUntil := [],
                  jm_FailedAt := [], jm_LastError := []\<rparr>)) r)))"

definition forget_failed_script :: "'r job_redis \<Rightarrow> string \<Rightarrow> 'r \<Rightarrow> 'r \<times> (string + int)" where
  "forget_failed_script R jid = with_failed R jid (drop_job R jid)"

section \<open>Operations\<close>

definition redis_job_ready :: "go_context \<Rightarrow> job_error option" where
  "redis_job_ready ctx = (if ctx = NilContext then Some ErrJobContextUnavailable else map_option ErrContext (ctx_err ctx))"

definition redisJobStoreError :: "string \<Rightarrow> job_error" where
  "redisJobStoreError operation = ErrJobStoreOperationFailed (RemoteCall operation)"

text \<open>A script that answers 0 or 1.\<close>

definition requireOne ::
  "script_io \<Rightarrow> ('r \<Rightarrow> 'r \<times> (string + int)) \<Rightarrow> string \<Rightarrow> job_error \<Rightarrow> 'r \<Rightarrow> 'r \<times> (job_error + unit)" where
  "requireOne io script operation zeroError r =
     (case run_script io script r of
        (r', None) \<Rightarrow> (r', Inl (redisJobStoreError operation))
      | (r', Some result) \<Rightarrow>
          (r', if result = 0 then Inl zeroError
               else if result \<noteq> 1 then Inl (redisJobStoreError operation) else Inr ()))"

definition RedisEnqueue ::
  "'r job_redis \<Rightarrow> int \<Rightarrow> go_context \<Rightarrow> StoredJob \<Rightarrow> script_io \<Rightarrow> 'r \<Rightarrow> 'r \<times> (job_error + unit)" where
  [op_defs]: "RedisEnqueue R maxPayloadBytes ctx job io r =
     (case redis_job_ready ctx of
        Some e \<Rightarrow> (r, Inl e)
      | None \<Rightarrow>
          (case validateStoredJob job maxPayloadBytes of
             Some e \<Rightarrow> (r, Inl e)
           | None \<Rightarrow>
               (case newRedisStoredJobMetadata job of
                  Inl e \<Rightarrow> (r, Inl e)
                | Inr metadata \<Rightarrow>
                    requireOne io
                      (enqueue_script R (ID job) (clean_job_metadata metadata) (Payload job) (jm_AvailableAt metadata) (jm_ReadyMember metadata))
                      ''enqueue job'' ErrJobStoreConflict r)))"

text \<open>
  The rounds of \<open>Reserve\<close>: in each the random bytes of the token and how the script's run ends. The context is done when the list ends.
\<close>

fun reserve_rounds ::
  "'r job_redis \<Rightarrow> (int \<Rightarrow> string) \<Rightarrow> int \<Rightarrow> string \<Rightarrow> string \<Rightarrow> instant \<Rightarrow> (string option \<times> script_io) list \<Rightarrow> 'r
    \<Rightarrow> 'r \<times> (job_error + JobReservation)" where
  "reserve_rounds R big maxPayloadBytes nowValue untilValue reservedUntil [] r = (r, Inl (ErrContext Canceled))"
| "reserve_rounds R big maxPayloadBytes nowValue untilValue reservedUntil ((random, io) # rounds) r =
     (case newJobIdentifier random of
        Inl e \<Rightarrow> (r, Inl e)
      | Inr token \<Rightarrow>
          (case run_script io (job_reserve_script R big nowValue token untilValue) r of
             (r', None) \<Rightarrow> (r', Inl (redisJobStoreError ''reserve job''))
           | (r', Some JobNone) \<Rightarrow> (r', Inl ErrJobStoreEmpty)
           | (r', Some JobRetry) \<Rightarrow> reserve_rounds R big maxPayloadBytes nowValue untilValue reservedUntil rounds r'
           | (r', Some (JobReserved encoded payload)) \<Rightarrow>
               (r', case decodeRedisStoredJob encoded payload maxPayloadBytes of
                  None \<Rightarrow> Inl (redisJobStoreError ''decode reserved job'')
                | Some (metadata, job) \<Rightarrow>
                    if jm_ReservationToken metadata \<noteq> token \<or> jm_ReservedUntil metadata \<noteq> untilValue
                    then Inl (redisJobStoreError ''decode reserved job'')
                    else Inr \<lparr>Job = job, Token = token, ReservedUntil = reservedUntil\<rparr>)))"

definition RedisReserve ::
  "'r job_redis \<Rightarrow> (int \<Rightarrow> string) \<Rightarrow> int \<Rightarrow> go_context \<Rightarrow> instant \<Rightarrow> duration \<Rightarrow> (string option \<times> script_io) list \<Rightarrow> 'r
    \<Rightarrow> 'r \<times> (job_error + JobReservation)" where
  [op_defs]: "RedisReserve R big maxPayloadBytes ctx now lease rounds r =
     (case redis_job_ready ctx of
        Some e \<Rightarrow> (r, Inl e)
      | None \<Rightarrow>
          if is_zero_time now \<or> lease \<le> 0 then (r, Inl ErrJobReservationInvalid)
          else case (redisJobStoreTime now, redisJobStoreTime (now + lease)) of
            (Some nowValue, Some untilValue) \<Rightarrow> reserve_rounds R big maxPayloadBytes nowValue untilValue (now + lease) rounds r
          | _ \<Rightarrow> (r, Inl ErrJobReservationInvalid))"

definition validateRedisReservation :: "JobReservation \<Rightarrow> job_error option" where
  "validateRedisReservation reservation =
     (if ID (Job reservation) = [] \<or> Token reservation = [] then Some ErrJobReservationInvalid else None)"

definition RedisRelease ::
  "'r job_redis \<Rightarrow> go_context \<Rightarrow> JobReservation \<Rightarrow> instant \<Rightarrow> string \<Rightarrow> script_io \<Rightarrow> 'r \<Rightarrow> 'r \<times> (job_error + unit)" where
  [op_defs]: "RedisRelease R ctx reservation availableAt lastError io r =
     (if is_zero_time availableAt then (r, Inl ErrJobReservationInvalid)
      else case validateRedisReservation reservation of
        Some e \<Rightarrow> (r, Inl e)
      | None \<Rightarrow>
          (case redis_job_ready ctx of
             Some e \<Rightarrow> (r, Inl e)
           | None \<Rightarrow>
               (case redisJobStoreTime availableAt of
                  None \<Rightarrow> (r, Inl ErrJobReservationInvalid)
                | Some availableAtValue \<Rightarrow>
                    requireOne io (release_script R (ID (Job reservation)) (Token reservation) availableAtValue (normalizeFileJobStoreError lastError))
                      ''release job'' ErrJobReservationInvalid r)))"

definition RedisComplete ::
  "'r job_redis \<Rightarrow> go_context \<Rightarrow> JobReservation \<Rightarrow> script_io \<Rightarrow> 'r \<Rightarrow> 'r \<times> (job_error + unit)" where
  [op_defs]: "RedisComplete R ctx reservation io r =
     (case validateRedisReservation reservation of
        Some e \<Rightarrow> (r, Inl e)
      | None \<Rightarrow>
          (case redis_job_ready ctx of
             Some e \<Rightarrow> (r, Inl e)
           | None \<Rightarrow>
               requireOne io (job_complete_script R (ID (Job reservation)) (Token reservation)) ''complete job'' ErrJobReservationInvalid r))"

definition RedisFail ::
  "'r job_redis \<Rightarrow> go_context \<Rightarrow> JobReservation \<Rightarrow> string \<Rightarrow> instant \<Rightarrow> script_io \<Rightarrow> 'r \<Rightarrow> 'r \<times> (job_error + unit)" where
  [op_defs]: "RedisFail R ctx reservation lastError clock io r =
     (case validateRedisReservation reservation of
        Some e \<Rightarrow> (r, Inl e)
      | None \<Rightarrow>
          (case redis_job_ready ctx of
             Some e \<Rightarrow> (r, Inl e)
           | None \<Rightarrow>
               (case redisJobStoreTime clock of
                  None \<Rightarrow> (r, Inl (redisJobStoreError ''fail job''))
                | Some failedAt \<Rightarrow>
                    requireOne io (fail_script R (ID (Job reservation)) (Token reservation) failedAt (normalizeFileJobStoreError lastError))
                      ''fail job'' ErrJobReservationInvalid r)))"

fun decode_failed :: "int \<Rightarrow> (redisStoredJobMetadata \<times> string) list \<Rightarrow> FailedStoredJob list option" where
  "decode_failed maxPayloadBytes [] = Some []"
| "decode_failed maxPayloadBytes ((encoded, payload) # rest) =
     (case decodeRedisStoredJob encoded payload maxPayloadBytes of
        None \<Rightarrow> None
      | Some (metadata, job) \<Rightarrow>
          (case parseRedisJobStoreTime (jm_FailedAt metadata) of
             None \<Rightarrow> None
           | Some failedAt \<Rightarrow>
               map_option ((#) \<lparr>FailedJob = job, FailedAt = failedAt, FailedError = jm_LastError metadata\<rparr>) (decode_failed maxPayloadBytes rest)))"

definition RedisFailedJobs :: "'r job_redis \<Rightarrow> int \<Rightarrow> go_context \<Rightarrow> bool \<Rightarrow> 'r \<Rightarrow> job_error + FailedStoredJob list" where
  "RedisFailedJobs R maxPayloadBytes ctx replies r =
     (case redis_job_ready ctx of
        Some e \<Rightarrow> Inl e
      | None \<Rightarrow>
          if \<not> replies then Inl (redisJobStoreError ''query failed jobs'')
          else case failed_jobs_script R r of
            Inl e \<Rightarrow> Inl (redisJobStoreError ''query failed jobs'')
          | Inr values \<Rightarrow>
              (case decode_failed maxPayloadBytes values of
                 None \<Rightarrow> Inl (redisJobStoreError ''decode failed job'')
               | Some failed \<Rightarrow> Inr failed))"

definition RedisRetryFailed ::
  "'r job_redis \<Rightarrow> go_context \<Rightarrow> string \<Rightarrow> instant \<Rightarrow> script_io \<Rightarrow> 'r \<Rightarrow> 'r \<times> (job_error + unit)" where
  [op_defs]: "RedisRetryFailed R ctx jid availableAt io r =
     (if jid = [] \<or> is_zero_time availableAt then (r, Inl ErrJobStoreConflict)
      else case redis_job_ready ctx of
        Some e \<Rightarrow> (r, Inl e)
      | None \<Rightarrow>
          (case redisJobStoreTime availableAt of
             None \<Rightarrow> (r, Inl ErrJobStoreConflict)
           | Some availableAtValue \<Rightarrow>
               requireOne io (retry_failed_script R jid availableAtValue) ''retry failed job'' ErrJobStoreConflict r))"

definition RedisForgetFailed :: "'r job_redis \<Rightarrow> go_context \<Rightarrow> string \<Rightarrow> script_io \<Rightarrow> 'r \<Rightarrow> 'r \<times> (job_error + unit)" where
  [op_defs]: "RedisForgetFailed R ctx jid io r =
     (if jid = [] then (r, Inl ErrJobStoreConflict)
      else case redis_job_ready ctx of
        Some e \<Rightarrow> (r, Inl e)
      | None \<Rightarrow> requireOne io (forget_failed_script R jid) ''forget failed job'' ErrJobStoreConflict r)"

end
