(* ===== verification/RedisJobSafety.thy ===== *)
theory RedisJobSafety
  imports RedisJobStore
begin

text \<open>
  What holds of the jobs on a Redis server whatever clients call: each job is filed once, where its record says, so the scripts never find a corrupt
  state; a reservation holds until its lease ends; and the first ready job is handed out. The server is any that behaves as documented.
\<close>

section \<open>Records and where they are filed\<close>

definition place :: "redisStoredJobMetadata \<Rightarrow> job_zset" where
  "place m = (if jm_FailedAt m \<noteq> [] then FailedKey else if jm_ReservationToken m \<noteq> [] then ReservedKey else ReadyKey)"

definition entry :: "job_zset \<Rightarrow> redisStoredJobMetadata \<Rightarrow> string" where
  "entry z m = (if z = ReadyKey then jm_ReadyMember m else jm_ID m)"

definition score :: "redisStoredJobMetadata \<Rightarrow> int" where
  "score m = (case place m of
     FailedKey \<Rightarrow> score_of (jm_FailedAt m) | ReservedKey \<Rightarrow> score_of (jm_ReservedUntil m) | ReadyKey \<Rightarrow> score_of (jm_AvailableAt m))"

definition filed :: "redisStoredJobMetadata \<Rightarrow> job_zset \<times> string \<times> int" where
  "filed m = (place m, entry (place m) m, score m)"

text \<open>The member of the ready jobs tells when the job was enqueued and which job it is.\<close>

definition ready_member :: "int \<Rightarrow> string \<Rightarrow> string" where
  "ready_member k jid = hex_padded 16 (unat (sortable_micros k)) @ '':'' @ jid"

definition enqueued :: "redisStoredJobMetadata \<Rightarrow> int" where
  "enqueued m = score_of (jm_EnqueuedAt m)"

definition named :: "string \<Rightarrow> redisStoredJobMetadata \<Rightarrow> bool" where
  "named jid m = (jm_ID m = jid \<and> - (2 ^ 53) < enqueued m \<and> enqueued m < 2 ^ 53 \<and> jm_ReadyMember m = ready_member (enqueued m) jid)"

lemma hex_padded_length [simp]: "length (hex_padded k n) = k"
  by (induction k) simp_all

lemma drop_ready_member [simp]: "drop 17 (ready_member k jid) = jid"
proof -
  have "ready_member k jid = (hex_padded 16 (unat (sortable_micros k)) @ '':'') @ jid" by (simp add: ready_member_def)
  moreover have "length (hex_padded 16 (unat (sortable_micros k)) @ '':'') = 17" by simp
  ultimately show ?thesis by (metis append_eq_conv_conj)
qed

lemma named_member: "named jid m \<Longrightarrow> jm_ID m = jid \<and> drop 17 (jm_ReadyMember m) = jid"
  by (simp add: named_def)

lemma named_update [simp]:
  "named jid (m\<lparr>jm_Attempts := a\<rparr>) = named jid m" "named jid (m\<lparr>jm_AvailableAt := a\<rparr>) = named jid m"
  "named jid (m\<lparr>jm_ReservationToken := a\<rparr>) = named jid m" "named jid (m\<lparr>jm_ReservedUntil := a\<rparr>) = named jid m"
  "named jid (m\<lparr>jm_FailedAt := a\<rparr>) = named jid m" "named jid (m\<lparr>jm_LastError := a\<rparr>) = named jid m"
  by (simp_all add: named_def enqueued_def)

text \<open>A record under its identifier, with a number of at most \<open>n\<close> attempts.\<close>

definition record_wf :: "int \<Rightarrow> string \<Rightarrow> redisStoredJobMetadata \<Rightarrow> bool" where
  "record_wf n jid m =
     (named jid m \<and> (jm_FailedAt m = [] \<or> jm_ReservationToken m = []) \<and>
      (\<exists>a. 0 \<le> a \<and> a \<le> n \<and> jm_Attempts m = format_int a))"

lemma record_wf_iff:
  "record_wf n jid m \<longleftrightarrow> named jid m \<and> jm_ID m = jid \<and> drop 17 (jm_ReadyMember m) = jid \<and>
     (jm_FailedAt m = [] \<or> jm_ReservationToken m = []) \<and> (\<exists>a. 0 \<le> a \<and> a \<le> n \<and> jm_Attempts m = format_int a)"
  unfolding record_wf_def using named_member [of jid m] by blast

definition filed_once :: "int \<Rightarrow> (string \<Rightarrow> redisStoredJobMetadata option) \<Rightarrow> (job_zset \<Rightarrow> (string \<times> int) set) \<Rightarrow> bool" where
  "filed_once n recs zs =
     ((\<forall>jid m. recs jid = Some m \<longrightarrow> record_wf n jid m) \<and>
      (\<forall>z x s. (x, s) \<in> zs z \<longleftrightarrow> (\<exists>jid m. recs jid = Some m \<and> filed m = (z, x, s))))"

text \<open>A job has a record exactly when it has a payload, and the hashes hold texts of their kind.\<close>

definition hashes_agree :: "'r job_redis \<Rightarrow> string \<Rightarrow> 'r \<Rightarrow> bool" where
  "hashes_agree R jid r =
     ((record_of R jid r = None) = (HGET R RecordsKey jid r = None) \<and> (payload_of R jid r = None) = (HGET R PayloadsKey jid r = None) \<and>
      (record_of R jid r = None) = (payload_of R jid r = None))"

definition consistent :: "'r job_redis \<Rightarrow> int \<Rightarrow> 'r \<Rightarrow> bool" where
  "consistent R n r =
     (filed_once n (\<lambda>jid. record_of R jid r) (\<lambda>z. set (ZRANGE R z r)) \<and> (\<forall>jid. hashes_agree R jid r))"

lemma hashes_agree_cong:
  "HGET R RecordsKey i r' = HGET R RecordsKey i r \<Longrightarrow> HGET R PayloadsKey i r' = HGET R PayloadsKey i r \<Longrightarrow>
     hashes_agree R i r' = hashes_agree R i r"
  by (simp add: hashes_agree_def record_of_def payload_of_def)

lemma entry_id: "record_wf n jid m \<Longrightarrow> jid = (if z = ReadyKey then drop 17 (entry z m) else entry z m)"
  by (simp add: record_wf_iff entry_def)

lemma entry_inj: "record_wf n i m \<Longrightarrow> record_wf n' j m' \<Longrightarrow> entry z m = entry z m' \<Longrightarrow> i = j"
  using entry_id [of n i m z] entry_id [of n' j m' z] by metis

text \<open>
  One record changes: its old entry is removed, and the new one added; at most entries of that job are removed.
\<close>

lemma refiled:
  assumes inv: "filed_once n recs zs"
    and old: "\<And>m. recs jid = Some m \<Longrightarrow> (place m, entry (place m) m) \<in> removed"
    and only: "\<And>z x. (z, x) \<in> removed \<Longrightarrow> \<exists>m n'. record_wf n' jid m \<and> x = entry z m"
    and new: "\<And>m'. new = Some m' \<Longrightarrow> record_wf n jid m'"
    and zs': "\<And>z x s. (x, s) \<in> zs' z \<longleftrightarrow> (\<exists>m'. new = Some m' \<and> filed m' = (z, x, s)) \<or> (x, s) \<in> zs z \<and> (z, x) \<notin> removed"
  shows "filed_once n (recs(jid := new)) zs'"
proof -
  have wf: "record_wf n i m" if "recs i = Some m" for i m using inv that by (simp add: filed_once_def)
  have at: "(x, s) \<in> zs z \<longleftrightarrow> (\<exists>i m. recs i = Some m \<and> filed m = (z, x, s))" for z x s
    using inv by (simp add: filed_once_def)
  have kept: "(x, s) \<in> zs z \<and> (z, x) \<notin> removed \<longleftrightarrow> (\<exists>i m. i \<noteq> jid \<and> recs i = Some m \<and> filed m = (z, x, s))" for z x s
  proof
    assume a: "(x, s) \<in> zs z \<and> (z, x) \<notin> removed"
    then obtain i m where m: "recs i = Some m" "filed m = (z, x, s)" using at by blast
    with a old have "i \<noteq> jid" by (auto simp: filed_def)
    with m show "\<exists>i m. i \<noteq> jid \<and> recs i = Some m \<and> filed m = (z, x, s)" by blast
  next
    assume "\<exists>i m. i \<noteq> jid \<and> recs i = Some m \<and> filed m = (z, x, s)"
    then obtain i m where m: "i \<noteq> jid" "recs i = Some m" "filed m = (z, x, s)" by blast
    have "(z, x) \<notin> removed"
    proof
      assume "(z, x) \<in> removed"
      then obtain q n' where q: "record_wf n' jid q" "x = entry z q" using only by blast
      have "x = entry z m" using m(3) by (auto simp: filed_def)
      with entry_inj [OF wf [OF m(2)] q(1)] q(2) m(1) show False by metis
    qed
    then show "(x, s) \<in> zs z \<and> (z, x) \<notin> removed" using at m by blast
  qed
  have "record_wf n i m" if "(recs(jid := new)) i = Some m" for i m
    using that new wf by (cases "i = jid") auto
  moreover have "(x, s) \<in> zs' z \<longleftrightarrow> (\<exists>i m. (recs(jid := new)) i = Some m \<and> filed m = (z, x, s))" for z x s
    unfolding zs' kept by (metis fun_upd_apply)
  ultimately show ?thesis by (simp add: filed_once_def)
qed

lemma filed_once_mono: "filed_once n recs zs \<Longrightarrow> n \<le> n' \<Longrightarrow> filed_once n' recs zs"
  unfolding filed_once_def record_wf_iff by (meson order_trans)

lemma consistent_mono: "consistent R n r \<Longrightarrow> n \<le> n' \<Longrightarrow> consistent R n' r"
  using filed_once_mono by (auto simp: consistent_def)

section \<open>The commands on records and sets\<close>

lemma record_commands:
  assumes "redis_server R"
  shows "record_of R i (HSET R RecordsKey j (MetadataText m) r) = (if i = j then Some m else record_of R i r)"
    "record_of R i (HSET R PayloadsKey j p r) = record_of R i r"
    "record_of R i (HDEL R RecordsKey j r) = (if i = j then None else record_of R i r)"
    "record_of R i (HDEL R PayloadsKey j r) = record_of R i r"
    "record_of R i (ZADD R z s x r) = record_of R i r" "record_of R i (ZREM R z x r) = record_of R i r"
    "payload_of R i (HSET R PayloadsKey j (PayloadText p') r) = (if i = j then Some p' else payload_of R i r)"
    "payload_of R i (HSET R RecordsKey j t r) = payload_of R i r"
    "payload_of R i (HDEL R PayloadsKey j r) = (if i = j then None else payload_of R i r)"
    "payload_of R i (HDEL R RecordsKey j r) = payload_of R i r"
    "payload_of R i (ZADD R z s x r) = payload_of R i r" "payload_of R i (ZREM R z x r) = payload_of R i r"
  by (simp_all add: record_of_def payload_of_def redis_hash [OF assms])

text \<open>A change of the record of one job, seen from the records and the sets.\<close>

lemma consistent_change:
  assumes S: "redis_server R" and inv: "consistent R n r"
    and recs: "\<And>i. record_of R i r' = (if i = jid then new else record_of R i r)"
    and hashes: "\<And>i. i \<noteq> jid \<Longrightarrow> HGET R RecordsKey i r' = HGET R RecordsKey i r \<and> HGET R PayloadsKey i r' = HGET R PayloadsKey i r"
      "hashes_agree R jid r'"
    and old: "\<And>m. record_of R jid r = Some m \<Longrightarrow> (place m, entry (place m) m) \<in> removed"
    and only: "\<And>z x. (z, x) \<in> removed \<Longrightarrow> \<exists>m n'. record_wf n' jid m \<and> x = entry z m"
    and new: "\<And>m'. new = Some m' \<Longrightarrow> record_wf n jid m'"
    and zs': "\<And>z x s. (x, s) \<in> set (ZRANGE R z r') \<longleftrightarrow>
        (\<exists>m'. new = Some m' \<and> filed m' = (z, x, s)) \<or> (x, s) \<in> set (ZRANGE R z r) \<and> (z, x) \<notin> removed"
  shows "consistent R n r'"
proof -
  have "(\<lambda>i. record_of R i r') = (\<lambda>i. record_of R i r)(jid := new)" by (rule ext) (simp add: recs)
  moreover have "filed_once n ((\<lambda>i. record_of R i r)(jid := new)) (\<lambda>z. set (ZRANGE R z r'))"
    by (rule refiled [of n "\<lambda>i. record_of R i r" "\<lambda>z. set (ZRANGE R z r)" jid removed])
      (use inv old only new zs' in \<open>auto simp: consistent_def\<close>)
  ultimately have "filed_once n (\<lambda>i. record_of R i r') (\<lambda>z. set (ZRANGE R z r'))" by simp
  moreover have "hashes_agree R i r'" for i
    using inv hashes(1) [of i] hashes(2) hashes_agree_cong [of R i r' r] by (cases "i = jid") (simp_all add: consistent_def)
  ultimately show ?thesis by (simp add: consistent_def)
qed

text \<open>What a consistent state knows of a record.\<close>

lemma consistent_wf: "consistent R n r \<Longrightarrow> record_of R jid r = Some m \<Longrightarrow> record_wf n jid m"
  by (simp add: consistent_def filed_once_def)

lemma consistent_entry:
  assumes "consistent R n r" "(x, s) \<in> set (ZRANGE R z r)"
  obtains m where "record_of R (if z = ReadyKey then drop 17 x else x) r = Some m" "filed m = (z, x, s)"
proof -
  from assms obtain jid m where m: "record_of R jid r = Some m" "filed m = (z, x, s)"
    by (auto simp: consistent_def filed_once_def)
  have "x = entry z m" using m(2) by (auto simp: filed_def)
  with entry_id [OF consistent_wf [OF assms(1) m(1)], of z] have "jid = (if z = ReadyKey then drop 17 x else x)" by (simp only:)
  with m show thesis by (intro that [of m]) (simp_all only:)
qed

lemma consistent_hashes:
  assumes "consistent R n r" "record_of R jid r = Some m"
  obtains p where "payload_of R jid r = Some p" "HGET R RecordsKey jid r \<noteq> None" "HGET R PayloadsKey jid r \<noteq> None"
proof -
  have "hashes_agree R jid r" using assms(1) by (simp add: consistent_def)
  with assms(2) show thesis by (intro that [of "the (payload_of R jid r)"]) (auto simp: hashes_agree_def)
qed

section \<open>What the scripts keep\<close>

lemmas redis_simps = record_commands redis_zset redis_hash

text \<open>The entries of one job.\<close>

definition entries :: "job_zset set \<Rightarrow> redisStoredJobMetadata \<Rightarrow> (job_zset \<times> string) set" where
  "entries zs m = (\<lambda>z. (z, entry z m)) ` zs"

lemma entries_iff: "(z, x) \<in> entries zs m \<longleftrightarrow> z \<in> zs \<and> x = entry z m"
  by (auto simp: entries_def)

lemma consistent_refile:
  assumes S: "redis_server R" and inv: "consistent R n r" and m: "record_of R jid r = Some m" and n': "n \<le> n'"
    and recs: "\<And>i. record_of R i r' = (if i = jid then Some m' else record_of R i r)"
    and hashes: "\<And>i. i \<noteq> jid \<Longrightarrow> HGET R RecordsKey i r' = HGET R RecordsKey i r" "\<And>i. HGET R PayloadsKey i r' = HGET R PayloadsKey i r"
      "HGET R RecordsKey jid r' \<noteq> None"
    and wf: "record_wf n' jid m'" and zs: "place m \<in> zs"
    and zs': "\<And>z x s. (x, s) \<in> set (ZRANGE R z r') \<longleftrightarrow> filed m' = (z, x, s) \<or> (x, s) \<in> set (ZRANGE R z r) \<and> (z, x) \<notin> entries zs m"
  shows "consistent R n' r'"
proof (rule consistent_change [where jid = jid and new = "Some m'" and removed = "entries zs m", OF S consistent_mono [OF inv n']])
  obtain p where p: "payload_of R jid r = Some p" "HGET R PayloadsKey jid r \<noteq> None"
    by (rule consistent_hashes [OF inv m])
  moreover have "payload_of R jid r' = payload_of R jid r" using hashes(2) by (simp add: payload_of_def)
  ultimately show "hashes_agree R jid r'" using hashes(2,3) by (simp add: hashes_agree_def recs)
  show "\<exists>q k. record_wf k jid q \<and> x = entry z q" if "(z, x) \<in> entries zs m" for z x
    using that consistent_wf [OF inv m] by (auto simp: entries_iff)
qed (use recs hashes(1,2) wf zs zs' m in \<open>auto simp: entries_iff\<close>)

lemma consistent_drop:
  assumes S: "redis_server R" and inv: "consistent R n r" and m: "record_of R jid r = Some m"
  shows "consistent R n (drop_job R jid m r)"
proof (rule consistent_change [where jid = jid and new = None and removed = "entries UNIV m", OF S inv])
  note wf = consistent_wf [OF inv m]
  show "hashes_agree R jid (drop_job R jid m r)" by (simp add: hashes_agree_def drop_job_def redis_simps [OF S])
  show "\<exists>q k. record_wf k jid q \<and> x = entry z q" if "(z, x) \<in> entries UNIV m" for z x
    using that wf by (auto simp: entries_iff)
  show "(x, s) \<in> set (ZRANGE R z (drop_job R jid m r)) \<longleftrightarrow>
      (\<exists>m'. None = Some m' \<and> filed m' = (z, x, s)) \<or> (x, s) \<in> set (ZRANGE R z r) \<and> (z, x) \<notin> entries UNIV m" for z x s
    using wf by (cases z) (auto simp: entries_iff entry_def record_wf_iff drop_job_def redis_simps [OF S])
qed (use m in \<open>auto simp: entries_iff drop_job_def redis_simps [OF S]\<close>)

text \<open>A reserved job has its record only among the reservations, a failed one among the failed.\<close>

lemma place_cases:
  "record_wf n jid m \<Longrightarrow> jm_ReservationToken m \<noteq> [] \<Longrightarrow> place m = ReservedKey \<and> jm_FailedAt m = []"
  "jm_FailedAt m \<noteq> [] \<Longrightarrow> place m = FailedKey"
  "place m = ReadyKey \<Longrightarrow> jm_FailedAt m = [] \<and> jm_ReservationToken m = []"
  "place m = ReservedKey \<Longrightarrow> jm_FailedAt m = [] \<and> jm_ReservationToken m \<noteq> []"
  by (auto simp: record_wf_iff place_def split: if_splits)

lemmas filed_simps = filed_def place_def score_def entry_def

text \<open>The two ways in which a job becomes ready again, and how it fails.\<close>

lemma consistent_ready:
  assumes S: "redis_server R" and inv: "consistent R n r" and m: "record_of R jid r = Some m"
    and m': "record_wf n jid m'" "jm_ReadyMember m' = jm_ReadyMember m" "jm_ReservationToken m' = []" "jm_FailedAt m' = []"
      "score_of (jm_AvailableAt m') = sc"
    and z: "place m \<noteq> ReadyKey" "z = place m"
  shows "consistent R n (ZADD R ReadyKey sc (jm_ReadyMember m) (ZREM R z jid (HSET R RecordsKey jid (MetadataText m') r)))"
proof (rule consistent_refile [where m = m and m' = m' and zs = "{ReadyKey, z}", OF S inv m order_refl])
  note wf = consistent_wf [OF inv m]
  show "(x, s) \<in> set (ZRANGE R y (ZADD R ReadyKey sc (jm_ReadyMember m) (ZREM R z jid (HSET R RecordsKey jid (MetadataText m') r)))) \<longleftrightarrow>
      filed m' = (y, x, s) \<or> (x, s) \<in> set (ZRANGE R y r) \<and> (y, x) \<notin> entries {ReadyKey, z} m" for y x s
  proof -
    have f: "filed m' = (ReadyKey, jm_ReadyMember m, sc)" using m' by (simp add: filed_simps)
    have e: "entry z m = jid" "entry ReadyKey m = jm_ReadyMember m" "z \<noteq> ReadyKey" using wf z by (simp_all add: entry_def record_wf_iff)
    show ?thesis unfolding f using e by (auto simp: entries_iff redis_simps [OF S])
  qed
qed (use m' z in \<open>simp_all add: redis_simps [OF S]\<close>)

lemma consistent_release:
  assumes S: "redis_server R" and inv: "consistent R n r" and t: "token \<noteq> []"
  shows "consistent R n (fst (release_script R jid token available er r))"
proof (cases "record_of R jid r")
  case (Some m)
  note wf = consistent_wf [OF inv Some]
  show ?thesis
  proof (cases "jm_ReservationToken m = token")
    case True
    then have pl: "place m = ReservedKey" "jm_FailedAt m = []" using place_cases(1) [OF wf] t by auto
    have "consistent R n (ZADD R ReadyKey (score_of available) (jm_ReadyMember m) (ZREM R ReservedKey jid (HSET R RecordsKey jid
        (MetadataText (m\<lparr>jm_AvailableAt := available, jm_ReservationToken := [], jm_ReservedUntil := [], jm_LastError := er\<rparr>)) r)))"
      by (rule consistent_ready [OF S inv Some]) (use wf pl in \<open>auto simp: record_wf_iff\<close>)
    then show ?thesis using True Some by (simp add: release_script_def with_reservation_def)
  qed (use inv Some in \<open>simp add: release_script_def with_reservation_def\<close>)
qed (use inv in \<open>simp add: release_script_def with_reservation_def\<close>)

lemma consistent_complete:
  assumes S: "redis_server R" and inv: "consistent R n r"
  shows "consistent R n (fst (job_complete_script R jid token r))"
  using inv consistent_drop [OF S inv] by (auto simp: job_complete_script_def with_reservation_def split: option.splits)

lemma consistent_forget:
  assumes S: "redis_server R" and inv: "consistent R n r"
  shows "consistent R n (fst (forget_failed_script R jid r))"
  using inv consistent_drop [OF S inv] by (auto simp: forget_failed_script_def with_failed_def split: option.splits)

lemma consistent_fail:
  assumes S: "redis_server R" and inv: "consistent R n r" and t: "token \<noteq> []" "failedAt \<noteq> []"
  shows "consistent R n (fst (fail_script R jid token failedAt er r))"
proof (cases "\<exists>m. record_of R jid r = Some m \<and> jm_ReservationToken m = token")
  case True
  then obtain m where m: "record_of R jid r = Some m" "jm_ReservationToken m = token" by blast
  note wf = consistent_wf [OF inv m(1)]
  let ?m' = "m\<lparr>jm_ReservationToken := [], jm_ReservedUntil := [], jm_FailedAt := failedAt, jm_LastError := er\<rparr>"
  let ?r' = "ZADD R FailedKey (score_of failedAt) jid (ZREM R ReservedKey jid (ZREM R ReadyKey (jm_ReadyMember m) (HSET R RecordsKey jid (MetadataText ?m') r)))"
  have "consistent R n ?r'"
  proof (rule consistent_refile [where m = m and m' = ?m' and zs = UNIV, OF S inv m(1) order_refl])
    show "(x, s) \<in> set (ZRANGE R y ?r') \<longleftrightarrow> filed ?m' = (y, x, s) \<or> (x, s) \<in> set (ZRANGE R y r) \<and> (y, x) \<notin> entries UNIV m" for y x s
    proof -
      have "filed ?m' = (FailedKey, jid, score_of failedAt)" "jm_ID m = jid" using t(2) wf by (simp_all add: filed_simps record_wf_iff)
      then show ?thesis by (cases y) (auto simp: entries_iff entry_def redis_simps [OF S])
    qed
  qed (use wf in \<open>simp_all add: record_wf_iff redis_simps [OF S]\<close>)
  then show ?thesis using m by (simp add: fail_script_def with_reservation_def)
next
  case False
  then show ?thesis using inv by (auto simp: fail_script_def with_reservation_def split: option.splits)
qed

lemma consistent_retry:
  assumes S: "redis_server R" and inv: "consistent R n r" and n: "0 \<le> n"
  shows "consistent R n (fst (retry_failed_script R jid available r))"
proof (cases "\<exists>m. record_of R jid r = Some m \<and> jm_FailedAt m \<noteq> []")
  case True
  then obtain m where m: "record_of R jid r = Some m" "jm_FailedAt m \<noteq> []" by blast
  note wf = consistent_wf [OF inv m(1)]
  have zero: "''0'' = format_int 0" by code_simp
  let ?m' = "m\<lparr>jm_Attempts := ''0'', jm_AvailableAt := available, jm_ReservationToken := [], jm_ReservedUntil := [], jm_FailedAt := [],
      jm_LastError := []\<rparr>"
  have wf': "record_wf n jid ?m'" unfolding zero using wf n by (auto simp: record_wf_iff)
  have "consistent R n (ZADD R ReadyKey (score_of available) (jm_ReadyMember m) (ZREM R FailedKey jid (HSET R RecordsKey jid (MetadataText ?m') r)))"
    by (rule consistent_ready [OF S inv m(1) wf']) (use place_cases(2) [OF m(2)] in simp_all)
  then show ?thesis using m by (simp add: retry_failed_script_def with_failed_def)
next
  case False
  then show ?thesis using inv by (auto simp: retry_failed_script_def with_failed_def split: option.splits)
qed

lemma consistent_enqueue:
  assumes S: "redis_server R" and inv: "consistent R n r"
    and m: "record_wf n jid m" "jm_ReservationToken m = []" "jm_FailedAt m = []" "jm_AvailableAt m = available" "jm_ReadyMember m = member"
  shows "consistent R n (fst (enqueue_script R jid m payload available member r))"
proof (cases "HGET R RecordsKey jid r = None \<and> HGET R PayloadsKey jid r = None")
  case True
  let ?r' = "ZADD R ReadyKey (score_of available) member (HSET R PayloadsKey jid (PayloadText payload) (HSET R RecordsKey jid (MetadataText m) r))"
  have "consistent R n ?r'"
  proof (rule consistent_change [where jid = jid and new = "Some m" and removed = "entries {ReadyKey} m", OF S inv])
    show "hashes_agree R jid ?r'" by (simp add: hashes_agree_def redis_simps [OF S])
    show "\<exists>q k. record_wf k jid q \<and> x = entry z q" if "(z, x) \<in> entries {ReadyKey} m" for z x
      using that m(1) by (auto simp: entries_iff)
    show "(x, s) \<in> set (ZRANGE R z ?r') \<longleftrightarrow>
        (\<exists>m'. Some m = Some m' \<and> filed m' = (z, x, s)) \<or> (x, s) \<in> set (ZRANGE R z r) \<and> (z, x) \<notin> entries {ReadyKey} m" for z x s
    proof -
      have "filed m = (ReadyKey, member, score_of available)" using m by (simp add: filed_simps)
      then show ?thesis using m(5) by (auto simp: entries_iff entry_def redis_simps [OF S])
    qed
  qed (use m True in \<open>auto simp: record_of_def redis_simps [OF S]\<close>)
  with True show ?thesis by (simp add: enqueue_script_def)
qed (use inv in \<open>auto simp: enqueue_script_def\<close>)

section \<open>What a reservation does\<close>

definition freed :: "redisStoredJobMetadata \<Rightarrow> redisStoredJobMetadata" where
  "freed m = m\<lparr>jm_ReservationToken := [], jm_ReservedUntil := []\<rparr>"

lemma recover_consistent:
  assumes S: "redis_server R"
  shows "consistent R n r \<Longrightarrow> distinct jids \<Longrightarrow> \<forall>jid \<in> set jids. \<exists>s \<le> now. (jid, s) \<in> set (ZRANGE R ReservedKey r) \<Longrightarrow>
    \<exists>r'. recover_expired R now jids r = (r', None) \<and> consistent R n r' \<and>
      (\<forall>i. record_of R i r' = (if i \<in> set jids then map_option freed (record_of R i r) else record_of R i r) \<and>
           payload_of R i r' = payload_of R i r)"
proof (induction jids arbitrary: r)
  case (Cons jid jids)
  from Cons.prems(3) obtain s where s: "s \<le> now" "(jid, s) \<in> set (ZRANGE R ReservedKey r)" by auto
  obtain m where m: "record_of R jid r = Some m" "filed m = (ReservedKey, jid, s)"
    using consistent_entry [OF Cons.prems(1) s(2)] by auto
  have pl: "place m = ReservedKey" "score m = s" using m(2) by (simp_all add: filed_def)
  have st: "jm_FailedAt m = []" "jm_ReservationToken m \<noteq> []" "score_of (jm_ReservedUntil m) \<le> now"
    using place_cases(4) [OF pl(1)] pl s(1) by (auto simp: score_def)
  let ?m' = "freed m"
  let ?r = "ZADD R ReadyKey (score_of (jm_AvailableAt m)) (jm_ReadyMember m) (ZREM R ReservedKey jid (HSET R RecordsKey jid (MetadataText ?m') r))"
  have "consistent R n ?r"
    by (rule consistent_ready [OF S Cons.prems(1) m(1)]) (use consistent_wf [OF Cons.prems(1) m(1)] pl st in \<open>auto simp: record_wf_iff freed_def\<close>)
  moreover have "\<forall>j \<in> set jids. \<exists>s \<le> now. (j, s) \<in> set (ZRANGE R ReservedKey ?r)"
    using Cons.prems(2,3) by (auto simp: redis_simps [OF S])
  ultimately obtain r' where r': "recover_expired R now jids ?r = (r', None)" "consistent R n r'"
    "\<forall>i. record_of R i r' = (if i \<in> set jids then map_option freed (record_of R i ?r) else record_of R i ?r) \<and> payload_of R i r' = payload_of R i ?r"
    using Cons.IH [of ?r] Cons.prems(2) by auto
  have "recover_expired R now (jid # jids) r = (r', None)" using r'(1) m(1) st by (simp add: freed_def)
  with r'(2,3) show ?case using Cons.prems(2) m(1) by (intro exI [of _ r']) (simp add: record_commands [OF S])
qed simp

lemma expired_reserved: "redis_server R \<Longrightarrow> distinct (expired_ids R now r) \<and> (\<forall>jid \<in> set (expired_ids R now r). \<exists>s \<le> now. (jid, s) \<in> set (ZRANGE R ReservedKey r))"
proof
  assume S: "redis_server R"
  have "distinct (map fst (filter (\<lambda>x. snd x \<le> now) (ZRANGE R ReservedKey r)))"
    using redis_zset_order(2) [OF S] by (simp add: distinct_map_filter)
  then show "distinct (expired_ids R now r)" unfolding expired_ids_def take_map [symmetric] by (rule distinct_take)
  show "\<forall>jid \<in> set (expired_ids R now r). \<exists>s \<le> now. (jid, s) \<in> set (ZRANGE R ReservedKey r)"
    by (force simp: expired_ids_def dest: in_set_takeD)
qed

text \<open>Taking a ready job: the script finds its record as it must be, and files it as reserved.\<close>

definition taken_record :: "redisStoredJobMetadata \<Rightarrow> string \<Rightarrow> string \<Rightarrow> redisStoredJobMetadata" where
  "taken_record m token until =
     m\<lparr>jm_Attempts := format_int (score_of (jm_Attempts m) + 1), jm_ReservationToken := token, jm_ReservedUntil := until\<rparr>"

lemma take_ready_consistent:
  assumes S: "redis_server R" and inv: "consistent R n r" and n: "n + 1 < 10 ^ 14" and t: "token \<noteq> []"
    and x: "(member, s) \<in> set (ZRANGE R ReadyKey r)"
  obtains m p r' where "record_of R (drop 17 member) r = Some m" "filed m = (ReadyKey, member, s)" "payload_of R (drop 17 member) r = Some p"
    "take_ready R big member token until r = (r', Inr (JobReserved (taken_record m token until) p))" "consistent R (n + 1) r'"
    "record_of R (drop 17 member) r' = Some (taken_record m token until)"
proof -
  let ?jid = "drop 17 member"
  obtain m where m: "record_of R ?jid r = Some m" "filed m = (ReadyKey, member, s)"
    using consistent_entry [OF inv x] by auto
  obtain p where p: "payload_of R ?jid r = Some p" by (rule consistent_hashes [OF inv m(1)])
  note wf = consistent_wf [OF inv m(1)]
  have pl: "place m = ReadyKey" "jm_ReadyMember m = member" using m(2) by (auto simp: filed_def entry_def)
  note st = place_cases(3) [OF pl(1)]
  obtain a where a: "0 \<le> a" "a \<le> n" "jm_Attempts m = format_int a" using wf by (auto simp: record_wf_iff)
  have num: "lua_number (jm_Attempts m) = Some a" "score_of (jm_Attempts m) = a" using a n by (simp_all add: atoi_format_int score_of_def)
  let ?m' = "taken_record m token until"
  let ?r' = "ZADD R ReservedKey (score_of until) ?jid (ZREM R ReadyKey member (HSET R RecordsKey ?jid (MetadataText ?m') r))"
  have m': "record_wf (n + 1) ?jid ?m'"
    unfolding taken_record_def num(2) using wf a(1,2) st by (auto simp: record_wf_iff intro!: exI [of _ "a + 1"])
  have "consistent R (n + 1) ?r'"
  proof (rule consistent_refile [where m = m and m' = ?m' and zs = "{ReadyKey, ReservedKey}", OF S inv m(1)])
    show "(x, s) \<in> set (ZRANGE R y ?r') \<longleftrightarrow> filed ?m' = (y, x, s) \<or> (x, s) \<in> set (ZRANGE R y r) \<and> (y, x) \<notin> entries {ReadyKey, ReservedKey} m" for y x s
    proof -
      have "filed ?m' = (ReservedKey, ?jid, score_of until)" "entry ReservedKey m = ?jid" "entry ReadyKey m = member"
        using st t wf pl(2) by (simp_all add: filed_simps taken_record_def record_wf_iff)
      then show ?thesis by (auto simp: entries_iff redis_simps [OF S])
    qed
  qed (use m' pl(1) in \<open>simp_all add: redis_simps [OF S]\<close>)
  moreover have "take_ready R big member token until r = (?r', Inr (JobReserved ?m' p))"
    using m(1) p pl st num wf a n
    by (simp add: take_ready_def Let_def record_wf_iff taken_record_def lua_tostring_def)
  moreover have "record_of R ?jid ?r' = Some ?m'" by (simp add: redis_simps [OF S])
  ultimately show thesis using m p that by blast
qed

lemma reserve_script_consistent:
  assumes S: "redis_server R" and inv: "consistent R n r" and n: "n + 1 < 10 ^ 14" and t: "token \<noteq> []"
  obtains r' reply where "job_reserve_script R big now token until r = (r', Inr reply)" "consistent R (n + 1) r'"
    "(\<forall>e p. reply \<noteq> JobReserved e p) \<longrightarrow> consistent R n r'"
proof -
  let ?ids = "expired_ids R (score_of now) r"
  obtain r1 where r1: "recover_expired R (score_of now) ?ids r = (r1, None)" "consistent R n r1"
    using recover_consistent [OF S inv, of ?ids "score_of now"] expired_reserved [OF S, of "score_of now" r] by blast
  show thesis
  proof (cases "ZRANGE R ReadyKey r1")
    case Nil
    then show thesis using r1 consistent_mono [OF r1(2), of "n + 1"]
      by (intro that [of r1 "if length ?ids = redisJobStoreRecoveryBatch then JobRetry else JobNone"]) (auto simp: job_reserve_script_def Let_def)
  next
    case (Cons x xs)
    obtain member s where x: "x = (member, s)" by (cases x)
    show thesis
    proof (cases "s > score_of now")
      case True
      then show thesis using r1 Cons x consistent_mono [OF r1(2), of "n + 1"]
        by (intro that [of r1 "if length ?ids = redisJobStoreRecoveryBatch then JobRetry else JobNone"]) (auto simp: job_reserve_script_def Let_def)
    next
      case False
      have "(member, s) \<in> set (ZRANGE R ReadyKey r1)" by (simp add: Cons x)
      then obtain m p r' where
        "take_ready R big member token until r1 = (r', Inr (JobReserved (taken_record m token until) p))" "consistent R (n + 1) r'"
        by (rule take_ready_consistent [OF S r1(2) n t, where big = big and until = until])
      then show thesis using r1(1) Cons x False
        by (intro that [of r' "JobReserved (taken_record m token until) p"]) (auto simp: job_reserve_script_def Let_def)
    qed
  qed
qed

text \<open>The operations, whatever becomes of their replies.\<close>

lemma run_script_post: "run_script io script r = (r', a) \<Longrightarrow> r' \<in> {r, fst (script r)}"
  by (auto elim!: run_script_cases)

lemma reserve_rounds_consistent:
  assumes S: "redis_server R" and n: "n + 1 < 10 ^ 14"
  shows "consistent R n r \<Longrightarrow> list_all (\<lambda>x. fst x \<noteq> Some []) rounds \<Longrightarrow> consistent R (n + 1) (fst (reserve_rounds R big mx nowValue untilValue until rounds r))"
proof (induction rounds arbitrary: r)
  case Nil
  then show ?case by (simp add: consistent_mono)
next
  case (Cons x rounds)
  obtain random io where x: "x = (random, io)" by (cases x)
  show ?case
  proof (cases "newJobIdentifier random")
    case (Inl e)
    with Cons.prems show ?thesis by (simp add: x consistent_mono)
  next
    case (Inr token)
    have t: "token \<noteq> []" using Inr Cons.prems(2) by (cases random) (auto simp: x newJobIdentifier_def neq_Nil_conv)
    obtain r1 reply where script: "job_reserve_script R big nowValue token untilValue r = (r1, Inr reply)" "consistent R (n + 1) r1"
      "(\<forall>e p. reply \<noteq> JobReserved e p) \<longrightarrow> consistent R n r1"
      by (rule reserve_script_consistent [OF S Cons.prems(1) n t, where big = big and now = nowValue and until = untilValue])
    obtain r2 a where run: "run_script io (job_reserve_script R big nowValue token untilValue) r = (r2, a)" by force
    have r2: "consistent R (n + 1) r2" "a = Some JobRetry \<Longrightarrow> consistent R n r2"
      using run_script_post [OF run] script run_script_reply [of io "job_reserve_script R big nowValue token untilValue" r r2 JobRetry] run
        consistent_mono [OF Cons.prems(1), of "n + 1"] by auto
    show ?thesis
    proof (cases "a = Some JobRetry")
      case True
      with Cons.IH [OF r2(2)] Cons.prems(2) run Inr show ?thesis by (simp add: x)
    next
      case False
      with run Inr r2(1) show ?thesis by (auto simp: x split: option.splits job_reply.splits)
    qed
  qed
qed

section \<open>The order of the ready jobs\<close>

lemma hex_digit_less: "i < 16 \<Longrightarrow> j < 16 \<Longrightarrow> hex_digit i < hex_digit j \<longleftrightarrow> i < j"
  by (auto simp: hex_digit_def less_char_def of_char_of)

lemma hex_digit_eq: "i < 16 \<Longrightarrow> j < 16 \<Longrightarrow> hex_digit i = hex_digit j \<longleftrightarrow> i = j"
  using hex_digit_less [of i j] hex_digit_less [of j i] by (metis less_irrefl linorder_neqE_nat)

lemma hex_padded_order:
  "(hex_padded k a < hex_padded k b \<longleftrightarrow> a mod 16 ^ k < b mod 16 ^ k) \<and> (hex_padded k a = hex_padded k b \<longleftrightarrow> a mod 16 ^ k = b mod 16 ^ k)"
proof (induction k)
  case (Suc k)
  define B i j a' b' where "B = (16 :: nat) ^ k" and "i = a div B mod 16" and "j = b div B mod 16" and "a' = a mod B" and "b' = b mod B"
  have m: "a mod 16 ^ Suc k = B * i + a'" "b mod 16 ^ Suc k = B * j + b'"
    by (simp_all add: B_def i_def j_def a'_def b'_def mult.commute [of 16] mod_mult2_eq)
  have lt: "a' < B" "b' < B" "i < 16" "j < 16" by (simp_all add: B_def i_def j_def a'_def b'_def)
  have less: "B * x + y < B * x' + y'" if "x < x'" "y < B" for x x' y y' :: nat
  proof -
    have "B * x + y < B * Suc x" using that(2) by simp
    also have "\<dots> \<le> B * x'" using that(1) by (intro mult_le_mono2) simp
    finally show ?thesis by simp
  qed
  have "B * i + a' < B * j + b' \<longleftrightarrow> i < j \<or> i = j \<and> a' < b'"
    using less [of i j a' b'] less [of j i b' a'] lt by (cases i j rule: linorder_cases) auto
  moreover have "B * i + a' = B * j + b' \<longleftrightarrow> i = j \<and> a' = b'"
    using less [of i j a' b'] less [of j i b' a'] lt by (cases i j rule: linorder_cases) auto
  ultimately show ?case
    using Suc.IH hex_digit_less [OF lt(3,4)] hex_digit_eq [OF lt(3,4)]
    by (simp add: m i_def [symmetric] j_def [symmetric] B_def [symmetric] a'_def [symmetric] b'_def [symmetric] del: power_Suc)
qed simp

lemma append_less: "length (xs :: 'a :: linorder list) = length ys \<Longrightarrow> xs @ us < ys @ vs \<longleftrightarrow> xs < ys \<or> xs = ys \<and> us < vs"
  by (induction xs ys rule: list_induct2) auto

text \<open>Flipping the sign bit adds \<open>2 ^ 63\<close>.\<close>

lemma flip_sign: "xor (x :: 64 word) (push_bit 63 1) = x + 2 ^ 63"
proof -
  define M :: "64 word" where "M = 2 ^ 63"
  have push: "push_bit 63 1 = M" by (simp add: M_def push_bit_eq_mult)
  have M: "bit M n \<longleftrightarrow> n = 63" for n unfolding M_def bit_exp_iff by auto
  have "xor x M = x + M"
  proof (cases "bit x 63")
    case False
    have "xor x M = or x M" by (rule bit_eqI) (use False M in \<open>auto simp: bit_or_iff bit_xor_iff\<close>)
    also have "\<dots> = x + M" by (rule disjunctive_add [symmetric]) (use False M in auto)
    finally show ?thesis .
  next
    case True
    have "x = or (xor x M) M" by (rule bit_eqI) (use True M in \<open>auto simp: bit_or_iff bit_xor_iff\<close>)
    also have "\<dots> = xor x M + M" by (rule disjunctive_add [symmetric]) (use True M in \<open>auto simp: bit_xor_iff\<close>)
    finally have "x + M = (xor x M + M) + M" by (rule arg_cong [where f = "\<lambda>w. w + M"])
    moreover have "M + M = 0" by (simp add: M_def)
    ultimately show ?thesis by (simp only: add.assoc add_0_right)
  qed
  then show ?thesis by (simp only: push M_def)
qed

lemma sortable_micros_value:
  assumes "- (2 ^ 63) \<le> n" "n < 2 ^ 63"
  shows "unat (sortable_micros n) = nat (n + 2 ^ 63)"
proof -
  have "sortable_micros n = word_of_int (n + 2 ^ 63)" unfolding sortable_micros_def flip_sign by simp
  then have "uint (sortable_micros n) = (n + 2 ^ 63) mod 2 ^ 64" by (simp only: uint_word_of_int len_of_numeral_defs) simp
  also have "\<dots> = n + 2 ^ 63" using assms by (intro mod_pos_pos_trivial) auto
  finally show ?thesis by (simp add: unat_eq_nat_uint)
qed

lemma ready_member_less:
  assumes "- (2 ^ 53) < k" "k < 2 ^ 53" "- (2 ^ 53) < k'" "k' < 2 ^ 53"
  shows "ready_member k i < ready_member k' j \<longleftrightarrow> (k, i) < (k', j)"
proof -
  have u: "unat (sortable_micros n) = nat (n + 2 ^ 63)" "nat (n + 2 ^ 63) < 16 ^ 16" if "- (2 ^ 53) < n" "n < 2 ^ 53" for n
    using that sortable_micros_value [of n] by auto
  have h: "hex_padded 16 (unat (sortable_micros k)) < hex_padded 16 (unat (sortable_micros k')) \<longleftrightarrow> k < k'"
    "hex_padded 16 (unat (sortable_micros k)) = hex_padded 16 (unat (sortable_micros k')) \<longleftrightarrow> k = k'"
    using hex_padded_order [of 16 "unat (sortable_micros k)" "unat (sortable_micros k')"] u [OF assms(1,2)] u [OF assms(3,4)] assms by auto
  show ?thesis unfolding ready_member_def using h by (auto simp: append_less)
qed

end
