(* ===== verification/RedisJobClients.thy ===== *)
theory RedisJobClients
  imports RedisJobSafety
begin

text \<open>
  The calls that clients make of the jobs on a Redis server, in any order, with failing requests and lost replies, and what they can rely on.
\<close>

section \<open>The calls\<close>

datatype redis_job_call =
    RedisCallEnqueue go_context StoredJob script_io
  | RedisCallReserve go_context instant duration "(string option \<times> script_io) list"
  | RedisCallRelease go_context JobReservation instant string script_io
  | RedisCallComplete go_context JobReservation script_io
  | RedisCallFail go_context JobReservation string instant script_io
  | RedisCallRetryFailed go_context string instant script_io
  | RedisCallForgetFailed go_context string script_io

fun call_redis :: "'r job_redis \<Rightarrow> (int \<Rightarrow> string) \<Rightarrow> int \<Rightarrow> redis_job_call \<Rightarrow> 'r \<Rightarrow> 'r" where
  "call_redis R big mx (RedisCallEnqueue ctx j io) r = fst (RedisEnqueue R mx ctx j io r)"
| "call_redis R big mx (RedisCallReserve ctx now lease rounds) r = fst (RedisReserve R big mx ctx now lease rounds r)"
| "call_redis R big mx (RedisCallRelease ctx v t er io) r = fst (RedisRelease R ctx v t er io r)"
| "call_redis R big mx (RedisCallComplete ctx v io) r = fst (RedisComplete R ctx v io r)"
| "call_redis R big mx (RedisCallFail ctx v er clock io) r = fst (RedisFail R ctx v er clock io r)"
| "call_redis R big mx (RedisCallRetryFailed ctx jid t io) r = fst (RedisRetryFailed R ctx jid t io r)"
| "call_redis R big mx (RedisCallForgetFailed ctx jid io) r = fst (RedisForgetFailed R ctx jid io r)"

text \<open>The random bytes of tokens are some bytes, and jobs are not enqueued with more than \<open>n\<close> attempts.\<close>

fun call_ok :: "int \<Rightarrow> redis_job_call \<Rightarrow> bool" where
  "call_ok n (RedisCallEnqueue ctx j io) = (Attempts j \<le> n)"
| "call_ok n (RedisCallReserve ctx now lease rounds) = list_all (\<lambda>x. fst x \<noteq> Some []) rounds"
| "call_ok n _ = True"

text \<open>An operation either did not reach its script or left what the script leaves.\<close>

lemma requireOne_post: "fst (requireOne io script operation e r) \<in> {r, fst (script r)}"
  using run_script_post [of io script r] by (auto simp: requireOne_def split: prod.splits option.splits)

lemma requireOne_ok: "is_ok (ret (requireOne ScriptReplies script operation e r)) \<longleftrightarrow> snd (script r) = Inr 1"
  by (cases "script r") (auto simp: requireOne_def run_script_def split: sum.splits)

lemma redis_time:
  assumes "redisJobStoreTime t = Some s"
  shows "s = format_int (unix_micro t)" "score_of s = unix_micro t" "s \<noteq> []" "- (2 ^ 53) < unix_micro t" "unix_micro t < 2 ^ 53"
  using assms by (auto simp: redisJobStoreTime_def redisJobStoreMaxExactTime_def score_of_def atoi_format_int split: if_splits)

section \<open>Texts\<close>

lemma coerce_ascii: "list_all (\<lambda>c. byte c < 128) s \<Longrightarrow> utf8_coerce s = s"
  by (rule utf8_coerce_valid) (rule valid_string_ascii)

lemma coerced_ascii: "list_all (\<lambda>c. byte c < 128) (utf8_coerce s) \<Longrightarrow> utf8_coerce s = s"
proof (induction s rule: utf8_coerce.induct)
  case (1 s)
  show ?case
  proof (cases "s = []")
    case False
    let ?k = "fst (decode_rune s)"
    have rec: "utf8_coerce s = (if snd (decode_rune s) then take ?k s else replacement_rune) @ utf8_coerce (drop ?k s)"
      using False by (subst utf8_coerce.simps) simp
    have "snd (decode_rune s)" using 1(2) unfolding rec by (auto simp: replacement_rune_def bytes_def of_char_of split: if_splits)
    with 1 False rec show ?thesis by simp
  qed simp
qed

lemma job_identifier_ascii: "validJobIdentifier i \<Longrightarrow> list_all (\<lambda>c. byte c < 128) i"
  by (auto simp: validJobIdentifier_def is_hex_digit_def list_all_iff)

lemma hex_padded_ascii: "list_all (\<lambda>c. byte c < 128) (hex_padded k n)"
proof (induction k)
  case (Suc k)
  have "byte (hex_digit (n div 16 ^ k mod 16)) < 128" using hex_digit_ok [of "n div 16 ^ k mod 16"] by (auto simp: is_hex_digit_def)
  with Suc show ?case by simp
qed simp

text \<open>The record of a job that is enqueued.\<close>

lemma enqueued_record:
  assumes v: "validateStoredJob j mx = None" and m: "newRedisStoredJobMetadata j = Inr m" and n: "Attempts j \<le> n"
  shows "record_wf n (ID j) (clean_job_metadata m)" "jm_ReservationToken (clean_job_metadata m) = []" "jm_FailedAt (clean_job_metadata m) = []"
    "jm_AvailableAt (clean_job_metadata m) = jm_AvailableAt m" "jm_ReadyMember (clean_job_metadata m) = jm_ReadyMember m"
proof -
  obtain av en where t: "redisJobStoreTime (AvailableAt j) = Some av" "redisJobStoreTime (EnqueuedAt j) = Some en"
    and m': "m = \<lparr>jm_ID = ID j, jm_Handler = Handler j, jm_AvailableAt = av, jm_EnqueuedAt = en, jm_Attempts = format_int (Attempts j),
      jm_ReadyMember = redisJobStoreReadyMember (EnqueuedAt j) (ID j), jm_ReservationToken = [], jm_ReservedUntil = [], jm_FailedAt = [], jm_LastError = []\<rparr>"
    using m by (auto simp: newRedisStoredJobMetadata_def split: option.splits)
  note times = redis_time [OF t(1)] redis_time [OF t(2)]
  have i: "validJobIdentifier (ID j)" "0 \<le> Attempts j" using v by (auto simp: validateStoredJob_def split: if_splits)
  have member: "redisJobStoreReadyMember (EnqueuedAt j) (ID j) = ready_member (unix_micro (EnqueuedAt j)) (ID j)"
    by (simp add: redisJobStoreReadyMember_def ready_member_def)
  have ascii: "utf8_coerce (ID j) = ID j" "utf8_coerce (format_int k) = format_int k"
    "utf8_coerce (redisJobStoreReadyMember (EnqueuedAt j) (ID j)) = redisJobStoreReadyMember (EnqueuedAt j) (ID j)" for k
    by (rule coerce_ascii, simp add: job_identifier_ascii [OF i(1)] format_int_ascii redisJobStoreReadyMember_def hex_padded_ascii)+
  show "record_wf n (ID j) (clean_job_metadata m)"
    using i(2) n times by (auto simp: record_wf_def named_def enqueued_def m' clean_job_metadata_def ascii ascii(3) [unfolded member] member)
  show "jm_ReservationToken (clean_job_metadata m) = []" "jm_FailedAt (clean_job_metadata m) = []"
    "jm_AvailableAt (clean_job_metadata m) = jm_AvailableAt m" "jm_ReadyMember (clean_job_metadata m) = jm_ReadyMember m"
    by (simp_all add: m' clean_job_metadata_def ascii times(1))
qed

section \<open>Jobs are filed once\<close>

lemma post_consistent:
  "consistent R n r \<Longrightarrow> consistent R n (fst (script r)) \<Longrightarrow> consistent R n (fst (requireOne io script operation e r))"
  using requireOne_post [of io script operation e r] by auto

lemma call_consistent:
  assumes S: "redis_server R" and inv: "consistent R n r" and n: "0 \<le> n" "n + 1 < 10 ^ 14" and ok: "call_ok n call"
  shows "consistent R (n + 1) (call_redis R big mx call r)"
proof (cases call)
  case (RedisCallReserve ctx now lease rounds)
  note step = reserve_rounds_consistent [OF S n(2) inv]
  show ?thesis using step ok consistent_mono [OF inv, of "n + 1"]
    by (auto simp: RedisCallReserve RedisReserve_def split: option.splits)
next
  case (RedisCallEnqueue ctx j io)
  have "consistent R n (fst (RedisEnqueue R mx ctx j io r))"
  proof (cases "\<exists>m. redis_job_ready ctx = None \<and> validateStoredJob j mx = None \<and> newRedisStoredJobMetadata j = Inr m")
    case True
    then obtain m where m: "redis_job_ready ctx = None" "validateStoredJob j mx = None" "newRedisStoredJobMetadata j = Inr m" by blast
    have "Attempts j \<le> n" using ok by (simp add: RedisCallEnqueue)
    note rec = enqueued_record [OF m(2,3) this]
    have "consistent R n (fst (enqueue_script R (ID j) (clean_job_metadata m) (Payload j) (jm_AvailableAt m) (jm_ReadyMember m) r))"
      by (rule consistent_enqueue [OF S inv rec])
    then show ?thesis using m by (simp add: RedisEnqueue_def) (rule post_consistent [OF inv])
  qed (use inv in \<open>auto simp: RedisEnqueue_def split: option.splits sum.splits\<close>)
  then show ?thesis using RedisCallEnqueue consistent_mono [of R n _ "n + 1"] by simp
next
  case (RedisCallRelease ctx v t er io)
  have "consistent R n (fst (RedisRelease R ctx v t er io r))"
  proof (cases "Token v = []")
    case False
    show ?thesis using inv consistent_release [OF S inv False]
      by (auto simp: RedisRelease_def intro!: post_consistent split: option.splits)
  qed (use inv in \<open>auto simp: RedisRelease_def validateRedisReservation_def\<close>)
  then show ?thesis using RedisCallRelease consistent_mono [of R n _ "n + 1"] by simp
next
  case (RedisCallComplete ctx v io)
  have "consistent R n (fst (RedisComplete R ctx v io r))"
    using inv consistent_complete [OF S inv] by (auto simp: RedisComplete_def intro!: post_consistent split: option.splits)
  then show ?thesis using RedisCallComplete consistent_mono [of R n _ "n + 1"] by simp
next
  case (RedisCallFail ctx v er clock io)
  have "consistent R n (fst (RedisFail R ctx v er clock io r))"
  proof (cases "Token v = [] \<or> redisJobStoreTime clock = None")
    case False
    then obtain failedAt where f: "redisJobStoreTime clock = Some failedAt" "Token v \<noteq> []" by auto
    show ?thesis using inv consistent_fail [OF S inv f(2) redis_time(3) [OF f(1)]]
      by (auto simp: RedisFail_def f intro!: post_consistent split: option.splits)
  qed (use inv in \<open>auto simp: RedisFail_def validateRedisReservation_def split: option.splits\<close>)
  then show ?thesis using RedisCallFail consistent_mono [of R n _ "n + 1"] by simp
next
  case (RedisCallRetryFailed ctx jid t io)
  have "consistent R n (fst (RedisRetryFailed R ctx jid t io r))"
    using inv consistent_retry [OF S inv n(1)] by (auto simp: RedisRetryFailed_def intro!: post_consistent split: option.splits)
  then show ?thesis using RedisCallRetryFailed consistent_mono [of R n _ "n + 1"] by simp
next
  case (RedisCallForgetFailed ctx jid io)
  have "consistent R n (fst (RedisForgetFailed R ctx jid io r))"
    using inv consistent_forget [OF S inv] by (auto simp: RedisForgetFailed_def intro!: post_consistent split: option.splits)
  then show ?thesis using RedisCallForgetFailed consistent_mono [of R n _ "n + 1"] by simp
qed

lemma call_ok_mono: "call_ok n call \<Longrightarrow> n \<le> n' \<Longrightarrow> call_ok n' call"
  by (cases call) auto

lemma calls_consistent:
  "redis_server R \<Longrightarrow> consistent R n r \<Longrightarrow> 0 \<le> n \<Longrightarrow> n + int (length calls) < 10 ^ 14 \<Longrightarrow> list_all (call_ok n) calls \<Longrightarrow>
     consistent R (n + int (length calls)) (fold (call_redis R big mx) calls r)"
proof (induction calls arbitrary: n r)
  case (Cons call calls)
  have "consistent R (n + 1) (call_redis R big mx call r)" using Cons.prems by (intro call_consistent) auto
  moreover have "list_all (call_ok (n + 1)) calls" using Cons.prems(5) call_ok_mono [of n _ "n + 1"] by (auto simp: list_all_iff)
  ultimately have "consistent R (n + 1 + int (length calls)) (fold (call_redis R big mx) calls (call_redis R big mx call r))"
    using Cons.prems by (intro Cons.IH) auto
  then show ?case by (simp add: algebra_simps)
qed simp

lemma collect_failed_ok:
  "(\<And>jid. jid \<in> set jids \<Longrightarrow> record_of R jid r \<noteq> None \<and> payload_of R jid r \<noteq> None) \<Longrightarrow> is_ok (collect_failed R r jids)"
proof (induction jids)
  case (Cons jid jids)
  then have "is_ok (collect_failed R r jids)" "record_of R jid r \<noteq> None" "payload_of R jid r \<noteq> None" by auto
  then show ?case by (auto simp: is_ok_iff)
qed simp

lemma failed_jobs_found:
  assumes "consistent R n r"
  shows "is_ok (failed_jobs_script R r)"
  unfolding failed_jobs_script_def
proof (rule collect_failed_ok)
  fix jid assume "jid \<in> set (map fst (ZRANGE R FailedKey r))"
  then obtain s where "(jid, s) \<in> set (ZRANGE R FailedKey r)" by auto
  then obtain m where m: "record_of R jid r = Some m" by (rule consistent_entry [OF assms]) auto
  obtain p where "payload_of R jid r = Some p" by (rule consistent_hashes [OF assms m])
  with m show "record_of R jid r \<noteq> None \<and> payload_of R jid r \<noteq> None" by simp
qed

text \<open>
  C19. Every job on a Redis server is filed once, where its record says. Whatever calls any clients make, in any order, with failing requests and lost
  replies, from a consistent state on, the sets of ready, reserved and failed jobs hold exactly the jobs whose records say so, with the
  scores that their records say; so no script finds a job missing or corrupt. (The attempts of all jobs stay below \<open>10 ^ 14\<close>, where Lua
  stops writing integers in full.)
\<close>

theorem redis_jobs_filed_once:
  assumes "redis_server R" "consistent R n r" "0 \<le> n" "n + int (length calls) + 1 < 10 ^ 14" "list_all (call_ok n) calls"
    "r' = fold (call_redis R big mx) calls r"
  shows "consistent R (n + int (length calls)) r' \<and> is_ok (failed_jobs_script R r') \<and>
    (token \<noteq> [] \<longrightarrow> is_ok (ret (job_reserve_script R big now token until r')))"
proof (intro conjI impI)
  show c: "consistent R (n + int (length calls)) r'" unfolding assms(6) by (rule calls_consistent) (use assms in auto)
  show "is_ok (failed_jobs_script R r')" by (rule failed_jobs_found [OF c])
  assume t: "token \<noteq> []"
  obtain r2 reply where "job_reserve_script R big now token until r' = (r2, Inr reply)"
    by (rule reserve_script_consistent [OF assms(1) c assms(4) t, where big = big and now = now and until = until])
  then show "is_ok (ret (job_reserve_script R big now token until r'))" by simp
qed

text \<open>Members computed on integers, to evaluate examples.\<close>

fun hex_int :: "nat \<Rightarrow> int \<Rightarrow> string" where
  "hex_int 0 n = []"
| "hex_int (Suc k) n = hex_digit (nat (n div 16 ^ k mod 16)) # hex_int k n"

lemma hex_padded_int: "0 \<le> n \<Longrightarrow> hex_padded k (nat n) = hex_int k n"
proof (induction k)
  case (Suc k)
  have "nat n div 16 ^ k mod 16 = nat (n div 16 ^ k mod 16)"
    using Suc.prems by (simp add: nat_mod_distrib nat_div_distrib nat_power_eq pos_imp_zdiv_nonneg_iff)
  with Suc show ?case by simp
qed simp

lemma redisJobStoreReadyMember_code [code]:
  "redisJobStoreReadyMember t jid =
     (let k = unix_micro t
      in (if - (2 ^ 63) \<le> k \<and> k < 2 ^ 63 then hex_int 16 (k + 2 ^ 63) else hex_padded 16 (unat (sortable_micros k))) @ '':'' @ jid)"
  using sortable_micros_value [of "unix_micro t"] hex_padded_int [of "unix_micro t + 2 ^ 63" 16] by (auto simp: redisJobStoreReadyMember_def Let_def)

text \<open>A server in memory, with two jobs; one is reserved twice, as its first lease ends, and then fails.\<close>

type_synonym job_memory = "(job_hash, job_zset, job_text) redis_memory"

definition redis_epoch :: instant where "redis_epoch = unix_epoch"

definition sample_redis_job :: "char \<Rightarrow> instant \<Rightarrow> StoredJob" where
  "sample_redis_job c t =
     \<lparr>ID = replicate 64 c, Handler = ''h'', Payload = ''1'', AvailableAt = redis_epoch + t, EnqueuedAt = redis_epoch + t, Attempts = 0\<rparr>"

lemma empty_consistent: "consistent memory_redis 0 (([], []) :: job_memory)"
proof -
  have "record_of memory_redis jid (([], []) :: job_memory) = None" "payload_of memory_redis jid (([], []) :: job_memory) = None"
    "HGET memory_redis k jid (([], []) :: job_memory) = None" "ZRANGE memory_redis z (([], []) :: job_memory) = []" for jid k z
    by (simp_all add: record_of_def payload_of_def memory_redis_def)
  then show ?thesis by (simp add: consistent_def filed_once_def hashes_agree_def)
qed

definition redis_calls :: "redis_job_call list" where
  "redis_calls =
     [RedisCallEnqueue LiveContext (sample_redis_job CHR ''a'' 2000) ScriptReplies, RedisCallEnqueue LiveContext (sample_redis_job CHR ''b'' 1000) ScriptReplyLost,
      RedisCallReserve LiveContext (redis_epoch + 5000) 20000 [(Some ''x'', ScriptReplies)],
      RedisCallReserve LiveContext (redis_epoch + 50000) 20000 [(Some ''y'', ScriptReplyLost)],
      RedisCallFail LiveContext \<lparr>Job = sample_redis_job CHR ''b'' 1000, Token = ''79'', ReservedUntil = redis_epoch + 70000\<rparr> ''no'' (redis_epoch + 60000) ScriptReplies]"

theorem redis_jobs_filed_once_witness:
  "consistent memory_redis 5 (fold (call_redis memory_redis format_int 100) redis_calls ([], []))"
proof -
  have "list_all (call_ok 0) redis_calls" "length redis_calls = 5" by (simp_all add: redis_calls_def sample_redis_job_def)
  then show ?thesis using redis_jobs_filed_once [OF memory_redis_server empty_consistent _ _ _ refl, of redis_calls format_int 100] by simp
qed

section \<open>Reservations hold\<close>

fun leaves_reservation :: "JobReservation \<Rightarrow> redis_job_call \<Rightarrow> bool" where
  "leaves_reservation v (RedisCallReserve ctx now lease rounds) = (unix_micro now < unix_micro (ReservedUntil v))"
| "leaves_reservation v (RedisCallRelease ctx w t er io) = (\<not> (ID (Job w) = ID (Job v) \<and> Token w = Token v))"
| "leaves_reservation v (RedisCallComplete ctx w io) = (\<not> (ID (Job w) = ID (Job v) \<and> Token w = Token v))"
| "leaves_reservation v (RedisCallFail ctx w er clock io) = (\<not> (ID (Job w) = ID (Job v) \<and> Token w = Token v))"
| "leaves_reservation v _ = True"

definition held_record :: "'r job_redis \<Rightarrow> JobReservation \<Rightarrow> 'r \<Rightarrow> bool" where
  "held_record R v r =
     (\<exists>m. record_of R (ID (Job v)) r = Some m \<and> jm_ReservationToken m = Token v \<and> score_of (jm_ReservedUntil m) = unix_micro (ReservedUntil v) \<and>
        jm_FailedAt m = [])"

lemma held_record_cong: "record_of R (ID (Job v)) r' = record_of R (ID (Job v)) r \<Longrightarrow> held_record R v r' = held_record R v r"
  by (simp add: held_record_def)

lemma held_record_HSET: "redis_server R \<Longrightarrow> jid \<noteq> ID (Job v) \<Longrightarrow> held_record R v (HSET R RecordsKey jid (MetadataText m) r) = held_record R v r"
  by (rule held_record_cong) (simp add: record_commands)

lemma held_record_simps [simp]:
  assumes "redis_server R"
  shows "held_record R v (ZADD R z s x r) = held_record R v r" "held_record R v (ZREM R z x r) = held_record R v r"
    "held_record R v (HSET R PayloadsKey jid p r) = held_record R v r" "held_record R v (HDEL R PayloadsKey jid r) = held_record R v r"
    "jid \<noteq> ID (Job v) \<Longrightarrow> held_record R v (HDEL R RecordsKey jid r) = held_record R v r"
  by (rule held_record_cong, simp add: record_commands assms)+

lemma recover_held:
  assumes S: "redis_server R" and t: "Token v \<noteq> []" and early: "now < unix_micro (ReservedUntil v)"
  shows "held_record R v r \<Longrightarrow> held_record R v (fst (recover_expired R now jids r))"
proof (induction jids arbitrary: r)
  case (Cons jid jids)
  show ?case
  proof (cases "record_of R jid r")
    case None
    then show ?thesis using Cons S by simp
  next
    case (Some m)
    show ?thesis
    proof (cases "jid = ID (Job v)")
      case True
      with Cons.prems Some have "jm_FailedAt m = []" "jm_ReservationToken m \<noteq> []" "\<not> score_of (jm_ReservedUntil m) \<le> now"
        using t early by (auto simp: held_record_def)
      then show ?thesis using Cons Some by simp
    next
      case False
      then show ?thesis using Cons Some S by (simp add: held_record_HSET)
    qed
  qed
qed simp

text \<open>What taking a ready job does, in any state.\<close>

definition leased :: "redisStoredJobMetadata \<Rightarrow> string \<Rightarrow> string \<Rightarrow> string \<Rightarrow> redisStoredJobMetadata" where
  "leased m attempts token until = m\<lparr>jm_Attempts := attempts, jm_ReservationToken := token, jm_ReservedUntil := until\<rparr>"

lemma take_ready_effect:
  assumes S: "redis_server R" and run: "take_ready R big member token until r = (r', res)"
  shows "r' = r \<and> \<not> is_ok res \<or>
    (\<exists>m attempts p. record_of R (drop 17 member) r = Some m \<and> jm_ID m = drop 17 member \<and> jm_FailedAt m = [] \<and> jm_ReservationToken m = [] \<and>
       res = Inr (JobReserved (leased m attempts token until) p) \<and>
       (\<forall>i. record_of R i r' = (if i = drop 17 member then Some (leased m attempts token until) else record_of R i r)))"
proof (cases "is_ok res")
  case True
  then obtain m payload a where m: "record_of R (drop 17 member) r = Some m" "payload_of R (drop 17 member) r = Some payload"
    "jm_ID m = drop 17 member" "jm_ReadyMember m = member" "jm_FailedAt m = []" "jm_ReservationToken m = []"
    "lua_number (jm_Attempts m) = Some a" "0 \<le> a"
    using run by (auto simp: take_ready_def Let_def split: option.splits if_splits)
  have "res = Inr (JobReserved (leased m (lua_tostring big (a + 1)) token until) payload)"
    "r' = ZADD R ReservedKey (score_of until) (drop 17 member) (ZREM R ReadyKey member
       (HSET R RecordsKey (drop 17 member) (MetadataText (leased m (lua_tostring big (a + 1)) token until)) r))"
    using run m by (auto simp: take_ready_def Let_def leased_def)
  then show ?thesis using m
    by (intro disjI2 exI [of _ m] exI [of _ "lua_tostring big (a + 1)"] exI [of _ payload]) (simp add: record_commands [OF S])
next
  case False
  then show ?thesis using run by (auto simp: take_ready_def Let_def split: option.splits if_splits)
qed

lemma job_reserve_script_effect:
  assumes S: "redis_server R" and run: "job_reserve_script R big now token until r = (r', res)"
    and r1: "r1 = fst (recover_expired R (score_of now) (expired_ids R (score_of now) r) r)"
  shows "r' = r1 \<and> (\<forall>m p. res \<noteq> Inr (JobReserved m p)) \<or>
    (\<exists>m attempts p. record_of R (jm_ID m) r1 = Some m \<and> jm_FailedAt m = [] \<and> jm_ReservationToken m = [] \<and>
       res = Inr (JobReserved (leased m attempts token until) p) \<and>
       (\<forall>i. record_of R i r' = (if i = jm_ID m then Some (leased m attempts token until) else record_of R i r1)))"
proof (cases "\<exists>member. take_ready R big member token until r1 = (r', res)")
  case True
  then obtain member where "take_ready R big member token until r1 = (r', res)" ..
  from take_ready_effect [OF S this] show ?thesis
  proof (elim disjE exE conjE)
    fix m attempts p
    assume m: "record_of R (drop 17 member) r1 = Some m" "jm_ID m = drop 17 member" "jm_FailedAt m = []" "jm_ReservationToken m = []"
      "res = Inr (JobReserved (leased m attempts token until) p)"
      "\<forall>i. record_of R i r' = (if i = drop 17 member then Some (leased m attempts token until) else record_of R i r1)"
    show ?thesis
      by (intro disjI2 exI [of _ m] exI [of _ attempts] exI [of _ p]) (use m in simp)
  qed (auto simp: is_ok_iff)
next
  case False
  then show ?thesis using run
    by (auto simp: job_reserve_script_def Let_def r1 split: prod.splits option.splits list.splits if_splits)
qed

lemma leased_sel [simp]:
  "jm_ID (leased m attempts token until) = jm_ID m" "jm_ReservationToken (leased m attempts token until) = token"
  "jm_ReservedUntil (leased m attempts token until) = until" "jm_FailedAt (leased m attempts token until) = jm_FailedAt m"
  by (simp_all add: leased_def)

lemma script_held:
  assumes S: "redis_server R" and t: "Token v \<noteq> []" and early: "score_of now < unix_micro (ReservedUntil v)"
    and held: "held_record R v r" and run: "job_reserve_script R big now token until r = (r', res)"
  shows "held_record R v r' \<and> (\<forall>m p. res = Inr (JobReserved m p) \<longrightarrow> jm_ID m \<noteq> ID (Job v))"
proof -
  define r1 where "r1 = fst (recover_expired R (score_of now) (expired_ids R (score_of now) r) r)"
  have h1: "held_record R v r1" unfolding r1_def by (rule recover_held [OF S t early held])
  from job_reserve_script_effect [OF S run r1_def] show ?thesis
  proof (elim disjE exE conjE)
    fix m attempts p
    assume m: "record_of R (jm_ID m) r1 = Some m" "jm_ReservationToken m = []" "res = Inr (JobReserved (leased m attempts token until) p)"
      "\<forall>i. record_of R i r' = (if i = jm_ID m then Some (leased m attempts token until) else record_of R i r1)"
    have "jm_ID m \<noteq> ID (Job v)" using h1 m(1,2) t by (auto simp: held_record_def)
    moreover from this have "held_record R v r' = held_record R v r1" by (intro held_record_cong) (simp add: m(4))
    ultimately show ?thesis using m(3) h1 by simp
  qed (use h1 in auto)
qed

lemma decoded_id: "decodeRedisStoredJob m p mx = Some (md, job) \<Longrightarrow> ID job = jm_ID m \<and> ID job \<noteq> []"
proof -
  assume d: "decodeRedisStoredJob m p mx = Some (md, job)"
  then have "ID job = utf8_coerce (jm_ID m)" "validateStoredJob job mx = None"
    by (auto simp: decodeRedisStoredJob_def Let_def clean_job_metadata_def split: option.splits if_splits)
  moreover from this have v: "validJobIdentifier (ID job)" by (auto simp: validateStoredJob_def split: if_splits)
  ultimately show ?thesis using coerced_ascii [of "jm_ID m"] job_identifier_ascii [OF v] validJobIdentifier_nonempty [OF v] by simp
qed

text \<open>The rounds of a reservation, by what their last script did.\<close>

lemma reserve_rounds_held:
  assumes S: "redis_server R" and t: "Token v \<noteq> []" and early: "score_of nowValue < unix_micro (ReservedUntil v)"
  shows "held_record R v r \<Longrightarrow> reserve_rounds R big mx nowValue untilValue until rounds r = (r', res) \<Longrightarrow>
    held_record R v r' \<and> (\<forall>w. res = Inr w \<longrightarrow> ID (Job w) \<noteq> ID (Job v))"
proof (induction rounds arbitrary: r)
  case (Cons x rounds)
  obtain random io where x: "x = (random, io)" by (cases x)
  show ?case
  proof (cases "newJobIdentifier random")
    case (Inl e)
    with Cons.prems show ?thesis by (auto simp: x)
  next
    case (Inr token)
    obtain r2 a where run: "run_script io (job_reserve_script R big nowValue token untilValue) r = (r2, a)" by force
    obtain r3 reply where script: "job_reserve_script R big nowValue token untilValue r = (r3, reply)" by force
    note sh = script_held [OF S t early Cons.prems(1) script]
    have r2: "held_record R v r2" using run_script_post [OF run] script sh Cons.prems(1) by auto
    have reply: "reply = Inr y" if "a = Some y" for y using run_script_reply [of io "job_reserve_script R big nowValue token untilValue" r r2 y] run that script by simp
    show ?thesis
    proof (cases a)
      case None
      with Cons.prems(2) Inr run r2 show ?thesis by (auto simp: x)
    next
      case (Some y)
      show ?thesis
      proof (cases y)
        case JobRetry
        with Cons.prems(2) Inr run Some Cons.IH [OF r2] show ?thesis by (simp add: x)
      next
        case JobNone
        with Cons.prems(2) Inr run Some r2 show ?thesis by (auto simp: x)
      next
        case (JobReserved m p)
        with sh reply [OF Some] have "jm_ID m \<noteq> ID (Job v)" by blast
        with Cons.prems(2) Inr run Some JobReserved r2 decoded_id [of m p mx] show ?thesis
          by (auto simp: x split: option.splits if_splits)
      qed
    qed
  qed
qed auto

lemma reserve_rounds_takes:
  assumes S: "redis_server R" and u: "score_of untilValue = unix_micro until"
  shows "reserve_rounds R big mx nowValue untilValue until rounds r = (r', Inr v) \<Longrightarrow> held_record R v r' \<and> ID (Job v) \<noteq> []"
proof (induction rounds arbitrary: r)
  case (Cons x rounds)
  obtain random io where x: "x = (random, io)" by (cases x)
  obtain token where token: "newJobIdentifier random = Inr token" using Cons.prems by (auto simp: x split: sum.splits)
  obtain r2 a where run: "run_script io (job_reserve_script R big nowValue token untilValue) r = (r2, a)" by force
  show ?case
  proof (cases "a = Some JobRetry")
    case True
    with Cons token run show ?thesis by (simp add: x)
  next
    case False
    then obtain m p where a: "a = Some (JobReserved m p)" using Cons.prems token run by (auto simp: x split: option.splits job_reply.splits)
    then obtain md job where d: "decodeRedisStoredJob m p mx = Some (md, job)" "v = \<lparr>Job = job, Token = token, ReservedUntil = until\<rparr>" "r' = r2"
      using Cons.prems token run by (auto simp: x split: option.splits if_splits)
    have script: "job_reserve_script R big nowValue token untilValue r = (r2, Inr (JobReserved m p))"
      using run_script_reply [of io _ r r2 "JobReserved m p"] run a by simp
    from job_reserve_script_effect [OF S this refl] obtain q attempts where "m = leased q attempts token untilValue" "jm_FailedAt q = []"
      "record_of R (jm_ID q) r2 = Some (leased q attempts token untilValue)"
      by auto
    moreover from this have "ID job = jm_ID q" "jm_ID q \<noteq> []" using decoded_id [OF d(1)] by auto
    ultimately show ?thesis using d(2,3) u by (simp add: held_record_def)
  qed
qed simp

lemma RedisReserve_held:
  assumes S: "redis_server R" and t: "Token v \<noteq> []" and early: "unix_micro now < unix_micro (ReservedUntil v)"
    and held: "held_record R v r" and run: "RedisReserve R big mx ctx now lease rounds r = (r', res)"
  shows "held_record R v r' \<and> (\<forall>w. res = Inr w \<longrightarrow> ID (Job w) \<noteq> ID (Job v))"
proof (cases "\<exists>nowValue untilValue. redisJobStoreTime now = Some nowValue \<and>
    reserve_rounds R big mx nowValue untilValue (now + lease) rounds r = (r', res)")
  case True
  then obtain nowValue untilValue where n: "redisJobStoreTime now = Some nowValue"
    "reserve_rounds R big mx nowValue untilValue (now + lease) rounds r = (r', res)" by blast
  show ?thesis by (rule reserve_rounds_held [OF S t _ held n(2)]) (simp add: redis_time(2) [OF n(1)] early)
next
  case False
  with run held show ?thesis by (auto simp: RedisReserve_def split: option.splits if_splits)
qed

lemma RedisReserve_takes:
  assumes S: "redis_server R" and run: "RedisReserve R big mx ctx now lease rounds r = (r', Inr v)"
  shows "held_record R v r' \<and> ID (Job v) \<noteq> []"
proof -
  obtain nowValue untilValue where u: "redisJobStoreTime (now + lease) = Some untilValue"
    "reserve_rounds R big mx nowValue untilValue (now + lease) rounds r = (r', Inr v)"
    using run by (auto simp: RedisReserve_def split: option.splits if_splits)
  show ?thesis by (rule reserve_rounds_takes [OF S redis_time(2) [OF u(1)] u(2)])
qed

text \<open>Calls of others.\<close>

lemma post_held: "held_record R v r \<Longrightarrow> held_record R v (fst (script r)) \<Longrightarrow> held_record R v (fst (requireOne io script operation e r))"
  using requireOne_post [of io script operation e r] by auto

lemma finished_held:
  assumes S: "redis_server R" and held: "held_record R v r" and other: "jid = ID (Job v) \<Longrightarrow> token \<noteq> Token v"
    and f: "\<And>m r. jid \<noteq> ID (Job v) \<Longrightarrow> held_record R v r \<Longrightarrow> held_record R v (f m r)"
  shows "held_record R v (fst (with_reservation R jid token f r))"
  using assms by (cases "jid = ID (Job v)") (auto simp: with_reservation_def held_record_def split: option.splits)

lemma failed_held:
  assumes S: "redis_server R" and held: "held_record R v r"
    and f: "\<And>m r. jid \<noteq> ID (Job v) \<Longrightarrow> held_record R v r \<Longrightarrow> held_record R v (f m r)"
  shows "held_record R v (fst (with_failed R jid f r))"
  using assms by (cases "jid = ID (Job v)") (auto simp: with_failed_def held_record_def split: option.splits)

lemma call_held:
  assumes S: "redis_server R" and t: "Token v \<noteq> []" and held: "held_record R v r" and ok: "leaves_reservation v call"
  shows "held_record R v (call_redis R big mx call r)"
proof (cases call)
  case (RedisCallEnqueue ctx j io)
  have "held_record R v (fst (enqueue_script R (ID j) m payload available member r))" for m payload available member
  proof (cases "ID j = ID (Job v)")
    case True
    then have "HGET R RecordsKey (ID j) r \<noteq> None" using held by (auto simp: held_record_def record_of_def split: option.splits)
    then show ?thesis using held by (simp add: enqueue_script_def)
  qed (simp add: enqueue_script_def S held held_record_HSET)
  then show ?thesis using held by (auto simp: RedisCallEnqueue RedisEnqueue_def intro!: post_held split: option.splits sum.splits)
next
  case (RedisCallReserve ctx now lease rounds)
  obtain r' res where run: "RedisReserve R big mx ctx now lease rounds r = (r', res)" by force
  have "held_record R v r'" using RedisReserve_held [OF S t _ held run] ok by (simp add: RedisCallReserve)
  then show ?thesis by (simp add: RedisCallReserve run)
next
  case (RedisCallRelease ctx w u er io)
  have "held_record R v (fst (release_script R (ID (Job w)) (Token w) available e r))" for available e
    unfolding release_script_def by (rule finished_held [OF S held]) (use ok S in \<open>auto simp: RedisCallRelease held_record_HSET\<close>)
  then show ?thesis using held by (auto simp: RedisCallRelease RedisRelease_def intro!: post_held split: option.splits)
next
  case (RedisCallComplete ctx w io)
  have "held_record R v (fst (job_complete_script R (ID (Job w)) (Token w) r))"
    unfolding job_complete_script_def by (rule finished_held [OF S held]) (use ok S in \<open>auto simp: RedisCallComplete drop_job_def\<close>)
  then show ?thesis using held by (auto simp: RedisCallComplete RedisComplete_def intro!: post_held split: option.splits)
next
  case (RedisCallFail ctx w er clock io)
  have "held_record R v (fst (fail_script R (ID (Job w)) (Token w) failedAt e r))" for failedAt e
    unfolding fail_script_def by (rule finished_held [OF S held]) (use ok S in \<open>auto simp: RedisCallFail held_record_HSET\<close>)
  then show ?thesis using held by (auto simp: RedisCallFail RedisFail_def intro!: post_held split: option.splits)
next
  case (RedisCallRetryFailed ctx jid u io)
  have "held_record R v (fst (retry_failed_script R jid available r))" for available
    unfolding retry_failed_script_def by (rule failed_held [OF S held]) (use S in \<open>auto simp: held_record_HSET\<close>)
  then show ?thesis using held by (auto simp: RedisCallRetryFailed RedisRetryFailed_def intro!: post_held split: option.splits)
next
  case (RedisCallForgetFailed ctx jid io)
  have "held_record R v (fst (forget_failed_script R jid r))"
    unfolding forget_failed_script_def by (rule failed_held [OF S held]) (use S in \<open>auto simp: drop_job_def\<close>)
  then show ?thesis using held by (auto simp: RedisCallForgetFailed RedisForgetFailed_def intro!: post_held split: option.splits)
qed

lemma calls_held:
  "redis_server R \<Longrightarrow> Token v \<noteq> [] \<Longrightarrow> held_record R v r \<Longrightarrow> list_all (leaves_reservation v) calls \<Longrightarrow>
     held_record R v (fold (call_redis R big mx) calls r)"
  by (induction calls arbitrary: r) (simp_all add: call_held)

text \<open>
  C27. A reservation on a Redis server holds. After a successful \<open>Reserve\<close>, whatever calls other clients make before the lease ends, counted in whole
  microseconds, whatever of their requests and replies is lost, no other reservation is of the same job, and the holder can still complete it.
\<close>

theorem redis_reservation_holds:
  assumes "redis_server R" "RedisReserve R big mx ctx now lease rounds r = (r1, Inr v)" "Token v \<noteq> []"
    "list_all (leaves_reservation v) calls" "unix_micro now' < unix_micro (ReservedUntil v)"
    "RedisReserve R big mx ctx' now' lease' rounds' (fold (call_redis R big mx) calls r1) = (r2, res)"
  shows "(\<forall>w. res = Inr w \<longrightarrow> ID (Job w) \<noteq> ID (Job v)) \<and> is_ok (ret (RedisComplete R LiveContext v ScriptReplies r2))"
proof -
  note v = RedisReserve_takes [OF assms(1,2)]
  have "held_record R v (fold (call_redis R big mx) calls r1)" by (rule calls_held) (use assms v in auto)
  from RedisReserve_held [OF assms(1,3,5) this assms(6)]
  have w: "held_record R v r2" "\<forall>w. res = Inr w \<longrightarrow> ID (Job w) \<noteq> ID (Job v)" by auto
  then have "snd (job_complete_script R (ID (Job v)) (Token v) r2) = Inr 1"
    by (auto simp: held_record_def job_complete_script_def with_reservation_def)
  then show ?thesis using w(2) v assms(3)
    by (simp add: RedisComplete_def validateRedisReservation_def redis_job_ready_def requireOne_ok)
qed

text \<open>The states of a server with two jobs, before and after each is reserved.\<close>

definition text_record :: "char \<Rightarrow> string \<Rightarrow> string \<Rightarrow> string \<Rightarrow> string \<Rightarrow> redisStoredJobMetadata" where
  "text_record c micros attempts token until =
     \<lparr>jm_ID = replicate 64 c, jm_Handler = ''h'', jm_AvailableAt = micros, jm_EnqueuedAt = micros, jm_Attempts = attempts,
      jm_ReadyMember = ''800000000000000'' @ micros @ '':'' @ replicate 64 c, jm_ReservationToken = token, jm_ReservedUntil = until,
      jm_FailedAt = [], jm_LastError = []\<rparr>"

lemma text_record_sel:
  "jm_ReservationToken (text_record c micros attempts token until) = token" "jm_ReservedUntil (text_record c micros attempts token until) = until"
  by (simp_all add: text_record_def)

definition two_records :: "redisStoredJobMetadata \<Rightarrow> redisStoredJobMetadata \<Rightarrow> ((job_hash \<times> string) \<times> job_text) list" where
  "two_records a b =
     [((RecordsKey, replicate 64 CHR ''a''), MetadataText a), ((PayloadsKey, replicate 64 CHR ''a''), PayloadText ''1''),
      ((RecordsKey, replicate 64 CHR ''b''), MetadataText b), ((PayloadsKey, replicate 64 CHR ''b''), PayloadText ''1'')]"

definition ready_entry :: "char \<Rightarrow> string \<Rightarrow> job_zset \<times> string" where
  "ready_entry c micros = (ReadyKey, ''800000000000000'' @ micros @ '':'' @ replicate 64 c)"

definition both_ready :: job_memory where
  "both_ready =
     (two_records (text_record CHR ''a'' ''2'' ''0'' [] []) (text_record CHR ''b'' ''1'' ''0'' [] []),
      [(ready_entry CHR ''a'' ''2'', 2), (ready_entry CHR ''b'' ''1'', 1)])"

definition one_reserved :: job_memory where
  "one_reserved =
     (two_records (text_record CHR ''a'' ''2'' ''0'' [] []) (text_record CHR ''b'' ''1'' ''1'' ''78'' ''25''),
      [(ready_entry CHR ''a'' ''2'', 2), ((ReservedKey, replicate 64 CHR ''b''), 25)])"

definition both_reserved :: job_memory where
  "both_reserved =
     (two_records (text_record CHR ''a'' ''2'' ''1'' ''79'' ''44'') (text_record CHR ''b'' ''1'' ''1'' ''78'' ''25''),
      [((ReservedKey, replicate 64 CHR ''b''), 25), ((ReservedKey, replicate 64 CHR ''a''), 44)])"

lemma scripts_on_samples:
  "job_reserve_script memory_redis format_int ''5'' ''78'' ''25'' both_ready =
     (one_reserved, Inr (JobReserved (text_record CHR ''b'' ''1'' ''1'' ''78'' ''25'') ''1''))"
  "job_reserve_script memory_redis format_int ''24'' ''79'' ''44'' one_reserved =
     (both_reserved, Inr (JobReserved (text_record CHR ''a'' ''2'' ''1'' ''79'' ''44'') ''1''))"
  by code_simp+

lemma times_on_samples:
  "redisJobStoreTime (redis_epoch + 5000) = Some ''5''" "redisJobStoreTime (25000 + redis_epoch) = Some ''25''"
  "redisJobStoreTime (redis_epoch + 24000) = Some ''24''" "redisJobStoreTime (44000 + redis_epoch) = Some ''44''"
  "parseRedisJobStoreTime ''1'' = Some (redis_epoch + 1000)" "parseRedisJobStoreTime ''2'' = Some (redis_epoch + 2000)"
  "newJobIdentifier (Some ''x'') = Inr ''78''" "newJobIdentifier (Some ''y'') = Inr ''79''" "atoi ''1'' = Some 1"
  "\<not> is_zero_time (redis_epoch + 5000)" "\<not> is_zero_time (redis_epoch + 24000)"
  by code_simp+

lemma jobs_on_samples:
  "validateStoredJob (sample_redis_job CHR ''b'' 1000\<lparr>Attempts := 1\<rparr>) 100 = None"
  "validateStoredJob (sample_redis_job CHR ''a'' 2000\<lparr>Attempts := 1\<rparr>) 100 = None"
  "redisJobStoreReadyMember (redis_epoch + 1000) (replicate 64 CHR ''b'') = ''8000000000000001:'' @ replicate 64 CHR ''b''"
  "redisJobStoreReadyMember (redis_epoch + 2000) (replicate 64 CHR ''a'') = ''8000000000000002:'' @ replicate 64 CHR ''a''"
  by code_simp+

lemma clean_text_record:
  "byte c < 128 \<Longrightarrow> list_all (\<lambda>c. byte c < 128) (micros @ attempts @ token @ until) \<Longrightarrow>
     clean_job_metadata (text_record c micros attempts token until) = text_record c micros attempts token until"
  by (simp add: clean_job_metadata_def text_record_def coerce_ascii list_all_iff)

definition redis_job_run :: "char \<Rightarrow> instant \<Rightarrow> string \<Rightarrow> instant \<Rightarrow> JobReservation" where
  "redis_job_run c t token until = \<lparr>Job = sample_redis_job c t\<lparr>Attempts := 1\<rparr>, Token = token, ReservedUntil = redis_epoch + until\<rparr>"

lemma decode_samples:
  "decodeRedisStoredJob (text_record CHR ''b'' ''1'' ''1'' ''78'' ''25'') ''1'' 100 =
     Some (text_record CHR ''b'' ''1'' ''1'' ''78'' ''25'', sample_redis_job CHR ''b'' 1000\<lparr>Attempts := 1\<rparr>)"
  "decodeRedisStoredJob (text_record CHR ''a'' ''2'' ''1'' ''79'' ''44'') ''1'' 100 =
     Some (text_record CHR ''a'' ''2'' ''1'' ''79'' ''44'', sample_redis_job CHR ''a'' 2000\<lparr>Attempts := 1\<rparr>)"
  using jobs_on_samples
  by (simp_all add: decodeRedisStoredJob_def clean_text_record, simp_all add: text_record_def times_on_samples Let_def sample_redis_job_def)

lemma redis_job_runs:
  "RedisReserve memory_redis format_int 100 LiveContext (redis_epoch + 5000) 20000 [(Some ''x'', ScriptReplies)] both_ready =
     (one_reserved, Inr (redis_job_run CHR ''b'' 1000 ''78'' 25000))"
  "RedisReserve memory_redis format_int 100 LiveContext (redis_epoch + 24000) 20000 [(Some ''y'', ScriptReplies)] one_reserved =
     (both_reserved, Inr (redis_job_run CHR ''a'' 2000 ''79'' 44000))"
  by (simp_all add: RedisReserve_def redis_job_ready_def times_on_samples run_script_def scripts_on_samples decode_samples redis_job_run_def text_record_sel)

definition other_redis_calls :: "redis_job_call list" where
  "other_redis_calls =
     [RedisCallEnqueue LiveContext (sample_redis_job CHR ''b'' 1000) ScriptReplies,
      RedisCallComplete LiveContext \<lparr>Job = sample_redis_job CHR ''b'' 1000, Token = ''79'', ReservedUntil = 0\<rparr> ScriptReplies,
      RedisCallForgetFailed LiveContext (replicate 64 CHR ''b'') ScriptReplyLost]"

lemma other_redis_calls_ok:
  "fold (call_redis memory_redis format_int 100) other_redis_calls one_reserved = one_reserved"
  "list_all (leaves_reservation (redis_job_run CHR ''b'' 1000 ''78'' 25000)) other_redis_calls"
  by code_simp+

theorem redis_reservation_holds_witness:
  "is_ok (ret (RedisComplete memory_redis LiveContext (redis_job_run CHR ''b'' 1000 ''78'' 25000) ScriptReplies both_reserved))"
proof -
  let ?v = "redis_job_run CHR ''b'' 1000 ''78'' 25000"
  have "Token ?v \<noteq> []" "unix_micro (redis_epoch + 24000) < unix_micro (ReservedUntil ?v)" by code_simp+
  then show ?thesis
    using redis_reservation_holds [OF memory_redis_server redis_job_runs(1) _ other_redis_calls_ok(2), of "redis_epoch + 24000"] redis_job_runs(2)
    unfolding other_redis_calls_ok(1) by blast
qed

section \<open>The first job is handed out\<close>

text \<open>The jobs that are ready, or whose leases have ended and are recovered by this script.\<close>

definition waiting :: "'r job_redis \<Rightarrow> int \<Rightarrow> 'r \<Rightarrow> redisStoredJobMetadata \<Rightarrow> bool" where
  "waiting R now r m = (record_of R (jm_ID m) r = Some m \<and> (place m = ReadyKey \<or> jm_ID m \<in> set (expired_ids R now r)))"

definition available :: "redisStoredJobMetadata \<Rightarrow> int" where
  "available m = score_of (jm_AvailableAt m)"

definition turn_order :: "redisStoredJobMetadata \<Rightarrow> int \<times> int \<times> string" where
  "turn_order m = (available m, enqueued m, jm_ID m)"

lemma freed_sel [simp]:
  "jm_ID (freed m) = jm_ID m" "jm_AvailableAt (freed m) = jm_AvailableAt m" "jm_EnqueuedAt (freed m) = jm_EnqueuedAt m"
  "jm_ReadyMember (freed m) = jm_ReadyMember m" "jm_FailedAt (freed m) = jm_FailedAt m" "jm_ReservationToken (freed m) = []"
  "jm_Attempts (freed m) = jm_Attempts m" "turn_order (freed m) = turn_order m" "available (freed m) = available m"
  "taken_record (freed m) token until = taken_record m token until"
  by (simp_all add: freed_def turn_order_def available_def enqueued_def taken_record_def)

text \<open>After the recovery the waiting jobs are the ready ones.\<close>

lemma recovered_ready:
  assumes S: "redis_server R" and inv: "consistent R n r"
    and rec: "\<And>i. record_of R i r1 = (if i \<in> set (expired_ids R now r) then map_option freed (record_of R i r) else record_of R i r)"
    and inv1: "consistent R n r1"
  shows "waiting R now r m \<Longrightarrow> \<exists>m1. m1 \<in> {m, freed m} \<and> (jm_ReadyMember m, available m) \<in> set (ZRANGE R ReadyKey r1)"
    "record_of R i r1 = Some m1 \<Longrightarrow> place m1 = ReadyKey \<Longrightarrow> \<exists>m. waiting R now r m \<and> m1 \<in> {m, freed m} \<and> jm_ID m = i"
proof -
  have ready: "(jm_ReadyMember q, available q) \<in> set (ZRANGE R ReadyKey r1)" if "record_of R j r1 = Some q" "place q = ReadyKey" for j q
  proof -
    have "filed q = (ReadyKey, jm_ReadyMember q, available q)" using that(2) by (simp add: filed_def entry_def score_def available_def)
    then show ?thesis using inv1 that(1) by (auto simp: consistent_def filed_once_def)
  qed
  have failed: "jm_FailedAt q = []" if "jm_ID q \<in> set (expired_ids R now r)" "record_of R (jm_ID q) r = Some q" for q
  proof -
    have "\<exists>s \<le> now. (jm_ID q, s) \<in> set (ZRANGE R ReservedKey r)"
      using expired_reserved [OF S, where now = now and r = r] that(1) by (elim conjE) (rule bspec)
    then obtain s where "(jm_ID q, s) \<in> set (ZRANGE R ReservedKey r)" by (elim exE conjE)
    then obtain q' where "record_of R (jm_ID q) r = Some q'" "filed q' = (ReservedKey, jm_ID q, s)" by (rule consistent_entry [OF inv]) auto
    with that(2) show ?thesis using place_cases(4) [of q] by (simp add: filed_def)
  qed
  show "\<exists>m1. m1 \<in> {m, freed m} \<and> (jm_ReadyMember m, available m) \<in> set (ZRANGE R ReadyKey r1)" if w: "waiting R now r m"
  proof (cases "jm_ID m \<in> set (expired_ids R now r)")
    case True
    then have "record_of R (jm_ID m) r1 = Some (freed m)" "place (freed m) = ReadyKey"
      using w rec failed [OF True] by (simp_all add: waiting_def place_def)
    from ready [OF this] show ?thesis by auto
  next
    case False
    then have "record_of R (jm_ID m) r1 = Some m" "place m = ReadyKey" using w rec by (simp_all add: waiting_def)
    from ready [OF this] show ?thesis by auto
  qed
  show "\<exists>m. waiting R now r m \<and> m1 \<in> {m, freed m} \<and> jm_ID m = i" if m1: "record_of R i r1 = Some m1" "place m1 = ReadyKey"
  proof (cases "i \<in> set (expired_ids R now r)")
    case True
    then obtain m where m: "record_of R i r = Some m" "m1 = freed m" using m1(1) rec by auto
    moreover from this have "jm_ID m = i" using consistent_wf [OF inv m(1)] by (simp add: record_wf_iff)
    ultimately show ?thesis using True by (auto simp: waiting_def)
  next
    case False
    then have m: "record_of R i r = Some m1" using m1(1) rec by simp
    moreover from this have "jm_ID m1 = i" using consistent_wf [OF inv m] by (simp add: record_wf_iff)
    ultimately show ?thesis using m1(2) by (auto simp: waiting_def)
  qed
qed

lemma ready_first:
  assumes S: "redis_server R" and x: "ZRANGE R ReadyKey r = (member, s) # rest" and y: "(member', s') \<in> set (ZRANGE R ReadyKey r)"
  shows "(s, member) \<le> (s', member')"
proof -
  have "sorted (map score_key (ZRANGE R ReadyKey r))" by (rule redis_zset_order [OF S])
  then show ?thesis using y unfolding x by (fastforce simp: score_key_def)
qed

lemma member_order:
  assumes "named i m" "named j q" "(available m, jm_ReadyMember m) \<le> (available q, jm_ReadyMember q)"
  shows "turn_order m \<le> turn_order q"
proof -
  have "jm_ReadyMember q < jm_ReadyMember m \<longleftrightarrow> (enqueued q, j) < (enqueued m, i)"
    using assms(1,2) ready_member_less [of "enqueued q" "enqueued m" j i] by (simp add: named_def)
  then show ?thesis using assms by (auto simp: turn_order_def named_def not_less [symmetric])
qed

text \<open>
  C29. \<open>Reserve\<close> hands out the first job. From a consistent state the script finds exactly the jobs that wait: those that are ready and those whose leases have
  ended, up to 128 of them. If one of these is due, it reserves the first by the time it is available, then by the time it was enqueued, then by its
  identifier, and answers with its record, one attempt more, and its payload; otherwise it answers that there is none, or, when it recovered as many
  as it may, to try again.
\<close>

theorem redis_reserves_earliest:
  assumes "redis_server R" "consistent R n r" "n + 1 < 10 ^ 14" "token \<noteq> []"
  shows "case ret (job_reserve_script R big now token until r) of
      Inl e \<Rightarrow> False
    | Inr (JobReserved m p) \<Rightarrow>
        (\<exists>q. waiting R (score_of now) r q \<and> available q \<le> score_of now \<and> m = taken_record q token until \<and>
           payload_of R (jm_ID q) r = Some p \<and> (\<forall>q'. waiting R (score_of now) r q' \<longrightarrow> turn_order q \<le> turn_order q'))
    | Inr reply \<Rightarrow>
        (\<forall>q. waiting R (score_of now) r q \<longrightarrow> score_of now < available q) \<and>
        (reply = JobRetry \<longleftrightarrow> length (expired_ids R (score_of now) r) = 128)"
proof -
  let ?now = "score_of now" and ?ids = "expired_ids R (score_of now) r"
  obtain r1 where r1: "recover_expired R ?now ?ids r = (r1, None)" "consistent R n r1"
    "\<And>i. record_of R i r1 = (if i \<in> set ?ids then map_option freed (record_of R i r) else record_of R i r)"
    "\<And>i. payload_of R i r1 = payload_of R i r"
    using recover_consistent [OF assms(1,2), of ?ids ?now] expired_reserved [OF assms(1), where now = ?now and r = r] by blast
  note ready = recovered_ready [OF assms(1,2) r1(3,2)]
  have none: ?thesis if late: "\<And>x s. (x, s) \<in> set (ZRANGE R ReadyKey r1) \<Longrightarrow> ?now < s"
    and run: "ret (job_reserve_script R big now token until r) = Inr (if length ?ids = redisJobStoreRecoveryBatch then JobRetry else JobNone)"
  proof -
    have "?now < available q" if w: "waiting R ?now r q" for q
      using ready(1) [OF w] late by blast
    then show ?thesis by (simp add: run redisJobStoreRecoveryBatch_def)
  qed
  show ?thesis
  proof (cases "ZRANGE R ReadyKey r1")
    case Nil
    show ?thesis by (rule none) (use Nil r1(1) in \<open>simp_all add: job_reserve_script_def Let_def\<close>)
  next
    case (Cons x rest)
    obtain member s where x: "x = (member, s)" by (cases x)
    note first = ready_first [OF assms(1) Cons [unfolded x]]
    show ?thesis
    proof (cases "s > ?now")
      case True
      have "?now < s'" if "(x', s') \<in> set (ZRANGE R ReadyKey r1)" for x' s' using first [OF that] True by auto
      then show ?thesis by (rule none) (use Cons x True r1(1) in \<open>simp_all add: job_reserve_script_def Let_def\<close>)
    next
      case False
      have mem: "(member, s) \<in> set (ZRANGE R ReadyKey r1)" by (simp add: Cons x)
      obtain m1 p r' where m1: "record_of R (drop 17 member) r1 = Some m1" "filed m1 = (ReadyKey, member, s)" "payload_of R (drop 17 member) r1 = Some p"
        "take_ready R big member token until r1 = (r', Inr (JobReserved (taken_record m1 token until) p))"
        by (rule take_ready_consistent [OF assms(1) r1(2) assms(3,4) mem, where big = big and until = until])
      have m1': "place m1 = ReadyKey" "jm_ReadyMember m1 = member" "available m1 = s"
        using m1(2) by (auto simp: filed_def entry_def score_def available_def)
      obtain q where q: "waiting R ?now r q" "m1 \<in> {q, freed q}" "jm_ID q = drop 17 member" using ready(2) [OF m1(1) m1'(1)] by blast
      then have same: "available q = s" "jm_ReadyMember q = member" "taken_record m1 token until = taken_record q token until" using m1' by auto
      have run: "ret (job_reserve_script R big now token until r) = Inr (JobReserved (taken_record q token until) p)"
        using r1(1) Cons x False m1(4) same(3) by (simp add: job_reserve_script_def Let_def)
      have wf: "named (jm_ID q') q'" if "waiting R ?now r q'" for q'
        using consistent_wf [OF assms(2), of "jm_ID q'" q'] that by (simp add: waiting_def record_wf_iff)
      have "turn_order q \<le> turn_order q'" if w: "waiting R ?now r q'" for q'
      proof (rule member_order [OF wf [OF q(1)] wf [OF w]])
        from ready(1) [OF w] have "(jm_ReadyMember q', available q') \<in> set (ZRANGE R ReadyKey r1)" by blast
        from first [OF this] show "(available q, jm_ReadyMember q) \<le> (available q', jm_ReadyMember q')" by (simp add: same)
      qed
      then show ?thesis using q(1,3) same(1) False m1(3) r1(4) by (simp add: run) (intro exI [of _ q], simp)
    qed
  qed
qed

lemma both_ready_consistent: "consistent memory_redis 2 both_ready"
proof -
  let ?calls = "[RedisCallEnqueue LiveContext (sample_redis_job CHR ''a'' 2000) ScriptReplies,
       RedisCallEnqueue LiveContext (sample_redis_job CHR ''b'' 1000) ScriptReplyLost]"
  have calls: "fold (call_redis memory_redis format_int 100) ?calls ([], []) = both_ready" by code_simp
  have "list_all (call_ok 0) ?calls" by (simp add: sample_redis_job_def)
  from calls_consistent [OF memory_redis_server empty_consistent _ _ this, of format_int 100] show ?thesis unfolding calls by simp
qed

theorem redis_reserves_earliest_witness:
  "\<exists>q. waiting memory_redis 5 both_ready q \<and> jm_ID q = replicate 64 CHR ''b'' \<and>
     (\<forall>q'. waiting memory_redis 5 both_ready q' \<longrightarrow> turn_order q \<le> turn_order q')"
proof -
  have now: "score_of ''5'' = 5" by code_simp
  have b: "jm_ID (text_record CHR ''b'' ''1'' ''1'' ''78'' ''25'') = replicate 64 CHR ''b''" "jm_ID (taken_record q token until) = jm_ID q" for q token until
    by (simp_all add: text_record_def taken_record_def)
  have "\<exists>q. waiting memory_redis 5 both_ready q \<and> text_record CHR ''b'' ''1'' ''1'' ''78'' ''25'' = taken_record q ''78'' ''25'' \<and>
      (\<forall>q'. waiting memory_redis 5 both_ready q' \<longrightarrow> turn_order q \<le> turn_order q')"
    using redis_reserves_earliest [OF memory_redis_server both_ready_consistent, where token = "''78''" and big = format_int and now = "''5''" and until = "''25''"]
    unfolding scripts_on_samples(1) now by auto
  then show ?thesis using b by metis
qed

end
