(* ===== verification/JobQueueLifecycle.thy ===== *)
theory JobQueueLifecycle
  imports JobQueue "HOL-Library.Multiset"
begin

text \<open>
  The goroutines of the job queue: \<open>src/backend/framework/jobs.go\<close> and
  \<open>jobs_delayed.go\<close>. Callers dispatch jobs at once or for later, the scheduler moves delayed
  jobs to the channel of ready ones, workers take them from there, and a shutdown stops all of this in
  stages.

  The state holds the queue's channels, the wait groups and the place each goroutine has reached. A
  buffered channel is the list of what it holds and a channel that is only closed is a flag; sending
  on a closed channel and closing one twice panic, which \<open>lc_panicked\<close> records. A step is
  one action of one goroutine and is \<open>None\<close> when that goroutine is blocked or is elsewhere, so
  that a sequence of steps is one interleaving. \<open>lc_accepted\<close> and \<open>lc_executed\<close> record
  the jobs whose dispatch returned nil and the jobs whose execution ended.

  \<open>pending\<close> is the heap of \<open>container/heap\<close> as the list of its elements in the order
  \<open>Pop\<close> returns them.
\<close>

section \<open>The state\<close>

datatype 'j dispatch = Sending 'j | WantSlot instant 'j | HasSlot instant 'j | Persisting 'j

datatype 'j worker = Waiting | Working 'j | Exited

text \<open>\<open>Promoting\<close> and \<open>Releasing\<close> tell whether the scheduler is emptying its heap to exit.\<close>

datatype 'j scheduler =
    SchedulerOff | Selecting | Draining | Emptying | Promoting bool 'j | Releasing bool | SchedulerExited

datatype finisher = NoShutdown | WaitDispatches | WaitScheduler | WaitWorkers | ShutdownComplete

record 'j scheduledJob =
  sj_readyAt :: instant
  sj_sequence :: nat
  sj_job :: 'j

record 'j lifecycle =
  lc_capacity :: nat
  lc_workerCount :: nat
  lc_store :: bool
  lc_state :: jobQueueState
  lc_jobs :: "'j list"
  lc_jobsClosed :: bool
  lc_scheduled :: "(instant \<times> 'j) list"
  lc_delayedSlots :: nat
  lc_scheduleStop :: bool
  lc_scheduleDone :: bool
  lc_stopping :: bool
  lc_shutdownDone :: bool
  lc_pending :: "'j scheduledJob list"
  lc_sequence :: nat
  lc_scheduler :: "'j scheduler"
  lc_dispatches :: "'j dispatch list"
  lc_workers :: "'j worker list"
  lc_finisher :: finisher
  lc_panicked :: bool
  lc_accepted :: "'j list"
  lc_executed :: "'j list"

definition new_lifecycle :: "nat \<Rightarrow> nat \<Rightarrow> bool \<Rightarrow> 'j lifecycle" where
  "new_lifecycle capacity workers store =
     \<lparr>lc_capacity = capacity, lc_workerCount = workers, lc_store = store, lc_state = jobQueueCollecting,
      lc_jobs = [], lc_jobsClosed = False, lc_scheduled = [], lc_delayedSlots = 0, lc_scheduleStop = False,
      lc_scheduleDone = False, lc_stopping = False, lc_shutdownDone = False, lc_pending = [], lc_sequence = 0,
      lc_scheduler = SchedulerOff, lc_dispatches = [], lc_workers = [], lc_finisher = NoShutdown,
      lc_panicked = False, lc_accepted = [], lc_executed = []\<rparr>"

section \<open>Steps\<close>

text \<open>Starting: the state changes under the mutex, then the goroutines begin.\<close>

definition Start :: "'j lifecycle \<Rightarrow> 'j lifecycle \<times> (queue_error + unit)" where
  "Start s =
     (case lc_state s of
        jobQueueRunning \<Rightarrow> (s, Inr ())
      | jobQueueStopping \<Rightarrow> (s, Inl ErrJobQueueStopped)
      | jobQueueStopped \<Rightarrow> (s, Inl ErrJobQueueStopped)
      | jobQueueCollecting \<Rightarrow>
          (s\<lparr>lc_state := jobQueueRunning, lc_workers := replicate (lc_workerCount s) Waiting,
             lc_scheduler := (if lc_store s then SchedulerOff else Selecting)\<rparr>, Inr ()))"

text \<open>Dispatching: \<open>when = None\<close> for \<open>DispatchJob\<close>, the time for a delayed dispatch.\<close>

definition dispatch_begin :: "instant option \<Rightarrow> 'j \<Rightarrow> 'j lifecycle \<Rightarrow> 'j lifecycle option" where
  "dispatch_begin when j s =
     (if lc_state s = jobQueueRunning then
        Some (s\<lparr>lc_dispatches := lc_dispatches s @
          [if lc_store s then Persisting j
           else case when of None \<Rightarrow> Sending j | Some t \<Rightarrow> WantSlot t j]\<rparr>)
      else None)"

definition drop_at :: "nat \<Rightarrow> 'a list \<Rightarrow> 'a list" where
  "drop_at i xs = take i xs @ drop (Suc i) xs"

definition send_job :: "'j \<Rightarrow> 'j lifecycle \<Rightarrow> 'j lifecycle option" where
  "send_job j s =
     (if lc_jobsClosed s then Some (s\<lparr>lc_panicked := True\<rparr>)
      else if length (lc_jobs s) < lc_capacity s then Some (s\<lparr>lc_jobs := lc_jobs s @ [j]\<rparr>)
      else None)"

definition dispatch_send :: "nat \<Rightarrow> 'j lifecycle \<Rightarrow> 'j lifecycle option" where
  "dispatch_send i s =
     (if i < length (lc_dispatches s) then
        (case lc_dispatches s ! i of
           Sending j \<Rightarrow>
             map_option (\<lambda>s'. s'\<lparr>lc_dispatches := drop_at i (lc_dispatches s'),
                                lc_accepted := lc_accepted s' @ [j]\<rparr>) (send_job j s)
         | WantSlot t j \<Rightarrow>
             if lc_delayedSlots s < lc_capacity s
             then Some (s\<lparr>lc_delayedSlots := lc_delayedSlots s + 1,
                          lc_dispatches := (lc_dispatches s)[i := HasSlot t j]\<rparr>)
             else None
         | HasSlot t j \<Rightarrow>
             if length (lc_scheduled s) < lc_capacity s
             then Some (s\<lparr>lc_scheduled := lc_scheduled s @ [(t, j)],
                          lc_dispatches := drop_at i (lc_dispatches s), lc_accepted := lc_accepted s @ [j]\<rparr>)
             else None
         | Persisting j \<Rightarrow>
             Some (s\<lparr>lc_dispatches := drop_at i (lc_dispatches s)\<rparr>))
      else None)"

text \<open>
  The other branches of the selects: the queue is stopping, or the caller's context is done. A
  dispatch that holds a slot sends without a select.
\<close>

definition dispatch_abort :: "nat \<Rightarrow> bool \<Rightarrow> 'j lifecycle \<Rightarrow> 'j lifecycle option" where
  "dispatch_abort i ctxDone s =
     (if i < length (lc_dispatches s) \<and> (lc_stopping s \<or> ctxDone) then
        (case lc_dispatches s ! i of
           Sending j \<Rightarrow> Some (s\<lparr>lc_dispatches := drop_at i (lc_dispatches s)\<rparr>)
         | WantSlot t j \<Rightarrow> Some (s\<lparr>lc_dispatches := drop_at i (lc_dispatches s)\<rparr>)
         | _ \<Rightarrow> None)
      else None)"

text \<open>The order of \<open>scheduledJobHeap\<close>: the ready time, then the sequence number.\<close>

definition scheduledJob_less :: "'j scheduledJob \<Rightarrow> 'j scheduledJob \<Rightarrow> bool" where
  "scheduledJob_less a b =
     (if sj_readyAt a = sj_readyAt b then sj_sequence a < sj_sequence b else sj_readyAt a < sj_readyAt b)"

primrec heap_push :: "'j scheduledJob \<Rightarrow> 'j scheduledJob list \<Rightarrow> 'j scheduledJob list" where
  "heap_push x [] = [x]"
| "heap_push x (y # ys) = (if scheduledJob_less x y then x # y # ys else y # heap_push x ys)"

definition scheduler_take :: "'j lifecycle \<Rightarrow> 'j lifecycle option" where
  "scheduler_take s =
     (case lc_scheduled s of
        [] \<Rightarrow> None
      | (t, j) # rest \<Rightarrow>
          Some (s\<lparr>lc_scheduled := rest, lc_sequence := lc_sequence s + 1,
                  lc_pending := heap_push \<lparr>sj_readyAt = t, sj_sequence = lc_sequence s + 1, sj_job = j\<rparr>
                    (lc_pending s)\<rparr>))"

text \<open>
  \<open>schedule\<close>: receive a delayed job, promote the first when its time has come, or begin to drain.
\<close>

definition schedule_receive :: "'j lifecycle \<Rightarrow> 'j lifecycle option" where
  "schedule_receive s = (if lc_scheduler s = Selecting then scheduler_take s else None)"

definition schedule_timer :: "instant \<Rightarrow> 'j lifecycle \<Rightarrow> 'j lifecycle option" where
  "schedule_timer now s =
     (if lc_scheduler s = Selecting then
        (case lc_pending s of
           [] \<Rightarrow> None
         | x # rest \<Rightarrow>
             if sj_readyAt x \<le> now
             then Some (s\<lparr>lc_pending := rest, lc_scheduler := Promoting False (sj_job x)\<rparr>)
             else None)
      else None)"

definition schedule_stop :: "'j lifecycle \<Rightarrow> 'j lifecycle option" where
  "schedule_stop s =
     (if lc_scheduler s = Selecting \<and> lc_scheduleStop s then Some (s\<lparr>lc_scheduler := Draining\<rparr>) else None)"

text \<open>\<open>drainScheduledJobs\<close>, and the exit of \<open>schedule\<close>.\<close>

definition drainScheduledJobs :: "'j lifecycle \<Rightarrow> 'j lifecycle option" where
  "drainScheduledJobs s =
     (case lc_scheduler s of
        Draining \<Rightarrow>
          (case lc_scheduled s of [] \<Rightarrow> Some (s\<lparr>lc_scheduler := Emptying\<rparr>) | _ # _ \<Rightarrow> scheduler_take s)
      | Emptying \<Rightarrow>
          (case lc_pending s of
             [] \<Rightarrow>
               if lc_scheduleDone s then Some (s\<lparr>lc_panicked := True\<rparr>)
               else Some (s\<lparr>lc_scheduler := SchedulerExited, lc_scheduleDone := True\<rparr>)
           | x # rest \<Rightarrow> Some (s\<lparr>lc_pending := rest, lc_scheduler := Promoting True (sj_job x)\<rparr>))
      | _ \<Rightarrow> None)"

text \<open>\<open>promoteScheduledJob\<close>: send the job, then give its slot back.\<close>

definition promoteScheduledJob :: "'j lifecycle \<Rightarrow> 'j lifecycle option" where
  "promoteScheduledJob s =
     (case lc_scheduler s of
        Promoting b j \<Rightarrow> map_option (\<lambda>s'. s'\<lparr>lc_scheduler := Releasing b\<rparr>) (send_job j s)
      | Releasing b \<Rightarrow>
          if 0 < lc_delayedSlots s
          then Some (s\<lparr>lc_delayedSlots := lc_delayedSlots s - 1,
                       lc_scheduler := (if b then Emptying else Selecting)\<rparr>)
          else None
      | _ \<Rightarrow> None)"

text \<open>
  A worker: \<open>work\<close> ranges over the channel of jobs; \<open>workPersistent\<close> takes a job from
  the store, \<open>reserved\<close>, until its context is cancelled, which happens when \<open>stopping\<close>
  is closed; the store refuses a context that is done.
\<close>

definition worker_take :: "nat \<Rightarrow> 'j option \<Rightarrow> 'j lifecycle \<Rightarrow> 'j lifecycle option" where
  "worker_take w reserved s =
     (if w < length (lc_workers s) then
        (if lc_workers s ! w \<noteq> Waiting then None
         else if lc_store s then
           (if lc_stopping s then Some (s\<lparr>lc_workers := (lc_workers s)[w := Exited]\<rparr>)
            else map_option (\<lambda>j. s\<lparr>lc_workers := (lc_workers s)[w := Working j]\<rparr>) reserved)
         else
           (case lc_jobs s of
              j # rest \<Rightarrow> Some (s\<lparr>lc_jobs := rest, lc_workers := (lc_workers s)[w := Working j]\<rparr>)
            | [] \<Rightarrow> if lc_jobsClosed s then Some (s\<lparr>lc_workers := (lc_workers s)[w := Exited]\<rparr>) else None))
      else None)"

definition worker_finish :: "nat \<Rightarrow> 'j lifecycle \<Rightarrow> 'j lifecycle option" where
  "worker_finish w s =
     (if w < length (lc_workers s) then
        (case lc_workers s ! w of
           Working j \<Rightarrow>
             Some (s\<lparr>lc_workers := (lc_workers s)[w := Waiting], lc_executed := lc_executed s @ [j]\<rparr>)
         | _ \<Rightarrow> None)
      else None)"

text \<open>
  \<open>Shutdown\<close> up to releasing the mutex, with what its caller does next: return, or wait for
  \<open>shutdownDone\<close>.
\<close>

datatype shutdown_outcome = ShutdownReturns "queue_error option" | ShutdownWaits

definition Shutdown :: "go_context \<Rightarrow> 'j lifecycle \<Rightarrow> 'j lifecycle \<times> shutdown_outcome" where
  "Shutdown ctx s =
     (if ctx = NilContext then (s, ShutdownReturns (Some ErrQueueContextUnavailable))
      else case lc_state s of
        jobQueueStopped \<Rightarrow> (s, ShutdownReturns None)
      | jobQueueStopping \<Rightarrow> (s, ShutdownWaits)
      | jobQueueCollecting \<Rightarrow>
          (case ctx_err ctx of
             Some e \<Rightarrow> (s, ShutdownReturns (Some (ErrQueueContext e)))
           | None \<Rightarrow>
               if lc_stopping s \<or> lc_scheduleStop s \<or> lc_scheduleDone s \<or> lc_jobsClosed s \<or> lc_shutdownDone s
               then (s\<lparr>lc_panicked := True\<rparr>, ShutdownReturns None)
               else (s\<lparr>lc_state := jobQueueStopped, lc_stopping := True, lc_scheduleStop := True,
                       lc_scheduleDone := True, lc_jobsClosed := True, lc_shutdownDone := True,
                       lc_finisher := ShutdownComplete\<rparr>, ShutdownReturns None))
      | jobQueueRunning \<Rightarrow>
          (case ctx_err ctx of
             Some e \<Rightarrow> (s, ShutdownReturns (Some (ErrQueueContext e)))
           | None \<Rightarrow>
               if lc_stopping s then (s\<lparr>lc_panicked := True\<rparr>, ShutdownReturns None)
               else (s\<lparr>lc_state := jobQueueStopping, lc_stopping := True, lc_finisher := WaitDispatches\<rparr>,
                     ShutdownWaits)))"

text \<open>The rest of \<open>Shutdown\<close>: wait for the dispatches in flight, then stop the scheduler.\<close>

definition shutdown_dispatches_done :: "'j lifecycle \<Rightarrow> 'j lifecycle option" where
  "shutdown_dispatches_done s =
     (if lc_finisher s = WaitDispatches \<and> lc_dispatches s = [] then
        (if lc_store s then Some (s\<lparr>lc_finisher := WaitWorkers\<rparr>)
         else if lc_scheduleStop s then Some (s\<lparr>lc_panicked := True\<rparr>)
         else Some (s\<lparr>lc_scheduleStop := True, lc_finisher := WaitScheduler\<rparr>))
      else None)"

text \<open>
  \<open>finishShutdown\<close>, whose end is that of \<open>finishPersistentShutdown\<close>: both wait for the
  workers and declare the queue stopped.
\<close>

definition finishPersistentShutdown :: "'j lifecycle \<Rightarrow> 'j lifecycle option" where
  "finishPersistentShutdown s =
     (if list_all (\<lambda>w. w = Exited) (lc_workers s) then
        (if lc_shutdownDone s then Some (s\<lparr>lc_panicked := True\<rparr>)
         else Some (s\<lparr>lc_state := jobQueueStopped, lc_shutdownDone := True, lc_finisher := ShutdownComplete\<rparr>))
      else None)"

definition finishShutdown :: "'j lifecycle \<Rightarrow> 'j lifecycle option" where
  "finishShutdown s =
     (case lc_finisher s of
        WaitScheduler \<Rightarrow>
          if lc_scheduleDone s then
            (if lc_jobsClosed s then Some (s\<lparr>lc_panicked := True\<rparr>)
             else Some (s\<lparr>lc_jobsClosed := True, lc_finisher := WaitWorkers\<rparr>))
          else None
      | WaitWorkers \<Rightarrow> finishPersistentShutdown s
      | _ \<Rightarrow> None)"

definition Running :: "'j lifecycle option \<Rightarrow> bool" where
  "Running q = (case q of None \<Rightarrow> False | Some s \<Rightarrow> lc_state s = jobQueueRunning)"

definition Stopped :: "'j lifecycle option \<Rightarrow> bool" where
  "Stopped q = (case q of None \<Rightarrow> False | Some s \<Rightarrow> lc_state s = jobQueueStopped)"

text \<open>All steps.\<close>

datatype 'j action =
    DoStart | DoDispatch "instant option" 'j | DoShutdown go_context
  | DoSend nat | DoAbort nat bool
  | DoReceive | DoTimer instant | DoStop | DoDrain | DoPromote
  | DoTake nat "'j option" | DoFinish nat
  | DoDispatchesDone | DoFinishShutdown

fun act :: "'j action \<Rightarrow> 'j lifecycle \<Rightarrow> 'j lifecycle option" where
  "act DoStart s = Some (fst (Start s))"
| "act (DoDispatch when j) s = dispatch_begin when j s"
| "act (DoShutdown ctx) s = Some (fst (Shutdown ctx s))"
| "act (DoSend i) s = dispatch_send i s"
| "act (DoAbort i c) s = dispatch_abort i c s"
| "act DoReceive s = schedule_receive s"
| "act (DoTimer now) s = schedule_timer now s"
| "act DoStop s = schedule_stop s"
| "act DoDrain s = drainScheduledJobs s"
| "act DoPromote s = promoteScheduledJob s"
| "act (DoTake w r) s = worker_take w r s"
| "act (DoFinish w) s = worker_finish w s"
| "act DoDispatchesDone s = shutdown_dispatches_done s"
| "act DoFinishShutdown s = finishShutdown s"

inductive reachable :: "'j lifecycle \<Rightarrow> bool" where
  new: "0 < capacity \<Longrightarrow> 0 < workers \<Longrightarrow> reachable (new_lifecycle capacity workers store)"
| act: "reachable s \<Longrightarrow> act a s = Some s' \<Longrightarrow> reachable s'"

lemmas step_defs = Start_def dispatch_begin_def dispatch_send_def send_job_def dispatch_abort_def scheduler_take_def
  schedule_receive_def schedule_timer_def schedule_stop_def drainScheduledJobs_def promoteScheduledJob_def
  worker_take_def worker_finish_def Shutdown_def shutdown_dispatches_done_def finishShutdown_def finishPersistentShutdown_def

lemmas step_splits = if_splits option.splits list.splits dispatch.splits worker.splits scheduler.splits
  finisher.splits jobQueueState.splits prod.splits

section \<open>The stages of a queue's life\<close>

text \<open>The scheduler has been told to stop.\<close>

definition draining :: "'j scheduler \<Rightarrow> bool" where
  "draining c =
     (case c of
        Promoting b j \<Rightarrow> b | Releasing b \<Rightarrow> b | Draining \<Rightarrow> True | Emptying \<Rightarrow> True | SchedulerExited \<Rightarrow> True
      | _ \<Rightarrow> False)"

text \<open>Which channels are closed and who may still act, at each stage of the shutdown.\<close>

definition stage_inv :: "'j lifecycle \<Rightarrow> bool" where
  "stage_inv s =
     (\<not> lc_panicked s \<and> 0 < lc_workerCount s \<and> 0 < lc_capacity s \<and>
      (lc_store s \<longrightarrow> lc_scheduler s = SchedulerOff) \<and>
      (case lc_finisher s of
         NoShutdown \<Rightarrow>
           \<not> lc_stopping s \<and> \<not> lc_scheduleStop s \<and> \<not> lc_jobsClosed s \<and> \<not> lc_shutdownDone s \<and> \<not> lc_scheduleDone s \<and>
           \<not> draining (lc_scheduler s) \<and>
           (if lc_workers s = []
            then lc_state s = jobQueueCollecting \<and> lc_dispatches s = [] \<and> lc_scheduler s = SchedulerOff
            else lc_state s = jobQueueRunning \<and> (lc_scheduler s = SchedulerOff \<longrightarrow> lc_store s))
       | WaitDispatches \<Rightarrow>
           lc_state s = jobQueueStopping \<and> lc_stopping s \<and> \<not> lc_scheduleStop s \<and> \<not> lc_jobsClosed s \<and>
           \<not> lc_shutdownDone s \<and> \<not> lc_scheduleDone s \<and> \<not> draining (lc_scheduler s) \<and>
           lc_workers s \<noteq> [] \<and> (lc_scheduler s = SchedulerOff \<longrightarrow> lc_store s)
       | WaitScheduler \<Rightarrow>
           \<not> lc_store s \<and> lc_state s = jobQueueStopping \<and> lc_stopping s \<and> lc_scheduleStop s \<and> \<not> lc_jobsClosed s \<and>
           \<not> lc_shutdownDone s \<and> (lc_scheduleDone s \<longleftrightarrow> lc_scheduler s = SchedulerExited) \<and>
           lc_scheduler s \<noteq> SchedulerOff \<and> lc_dispatches s = [] \<and> lc_workers s \<noteq> []
       | WaitWorkers \<Rightarrow>
           lc_state s = jobQueueStopping \<and> lc_stopping s \<and> \<not> lc_shutdownDone s \<and> lc_dispatches s = [] \<and>
           lc_workers s \<noteq> [] \<and> (if lc_store s then True else lc_jobsClosed s \<and> lc_scheduler s = SchedulerExited)
       | ShutdownComplete \<Rightarrow>
           lc_state s = jobQueueStopped \<and> lc_stopping s \<and> lc_shutdownDone s \<and> lc_dispatches s = [] \<and>
           (if lc_store s \<or> lc_workers s = [] then lc_scheduler s = SchedulerOff
            else lc_jobsClosed s \<and> lc_scheduler s = SchedulerExited)))"

lemma draining_simps [simp]:
  "\<not> draining SchedulerOff" "\<not> draining Selecting" "draining Draining" "draining Emptying"
  "draining (Promoting b j) = b" "draining (Releasing b) = b" "draining SchedulerExited"
  by (simp_all add: draining_def)

lemma stage_new: "0 < capacity \<Longrightarrow> 0 < workers \<Longrightarrow> stage_inv (new_lifecycle capacity workers store)"
  by (simp add: stage_inv_def new_lifecycle_def)

lemmas stage_splits = if_splits finisher.splits

lemma stage_Start: "stage_inv s \<Longrightarrow> stage_inv (fst (Start s))"
  by (cases "lc_state s") (simp_all add: Start_def stage_inv_def split: stage_splits)

lemma stage_Shutdown: "stage_inv s \<Longrightarrow> stage_inv (fst (Shutdown ctx s))"
  by (cases "lc_state s"; cases ctx)
    (simp_all add: Shutdown_def stage_inv_def split: stage_splits)

lemma stage_dispatch_begin: "stage_inv s \<Longrightarrow> dispatch_begin w j s = Some s' \<Longrightarrow> stage_inv s'"
  by (clarsimp simp: dispatch_begin_def split: if_splits; simp add: stage_inv_def split: stage_splits)

lemma stage_dispatch_abort: "stage_inv s \<Longrightarrow> dispatch_abort i c s = Some s' \<Longrightarrow> stage_inv s'"
  by (clarsimp simp: dispatch_abort_def split: if_splits dispatch.splits; simp add: stage_inv_def split: stage_splits)

lemma stage_dispatch_send: "stage_inv s \<Longrightarrow> dispatch_send i s = Some s' \<Longrightarrow> stage_inv s'"
  by (clarsimp simp: dispatch_send_def send_job_def split: if_splits dispatch.splits;
      simp add: stage_inv_def split: stage_splits)

lemma stage_schedule_receive: "stage_inv s \<Longrightarrow> schedule_receive s = Some s' \<Longrightarrow> stage_inv s'"
  by (clarsimp simp: schedule_receive_def scheduler_take_def split: if_splits list.splits;
      simp add: stage_inv_def split: stage_splits)

lemma stage_schedule_timer: "stage_inv s \<Longrightarrow> schedule_timer now s = Some s' \<Longrightarrow> stage_inv s'"
  by (clarsimp simp: schedule_timer_def scheduler_take_def split: if_splits list.splits;
      simp add: stage_inv_def split: stage_splits)

lemma stage_schedule_stop: "stage_inv s \<Longrightarrow> schedule_stop s = Some s' \<Longrightarrow> stage_inv s'"
  by (clarsimp simp: schedule_stop_def split: if_splits; simp add: stage_inv_def split: stage_splits)

lemma stage_drain: "stage_inv s \<Longrightarrow> drainScheduledJobs s = Some s' \<Longrightarrow> stage_inv s'"
  by (clarsimp simp: drainScheduledJobs_def scheduler_take_def split: if_splits list.splits scheduler.splits;
      simp add: stage_inv_def split: stage_splits)

lemma stage_promote: "stage_inv s \<Longrightarrow> promoteScheduledJob s = Some s' \<Longrightarrow> stage_inv s'"
  by (clarsimp simp: promoteScheduledJob_def send_job_def split: if_splits scheduler.splits;
      simp add: stage_inv_def split: stage_splits)

lemma stage_worker_take: "stage_inv s \<Longrightarrow> worker_take w r s = Some s' \<Longrightarrow> stage_inv s'"
  by (clarsimp simp: worker_take_def split: if_splits list.splits; simp add: stage_inv_def split: stage_splits)

lemma stage_worker_finish: "stage_inv s \<Longrightarrow> worker_finish w s = Some s' \<Longrightarrow> stage_inv s'"
  by (clarsimp simp: worker_finish_def split: if_splits worker.splits; simp add: stage_inv_def split: stage_splits)

lemma stage_dispatches_done: "stage_inv s \<Longrightarrow> shutdown_dispatches_done s = Some s' \<Longrightarrow> stage_inv s'"
  by (clarsimp simp: shutdown_dispatches_done_def split: if_splits; simp add: stage_inv_def split: stage_splits; auto)

lemma stage_finishShutdown: "stage_inv s \<Longrightarrow> finishShutdown s = Some s' \<Longrightarrow> stage_inv s'"
  by (clarsimp simp: finishShutdown_def finishPersistentShutdown_def split: if_splits finisher.splits; simp add: stage_inv_def split: stage_splits)

lemmas stage_steps = stage_dispatch_begin stage_dispatch_send stage_dispatch_abort stage_schedule_receive
  stage_schedule_timer stage_schedule_stop stage_drain stage_promote stage_worker_take stage_worker_finish
  stage_dispatches_done stage_finishShutdown

lemma stage_act: "stage_inv s \<Longrightarrow> act a s = Some s' \<Longrightarrow> stage_inv s'"
  by (cases a) (auto simp: stage_Start stage_Shutdown intro: stage_steps)

text \<open>While a dispatch is in flight or the scheduler has a job in hand, the channel of jobs is open.\<close>

lemma stage_dispatch_live:
  "stage_inv s \<Longrightarrow> lc_dispatches s \<noteq> [] \<Longrightarrow> \<not> lc_jobsClosed s \<and> \<not> draining (lc_scheduler s) \<and> lc_workers s \<noteq> []"
  by (simp add: stage_inv_def split: stage_splits)

lemma stage_promoting_live:
  "stage_inv s \<Longrightarrow> lc_scheduler s \<noteq> SchedulerOff \<Longrightarrow> lc_scheduler s \<noteq> SchedulerExited \<Longrightarrow>
     \<not> lc_jobsClosed s \<and> \<not> lc_scheduleDone s \<and> lc_workers s \<noteq> [] \<and> \<not> lc_store s"
  by (auto simp: stage_inv_def split: stage_splits)

section \<open>Slots for delayed jobs\<close>

definition holders :: "'j dispatch list \<Rightarrow> nat" where
  "holders ds = length (filter (\<lambda>d. case d of HasSlot t j \<Rightarrow> True | _ \<Rightarrow> False) ds)"

definition slot_in_hand :: "'j scheduler \<Rightarrow> nat" where
  "slot_in_hand c = (case c of Promoting b j \<Rightarrow> 1 | Releasing b \<Rightarrow> 1 | _ \<Rightarrow> 0)"

definition slot_inv :: "'j lifecycle \<Rightarrow> bool" where
  "slot_inv s =
     (lc_delayedSlots s =
        holders (lc_dispatches s) + length (lc_scheduled s) + length (lc_pending s) + slot_in_hand (lc_scheduler s) \<and>
      lc_delayedSlots s \<le> lc_capacity s \<and> length (lc_jobs s) \<le> lc_capacity s)"

lemma holders_snoc [simp]: "holders (ds @ [d]) = holders ds + holders [d]"
  by (simp add: holders_def)

lemma holders_simps [simp]: "holders [] = 0" "holders [Sending j] = 0" "holders [WantSlot t j] = 0"
  "holders [HasSlot t j] = 1" "holders [Persisting j] = 0"
  by (simp_all add: holders_def)

lemma holders_drop_at: "i < length ds \<Longrightarrow> holders ds = holders (drop_at i ds) + holders [ds ! i]"
  by (subst id_take_nth_drop [of i ds]) (simp_all add: holders_def drop_at_def)

lemma holders_update:
  "i < length ds \<Longrightarrow> holders (ds[i := d]) + holders [ds ! i] = holders ds + holders [d]"
  by (subst (2) id_take_nth_drop [of i ds]) (simp_all add: holders_def upd_conv_take_nth_drop)

lemma slot_in_hand_simps [simp]: "slot_in_hand SchedulerOff = 0" "slot_in_hand Selecting = 0"
  "slot_in_hand Draining = 0" "slot_in_hand Emptying = 0" "slot_in_hand (Promoting b j) = 1"
  "slot_in_hand (Releasing b) = 1" "slot_in_hand SchedulerExited = 0"
  by (simp_all add: slot_in_hand_def)

lemma length_heap_push [simp]: "length (heap_push x ys) = Suc (length ys)"
  by (induction ys) auto

lemma slot_act:
  assumes "stage_inv s" "slot_inv s" "act a s = Some s'"
  shows "slot_inv s'"
proof (cases a)
  case (DoSend i)
  with assms(2,3) show ?thesis
    using holders_drop_at [of i "lc_dispatches s"] holders_update [of i "lc_dispatches s"]
    by (auto simp: slot_inv_def dispatch_send_def send_job_def split: if_splits dispatch.splits)
next
  case (DoAbort i c)
  with assms(2,3) holders_drop_at [of i "lc_dispatches s"] show ?thesis
    by (auto simp: slot_inv_def dispatch_abort_def split: if_splits dispatch.splits)
next
  case (DoShutdown ctx)
  with assms(2,3) show ?thesis
    by (cases "lc_state s"; cases ctx) (auto simp: slot_inv_def Shutdown_def)
next
  case DoStart
  with assms show ?thesis
    by (cases "lc_state s") (auto simp: slot_inv_def Start_def stage_inv_def split: stage_splits)
qed (use assms(2,3) in \<open>auto simp: slot_inv_def step_defs split: if_splits list.splits scheduler.splits worker.splits
  finisher.splits option.splits\<close>)

section \<open>No accepted job is lost or run twice\<close>

definition in_scheduler :: "'j scheduler \<Rightarrow> 'j multiset" where
  "in_scheduler c = (case c of Promoting b j \<Rightarrow> {#j#} | _ \<Rightarrow> {#})"

definition in_worker :: "'j worker \<Rightarrow> 'j multiset" where
  "in_worker w = (case w of Working j \<Rightarrow> {#j#} | _ \<Rightarrow> {#})"

text \<open>The jobs between an accepted dispatch and the end of their execution.\<close>

definition in_flight :: "'j lifecycle \<Rightarrow> 'j multiset" where
  "in_flight s =
     mset (lc_jobs s) + mset (map snd (lc_scheduled s)) + mset (map sj_job (lc_pending s)) +
     in_scheduler (lc_scheduler s) + sum_list (map in_worker (lc_workers s))"

definition flow_inv :: "'j lifecycle \<Rightarrow> bool" where
  "flow_inv s =
     ((\<not> lc_store s \<longrightarrow> mset (lc_accepted s) = mset (lc_executed s) + in_flight s) \<and>
      (lc_workers s = [] \<longrightarrow> lc_accepted s = [] \<and> lc_executed s = []))"

lemma in_scheduler_simps [simp]: "in_scheduler SchedulerOff = {#}" "in_scheduler Selecting = {#}"
  "in_scheduler Draining = {#}" "in_scheduler Emptying = {#}" "in_scheduler (Promoting b j) = {#j#}"
  "in_scheduler (Releasing b) = {#}" "in_scheduler SchedulerExited = {#}"
  by (simp_all add: in_scheduler_def)

lemma in_worker_simps [simp]: "in_worker Waiting = {#}" "in_worker (Working j) = {#j#}" "in_worker Exited = {#}"
  by (simp_all add: in_worker_def)

lemma mset_heap_push [simp]: "mset (heap_push x ys) = add_mset x (mset ys)"
  by (induction ys) auto

lemma sum_list_none: "sum_list (replicate n {#}) = {#}"
  by (induction n) simp_all

lemma sum_list_in_worker_update:
  assumes "i < length ws"
  shows "sum_list (map in_worker (ws[i := w])) + in_worker (ws ! i) = sum_list (map in_worker ws) + in_worker w"
proof -
  have "sum_list (map in_worker ws) = sum_list (map in_worker (take i ws @ ws ! i # drop (Suc i) ws))"
    using id_take_nth_drop [OF assms] by simp
  then show ?thesis by (simp add: upd_conv_take_nth_drop [OF assms] ac_simps)
qed

lemma flow_new: "flow_inv (new_lifecycle c w st)"
  by (simp add: flow_inv_def in_flight_def new_lifecycle_def)

lemma flow_Start: "stage_inv s \<Longrightarrow> flow_inv s \<Longrightarrow> flow_inv (fst (Start s))"
  by (cases "lc_state s")
    (simp_all add: Start_def flow_inv_def in_flight_def stage_inv_def sum_list_none split: stage_splits)

lemma flow_Shutdown: "flow_inv s \<Longrightarrow> flow_inv (fst (Shutdown ctx s))"
  by (cases "lc_state s"; cases ctx) (simp_all add: Shutdown_def flow_inv_def in_flight_def)

lemma flow_dispatch_send:
  assumes "stage_inv s" "flow_inv s" "dispatch_send i s = Some s'"
  shows "flow_inv s'"
proof -
  have "i < length (lc_dispatches s)" using assms(3) by (simp add: dispatch_send_def split: if_splits)
  then have "\<not> lc_jobsClosed s" "lc_workers s \<noteq> []" using stage_dispatch_live [OF assms(1)] by force+
  with assms(2,3) show ?thesis
    by (auto simp: flow_inv_def in_flight_def dispatch_send_def send_job_def split: if_splits dispatch.splits)
qed

lemma flow_scheduler:
  assumes "stage_inv s" "flow_inv s"
  shows "schedule_receive s = Some s' \<Longrightarrow> flow_inv s'" "schedule_timer now s = Some s' \<Longrightarrow> flow_inv s'"
    "schedule_stop s = Some s' \<Longrightarrow> flow_inv s'" "drainScheduledJobs s = Some s' \<Longrightarrow> flow_inv s'"
    "promoteScheduledJob s = Some s' \<Longrightarrow> flow_inv s'"
  using assms stage_promoting_live [OF assms(1)]
  by (auto simp: schedule_receive_def schedule_timer_def schedule_stop_def drainScheduledJobs_def scheduler_take_def
      promoteScheduledJob_def send_job_def flow_inv_def in_flight_def split: if_splits list.splits scheduler.splits)

lemma flow_worker:
  assumes "flow_inv s"
  shows "worker_take w r s = Some s' \<Longrightarrow> flow_inv s'" "worker_finish w s = Some s' \<Longrightarrow> flow_inv s'"
  using assms sum_list_in_worker_update [of w "lc_workers s"]
  by (auto simp: worker_take_def worker_finish_def flow_inv_def in_flight_def
      split: if_splits list.splits worker.splits)

lemma flow_others:
  assumes "flow_inv s"
  shows "dispatch_begin when j s = Some s' \<Longrightarrow> flow_inv s'" "dispatch_abort i c s = Some s' \<Longrightarrow> flow_inv s'"
    "shutdown_dispatches_done s = Some s' \<Longrightarrow> flow_inv s'" "finishShutdown s = Some s' \<Longrightarrow> flow_inv s'"
  using assms
  by (auto simp: dispatch_begin_def dispatch_abort_def shutdown_dispatches_done_def finishShutdown_def finishPersistentShutdown_def flow_inv_def
      in_flight_def split: if_splits dispatch.splits finisher.splits)

lemma flow_act:
  assumes "stage_inv s" "flow_inv s" "act a s = Some s'"
  shows "flow_inv s'"
  using assms(3) flow_Start [OF assms(1,2)] flow_Shutdown [OF assms(2)] flow_dispatch_send [OF assms(1,2)]
    flow_scheduler [OF assms(1,2)] flow_worker [OF assms(2)] flow_others [OF assms(2)]
  by (cases a) auto

section \<open>What has ended stays ended\<close>

definition drained :: "'j scheduler \<Rightarrow> bool" where
  "drained c =
     (case c of Promoting b j \<Rightarrow> b | Releasing b \<Rightarrow> b | Emptying \<Rightarrow> True | SchedulerExited \<Rightarrow> True | _ \<Rightarrow> False)"

lemma drained_simps [simp]:
  "\<not> drained SchedulerOff" "\<not> drained Selecting" "\<not> drained Draining" "drained Emptying"
  "drained (Promoting b j) = b" "drained (Releasing b) = b" "drained SchedulerExited"
  by (simp_all add: drained_def)

lemma drained_draining: "drained c \<Longrightarrow> draining c"
  by (cases c) simp_all

definition ended_inv :: "'j lifecycle \<Rightarrow> bool" where
  "ended_inv s =
     ((drained (lc_scheduler s) \<longrightarrow> lc_scheduled s = []) \<and>
      (lc_scheduler s = SchedulerExited \<longrightarrow> lc_pending s = []) \<and>
      (\<not> lc_store s \<and> Exited \<in> set (lc_workers s) \<longrightarrow> lc_jobs s = [] \<and> lc_jobsClosed s) \<and>
      (lc_finisher s = ShutdownComplete \<longrightarrow> set (lc_workers s) \<subseteq> {Exited}))"

lemma exited_update: "Exited \<in> set (ws[w := x]) \<Longrightarrow> x = Exited \<or> Exited \<in> set ws"
  using set_update_subset_insert [of ws w x] by auto

lemma ended_new: "ended_inv (new_lifecycle c w st)"
  by (simp add: ended_inv_def new_lifecycle_def)

lemma ended_Start: "stage_inv s \<Longrightarrow> ended_inv s \<Longrightarrow> ended_inv (fst (Start s))"
  by (cases "lc_state s") (simp_all add: Start_def ended_inv_def stage_inv_def split: stage_splits)

lemma ended_Shutdown: "stage_inv s \<Longrightarrow> ended_inv s \<Longrightarrow> ended_inv (fst (Shutdown ctx s))"
  by (cases "lc_state s"; cases ctx)
    (auto simp: Shutdown_def ended_inv_def stage_inv_def split: stage_splits)

lemma ended_dispatch_begin: "ended_inv s \<Longrightarrow> dispatch_begin when j s = Some s' \<Longrightarrow> ended_inv s'"
  by (clarsimp simp: dispatch_begin_def split: if_splits; simp add: ended_inv_def)

lemma ended_dispatch_abort: "ended_inv s \<Longrightarrow> dispatch_abort i c s = Some s' \<Longrightarrow> ended_inv s'"
  by (clarsimp simp: dispatch_abort_def split: if_splits dispatch.splits; simp add: ended_inv_def)

lemma ended_dispatch_send:
  assumes "stage_inv s" "ended_inv s" "dispatch_send i s = Some s'"
  shows "ended_inv s'"
proof -
  have "i < length (lc_dispatches s)" using assms(3) by (simp add: dispatch_send_def split: if_splits)
  then have "\<not> lc_jobsClosed s" "\<not> drained (lc_scheduler s)"
    using stage_dispatch_live [OF assms(1)] drained_draining by force+
  with assms(2,3) show ?thesis
    by (clarsimp simp: dispatch_send_def send_job_def split: if_splits dispatch.splits; simp add: ended_inv_def)
qed

lemma ended_scheduler:
  assumes "stage_inv s" "ended_inv s"
  shows "schedule_receive s = Some s' \<Longrightarrow> ended_inv s'" "schedule_timer now s = Some s' \<Longrightarrow> ended_inv s'"
    "schedule_stop s = Some s' \<Longrightarrow> ended_inv s'" "drainScheduledJobs s = Some s' \<Longrightarrow> ended_inv s'"
    "promoteScheduledJob s = Some s' \<Longrightarrow> ended_inv s'"
  using assms(2) stage_promoting_live [OF assms(1)]
  by (auto simp: schedule_receive_def schedule_timer_def schedule_stop_def drainScheduledJobs_def scheduler_take_def
      promoteScheduledJob_def send_job_def ended_inv_def split: if_splits list.splits scheduler.splits)

lemma ended_worker_take: "ended_inv s \<Longrightarrow> worker_take w r s = Some s' \<Longrightarrow> ended_inv s'"
  using nth_mem [of w "lc_workers s"]
  by (clarsimp simp: worker_take_def split: if_splits list.splits; simp add: ended_inv_def; blast dest: exited_update)

lemma ended_worker_finish: "ended_inv s \<Longrightarrow> worker_finish w s = Some s' \<Longrightarrow> ended_inv s'"
  using nth_mem [of w "lc_workers s"]
  by (clarsimp simp: worker_finish_def split: if_splits worker.splits; simp add: ended_inv_def; blast dest: exited_update)

lemma ended_dispatches_done: "ended_inv s \<Longrightarrow> shutdown_dispatches_done s = Some s' \<Longrightarrow> ended_inv s'"
  by (clarsimp simp: shutdown_dispatches_done_def split: if_splits; simp add: ended_inv_def)

lemma ended_finishShutdown: "ended_inv s \<Longrightarrow> finishShutdown s = Some s' \<Longrightarrow> ended_inv s'"
  by (clarsimp simp: finishShutdown_def finishPersistentShutdown_def split: if_splits finisher.splits; simp add: ended_inv_def list_all_iff; blast)

lemma ended_act:
  assumes "stage_inv s" "ended_inv s" "act a s = Some s'"
  shows "ended_inv s'"
  using assms(3) ended_Start [OF assms(1,2)] ended_Shutdown [OF assms(1,2)] ended_dispatch_begin [OF assms(2)]
    ended_dispatch_abort [OF assms(2)] ended_dispatch_send [OF assms(1,2)] ended_scheduler [OF assms(1,2)]
    ended_worker_take [OF assms(2)] ended_worker_finish [OF assms(2)] ended_dispatches_done [OF assms(2)]
    ended_finishShutdown [OF assms(2)]
  by (cases a) auto

lemma reachable_inv: "reachable s \<Longrightarrow> stage_inv s \<and> slot_inv s \<and> flow_inv s \<and> ended_inv s"
proof (induction rule: reachable.induct)
  case (new capacity workers store)
  then show ?case
    by (simp add: stage_new flow_new ended_new) (simp add: slot_inv_def new_lifecycle_def)
next
  case (act s a s')
  then show ?case using stage_act slot_act flow_act ended_act by blast
qed

end
