(* ===== verification/JobQueueShutdown.thy ===== *)
theory JobQueueShutdown
  imports JobQueueLifecycle
begin

text \<open>
  What the goroutines of \<open>JobQueueLifecycle\<close> guarantee together: nothing panics, no accepted job
  is lost or run twice, delayed jobs are promoted in order, and a shutdown always completes. A bound
  on the steps left, \<open>work\<close>, shows that the shutdown ends, and a step that is always enabled shows
  that it does not hang.
\<close>

section \<open>The order of delayed jobs\<close>

definition order_inv :: "'j lifecycle \<Rightarrow> bool" where
  "order_inv s =
     (sorted_wrt scheduledJob_less (lc_pending s) \<and> (\<forall>x \<in> set (lc_pending s). sj_sequence x \<le> lc_sequence s))"

lemma scheduledJob_less_trans: "scheduledJob_less a b \<Longrightarrow> scheduledJob_less b c \<Longrightarrow> scheduledJob_less a c"
  by (auto simp: scheduledJob_less_def split: if_splits)

lemma set_heap_push [simp]: "set (heap_push x ys) = insert x (set ys)"
  by (metis mset_heap_push set_mset_add_mset_insert set_mset_mset)

lemma sorted_heap_push:
  assumes "sorted_wrt scheduledJob_less ys" "\<forall>y \<in> set ys. sj_sequence y < sj_sequence x"
  shows "sorted_wrt scheduledJob_less (heap_push x ys)"
  using assms
proof (induction ys)
  case (Cons y ys)
  then show ?case
    by (auto simp: scheduledJob_less_def split: if_splits)
qed simp

lemma order_scheduler_take: "order_inv s \<Longrightarrow> scheduler_take s = Some s' \<Longrightarrow> order_inv s'"
  by (auto simp: scheduler_take_def order_inv_def le_Suc_eq less_Suc_eq_le intro!: sorted_heap_push
      split: list.splits)

lemma order_scheduler:
  assumes "order_inv s"
  shows "schedule_receive s = Some s' \<Longrightarrow> order_inv s'" "schedule_timer now s = Some s' \<Longrightarrow> order_inv s'"
    "schedule_stop s = Some s' \<Longrightarrow> order_inv s'" "drainScheduledJobs s = Some s' \<Longrightarrow> order_inv s'"
    "promoteScheduledJob s = Some s' \<Longrightarrow> order_inv s'"
  using assms order_scheduler_take [OF assms]
  by (auto simp: schedule_receive_def schedule_timer_def schedule_stop_def drainScheduledJobs_def
      promoteScheduledJob_def send_job_def split: if_splits list.splits scheduler.splits)
    (auto simp: order_inv_def)

lemma act_frame:
  assumes "act a s = Some s'" "a \<notin> {DoReceive, DoStop, DoDrain, DoPromote}" "\<And>now. a \<noteq> DoTimer now"
  shows "lc_pending s' = lc_pending s \<and> lc_sequence s' = lc_sequence s"
  using assms
  by (cases a)
    (auto simp: Start_def Shutdown_def dispatch_begin_def dispatch_send_def send_job_def dispatch_abort_def worker_take_def
      worker_finish_def shutdown_dispatches_done_def finishShutdown_def finishPersistentShutdown_def
      split: if_splits dispatch.splits list.splits worker.splits finisher.splits jobQueueState.splits option.splits)

lemma order_act:
  assumes "order_inv s" "act a s = Some s'"
  shows "order_inv s'"
proof (cases "a \<in> {DoReceive, DoStop, DoDrain, DoPromote} \<or> (\<exists>now. a = DoTimer now)")
  case True
  with assms order_scheduler [OF assms(1)] show ?thesis by auto
next
  case False
  with assms act_frame [OF assms(2)] show ?thesis by (auto simp: order_inv_def)
qed

lemma reachable_order: "reachable s \<Longrightarrow> order_inv s"
  by (induction rule: reachable.induct) (simp add: order_inv_def new_lifecycle_def, blast intro: order_act)

section \<open>Shutting down\<close>


fun run :: "'j action list \<Rightarrow> 'j lifecycle \<Rightarrow> 'j lifecycle option" where
  "run [] s = Some s"
| "run (a # as) s = Option.bind (act a s) (run as)"
















lemma holder_can_send:
  assumes "stage_inv s" "slot_inv s" "i < length (lc_dispatches s)" "lc_dispatches s ! i = HasSlot t j"
  shows "\<exists>s'. act (DoSend i) s = Some s'"
proof -
  have "0 < holders (lc_dispatches s)" using holders_drop_at [OF assms(3)] assms(4) by simp
  then have "length (lc_scheduled s) < lc_capacity s" using assms(2) by (simp add: slot_inv_def)
  with assms(3,4) show ?thesis by (simp add: dispatch_send_def)
qed








section \<open>Properties of the queue\<close>

text \<open>A queue of one place and one worker: two jobs, one of them delayed, and a shutdown.\<close>

definition sample_run :: "nat action list" where
  "sample_run =
     [DoStart, DoDispatch None 1, DoSend 0, DoDispatch (Some 50) 2, DoSend 0, DoSend 0, DoShutdown LiveContext,
      DoReceive, DoTake 0 None, DoDispatchesDone, DoStop, DoDrain, DoDrain, DoFinish 0, DoPromote, DoPromote,
      DoTake 0 None, DoDrain, DoFinish 0, DoFinishShutdown, DoTake 0 None, DoFinishShutdown]"

lemma reachable_run: "reachable s \<Longrightarrow> run as s = Some s' \<Longrightarrow> reachable s'"
proof (induction as arbitrary: s)
  case (Cons a as)
  then obtain s1 where s1: "act a s = Some s1" "run as s1 = Some s'" by (cases "act a s") auto
  with Cons.IH [OF reachable.act [OF Cons.prems(1) s1(1)]] show ?case by simp
qed simp

lemma sample_new: "reachable (new_lifecycle 1 1 False :: nat lifecycle)"
  by (rule reachable.new) simp_all

lemma sample_run_result:
  "map_option (\<lambda>s. (lc_state s, lc_store s, lc_accepted s, lc_executed s)) (run sample_run (new_lifecycle 1 1 False)) =
     Some (jobQueueStopped, False, [1, 2], [1, 2])"
  by code_simp

lemma no_worker_jobs: "set ws \<subseteq> {Exited} \<Longrightarrow> sum_list (map in_worker ws) = {#}"
  by (induction ws) auto

text \<open>
  C12. However dispatches, timers, workers and shutdowns interleave, the queue never sends on a closed
  channel and never closes a channel twice.
\<close>

theorem queue_never_panics:
  assumes "reachable s"
  shows "\<not> lc_panicked s"
  using reachable_inv [OF assms] by (simp add: stage_inv_def)

theorem queue_never_panics_witness:
  "\<exists>s. run sample_run (new_lifecycle 1 1 False) = Some s \<and> \<not> lc_panicked s"
proof -
  obtain s where s: "run sample_run (new_lifecycle 1 1 False) = Some s" using sample_run_result by auto
  with queue_never_panics [OF reachable_run [OF sample_new s]] show ?thesis by blast
qed

text \<open>
  C13. Every accepted in-memory job is executed exactly once: once the queue has stopped, the jobs
  executed are the jobs whose dispatch returned nil, delayed ones included, with the same
  multiplicities.
\<close>

theorem stopped_queue_executed_all:
  assumes "reachable s" "\<not> lc_store s" "lc_state s = jobQueueStopped"
  shows "mset (lc_executed s) = mset (lc_accepted s)"
proof -
  note inv = reachable_inv [OF assms(1)]
  then have fin: "lc_finisher s = ShutdownComplete" using assms(3) by (auto simp: stage_inv_def split: stage_splits)
  have ws: "lc_workers s = [] \<or> lc_jobs s = [] \<and> lc_scheduled s = [] \<and> lc_pending s = [] \<and> lc_scheduler s = SchedulerExited"
  proof (cases "lc_workers s")
    case (Cons w ws)
    then have "w = Exited" using inv fin by (auto simp: ended_inv_def)
    with Cons inv fin assms(2) show ?thesis by (simp add: ended_inv_def stage_inv_def)
  qed simp
  have "sum_list (map in_worker (lc_workers s)) = {#}"
    by (rule no_worker_jobs) (use inv fin in \<open>simp add: ended_inv_def\<close>)
  with ws inv assms(2) show ?thesis by (auto simp: flow_inv_def in_flight_def)
qed

theorem stopped_queue_executed_all_witness:
  "\<exists>s. run sample_run (new_lifecycle 1 1 False) = Some s \<and> lc_accepted s = [1, 2] \<and>
     mset (lc_executed s) = mset (lc_accepted s)"
proof -
  obtain s where s: "run sample_run (new_lifecycle 1 1 False) = Some s" "lc_accepted s = [1, 2]"
    "lc_state s = jobQueueStopped" "\<not> lc_store s"
    using sample_run_result by auto
  with stopped_queue_executed_all [OF reachable_run [OF sample_new s(1)]] show ?thesis by blast
qed



text \<open>
  C15. The delayed jobs in the queue never exceed its capacity, and a dispatch that has obtained its
  slot never blocks when it hands its job to the scheduler.
\<close>

theorem delayed_jobs_bounded:
  assumes "reachable s"
  shows "length (lc_scheduled s) + length (lc_pending s) \<le> lc_capacity s \<and>
    (\<forall>i t j. i < length (lc_dispatches s) \<and> lc_dispatches s ! i = HasSlot t j \<longrightarrow>
       (\<exists>s'. dispatch_send i s = Some s' \<and> lc_scheduled s' = lc_scheduled s @ [(t, j)]))"
proof -
  note inv = reachable_inv [OF assms]
  have "\<exists>s'. dispatch_send i s = Some s' \<and> lc_scheduled s' = lc_scheduled s @ [(t, j)]"
    if i: "i < length (lc_dispatches s)" "lc_dispatches s ! i = HasSlot t j" for i t j
    using holder_can_send [of s i t j] inv i by (auto simp: dispatch_send_def split: if_splits)
  with inv show ?thesis by (auto simp: slot_inv_def)
qed

theorem delayed_jobs_bounded_witness:
  "\<exists>s. run (take 5 sample_run) (new_lifecycle 1 1 False) = Some s \<and> lc_dispatches s = [HasSlot 50 2] \<and>
     length (lc_scheduled s) + length (lc_pending s) \<le> lc_capacity s \<and> (\<exists>s'. dispatch_send 0 s = Some s')"
proof -
  have "map_option lc_dispatches (run (take 5 sample_run) (new_lifecycle 1 1 False)) = Some [HasSlot 50 2]"
    by code_simp
  then obtain s where s: "run (take 5 sample_run) (new_lifecycle 1 1 False) = Some s" "lc_dispatches s = [HasSlot 50 2]"
    by auto
  with delayed_jobs_bounded [OF reachable_run [OF sample_new s(1)]] show ?thesis by force
qed

text \<open>
  The scheduler promotes a delayed job only when its time has come, and always one that no other
  waiting job precedes: the earliest ready time, and among equal times the first received.
\<close>

theorem promotes_earliest:
  assumes "reachable s" "schedule_timer now s = Some s'"
  shows "\<exists>x rest. lc_pending s = x # rest \<and> lc_pending s' = rest \<and> lc_scheduler s' = Promoting False (sj_job x) \<and>
    sj_readyAt x \<le> now \<and>
    (\<forall>y \<in> set rest. sj_readyAt x < sj_readyAt y \<or> sj_readyAt x = sj_readyAt y \<and> sj_sequence x < sj_sequence y)"
proof -
  obtain x rest where p: "lc_pending s = x # rest" "sj_readyAt x \<le> now"
    "s' = s\<lparr>lc_pending := rest, lc_scheduler := Promoting False (sj_job x)\<rparr>"
    using assms(2) by (auto simp: schedule_timer_def split: if_splits list.splits)
  moreover have "\<forall>y \<in> set rest. scheduledJob_less x y"
    using reachable_order [OF assms(1)] p(1) by (simp add: order_inv_def)
  ultimately show ?thesis by (auto simp: scheduledJob_less_def split: if_splits)
qed

definition sample_delayed :: "nat action list" where
  "sample_delayed =
     [DoStart, DoDispatch (Some 50) 1, DoSend 0, DoSend 0, DoDispatch (Some 20) 2, DoSend 0, DoSend 0, DoReceive, DoReceive]"

theorem promotes_earliest_witness:
  "\<exists>s s'. run sample_delayed (new_lifecycle 2 1 False) = Some s \<and> schedule_timer 30 s = Some s' \<and>
     (\<exists>x rest. lc_pending s = x # rest \<and> sj_readyAt x \<le> 30 \<and> lc_scheduler s' = Promoting False (sj_job x))"
proof -
  have "Option.bind (run sample_delayed (new_lifecycle 2 1 False)) (schedule_timer 30) \<noteq> None" by code_simp
  then obtain s s' where s: "run sample_delayed (new_lifecycle 2 1 False) = Some s" "schedule_timer 30 s = Some s'"
    by (auto simp: Option.bind_eq_Some_conv)
  have "reachable (new_lifecycle 2 1 False :: nat lifecycle)" by (rule reachable.new) simp_all
  from promotes_earliest [OF reachable_run [OF this s(1)] s(2)] s show ?thesis by blast
qed

end
