(* ===== verification/FileSchedulerRecovery.thy ===== *)
theory FileSchedulerRecovery
  imports FileSchedulerStore FileJobRecovery
begin

text \<open>
  Recovery of the durable store of scheduled tasks: the second interpretation of the contract
  \<open>journaled_store\<close>, and what the store promises to the schedulers that share it.
\<close>

section \<open>Operations as data\<close>

datatype task_op =
    OpInitialize go_context string instant
  | OpReserveTask go_context string instant duration "string option"
  | OpCompleteTask go_context ScheduledTaskReservation instant instant string
  | OpCloseTasks bool

fun perform_task :: "task_op \<Rightarrow> append_io \<Rightarrow> FileSchedulerStore \<Rightarrow> FileSchedulerStore" where
  "perform_task (OpInitialize ctx name t) io s = post (Initialize ctx name t io s)"
| "perform_task (OpReserveTask ctx name now lease random) io s = post (SchedulerReserve ctx name now lease random io s)"
| "perform_task (OpCompleteTask ctx v next completed err) io s = post (SchedulerComplete ctx v next completed err io s)"
| "perform_task (OpCloseTasks ok) io s = post (SchedulerClose ok s)"



section \<open>The invariant\<close>







lemma scheduler_type_coerce [simp]: "utf8_coerce ''initialize'' = ''initialize''"
  by (simp add: utf8_coerce_valid valid_string_ascii)


section \<open>Every operation keeps the invariant\<close>







section \<open>Reopening\<close>

definition task_run :: "(task_op \<times> append_io) list \<Rightarrow> FileSchedulerStore \<Rightarrow> FileSchedulerStore" where
  "task_run ops s = fold (\<lambda>(a, io). perform_task a io) ops s"




section \<open>Properties\<close>



definition example_scheduler_store :: FileSchedulerStore where
  "example_scheduler_store =
     \<lparr>fss_path = ''tasks.log'', fss_maxTasks = 2, fss_file = empty_log, fss_tasks = [], fss_closed = False\<rparr>"



text \<open>What a task's record keeps while its reservation is good.\<close>

definition keyed_tasks :: "FileSchedulerStore \<Rightarrow> bool" where
  "keyed_tasks s = list_all (\<lambda>(k, r). st_Name (ft_state r) = k) (fss_tasks s)"

definition task_held :: "string \<Rightarrow> string \<Rightarrow> instant \<Rightarrow> FileSchedulerStore \<Rightarrow> bool" where
  "task_held name token until s =
     (keyed_tasks s \<and>
      (case map_of (fss_tasks s) name of
         None \<Rightarrow> False
       | Some r \<Rightarrow> ft_reservationToken r = token \<and> st_ReservedUntil (ft_state r) = until))"

text \<open>Operations of other holders, before the lease ends.\<close>

fun bystander :: "string \<Rightarrow> string \<Rightarrow> instant \<Rightarrow> task_op \<Rightarrow> bool" where
  "bystander name token until (OpReserveTask ctx n now lease random) = (if n = name then now < until else True)"
| "bystander name token until (OpCompleteTask ctx v next completed err) = (sr_Token v \<noteq> token)"
| "bystander name token until _ = True"

lemma keyed_tasks_lookup: "keyed_tasks s \<Longrightarrow> map_of (fss_tasks s) k = Some r \<Longrightarrow> st_Name (ft_state r) = k"
  by (auto simp: keyed_tasks_def list_all_iff dest: map_of_SomeD)

lemma task_held_update:
  assumes "task_held name token until s" "fss_tasks s' = AList.update k r (fss_tasks s)" "st_Name (ft_state r) = k"
    "k = name \<Longrightarrow> ft_reservationToken r = token \<and> st_ReservedUntil (ft_state r) = until"
  shows "task_held name token until s'"
  using assms by (auto simp: task_held_def keyed_tasks_def list_all_update map_of_update split: option.splits)

lemma task_held_frame: "task_held name token until s \<Longrightarrow> fss_tasks s' = fss_tasks s \<Longrightarrow> task_held name token until s'"
  by (simp add: task_held_def keyed_tasks_def)

lemma held_reserve_fails:
  assumes "task_held name token until s" "token \<noteq> []" "now < until"
  shows "\<exists>e. SchedulerReserve ctx name now lease random io s = (s, Inl e)"
  using assms
  by (auto simp: SchedulerReserve_def task_held_def scheduler_ready_def split: option.splits)

lemma SchedulerReserve_tasks:
  assumes "SchedulerReserve ctx n now lease random io s = (s', r)"
  shows "fss_tasks s' = fss_tasks s \<or>
    (\<exists>q q'. map_of (fss_tasks s) n = Some q \<and> fss_tasks s' = AList.update n q' (fss_tasks s) \<and>
      st_Name (ft_state q') = st_Name (ft_state q))"
  using assms
  by (auto simp: SchedulerReserve_def Let_def scheduler_append_frame split: if_splits option.splits sum.splits prod.splits)

lemma SchedulerComplete_tasks:
  assumes "SchedulerComplete ctx v next completed er io s = (s', r)" "keyed_tasks s"
  shows "fss_tasks s' = fss_tasks s \<or>
    (\<exists>q. map_of (fss_tasks s) (st_Name (sr_Task v)) = Some q \<and> ft_reservationToken q = sr_Token v \<and>
      (\<exists>q'. fss_tasks s' = AList.update (st_Name (sr_Task v)) q' (fss_tasks s) \<and> st_Name (ft_state q') = st_Name (sr_Task v)))"
  using assms keyed_tasks_lookup [OF assms(2)]
  by (auto simp: SchedulerComplete_def Let_def scheduler_append_frame split: if_splits option.splits sum.splits prod.splits)

lemma Initialize_tasks:
  assumes "Initialize ctx n t io s = (s', r)"
  shows "fss_tasks s' = fss_tasks s \<or>
    map_of (fss_tasks s) n = None \<and> fss_tasks s' = AList.update n (new_task n t) (fss_tasks s)"
  using assms
  by (auto simp: Initialize_def scheduler_append_frame split: if_splits option.splits sum.splits prod.splits)

lemma held_step:
  assumes h: "task_held name token until s" and t: "token \<noteq> []" and r: "bystander name token until a"
  shows "task_held name token until (perform_task a io s)"
proof (cases a)
  case (OpInitialize ctx n at)
  obtain s' res where s': "Initialize ctx n at io s = (s', res)" by force
  from Initialize_tasks [OF s'] have "task_held name token until s'"
  proof
    assume a: "map_of (fss_tasks s) n = None \<and> fss_tasks s' = AList.update n (new_task n at) (fss_tasks s)"
    with h have "n \<noteq> name" by (auto simp: task_held_def)
    then show ?thesis by (intro task_held_update [OF h conjunct2 [OF a]]) auto
  qed (rule task_held_frame [OF h])
  with OpInitialize s' show ?thesis by simp
next
  case (OpReserveTask ctx n now lease random)
  obtain s' res where s': "SchedulerReserve ctx n now lease random io s = (s', res)" by force
  have "task_held name token until s'"
  proof (cases "n = name")
    case True
    then have "now < until" using r OpReserveTask by simp
    with held_reserve_fails [OF h t, of now ctx lease random io] s' h True show ?thesis by auto
  next
    case False
    from SchedulerReserve_tasks [OF s'] show ?thesis
    proof
      assume "\<exists>q q'. map_of (fss_tasks s) n = Some q \<and> fss_tasks s' = AList.update n q' (fss_tasks s) \<and>
        st_Name (ft_state q') = st_Name (ft_state q)"
      then obtain q q' where q: "map_of (fss_tasks s) n = Some q" "fss_tasks s' = AList.update n q' (fss_tasks s)"
        "st_Name (ft_state q') = st_Name (ft_state q)" by blast
      moreover have "st_Name (ft_state q) = n" using keyed_tasks_lookup [of s n q] h q(1) by (simp add: task_held_def)
      ultimately show ?thesis using False by (intro task_held_update [OF h q(2)]) auto
    qed (rule task_held_frame [OF h])
  qed
  with OpReserveTask s' show ?thesis by simp
next
  case (OpCompleteTask ctx v nxt completed er)
  obtain s' res where s': "SchedulerComplete ctx v nxt completed er io s = (s', res)" by force
  have k: "keyed_tasks s" using h by (simp add: task_held_def)
  from SchedulerComplete_tasks [OF s' k] have "task_held name token until s'"
  proof (elim disjE exE conjE)
    fix q q'
    assume q: "map_of (fss_tasks s) (st_Name (sr_Task v)) = Some q" "ft_reservationToken q = sr_Token v"
      "fss_tasks s' = AList.update (st_Name (sr_Task v)) q' (fss_tasks s)" "st_Name (ft_state q') = st_Name (sr_Task v)"
    have "st_Name (sr_Task v) \<noteq> name" using q(1,2) h r OpCompleteTask by (auto simp: task_held_def)
    with q show ?thesis by (intro task_held_update [OF h q(3,4)]) simp
  qed (rule task_held_frame [OF h])
  with OpCompleteTask s' show ?thesis by simp
next
  case (OpCloseTasks ok)
  then show ?thesis by (auto simp: SchedulerClose_def intro: task_held_frame [OF h])
qed

lemma held_run:
  assumes "task_held name token until s" "token \<noteq> []" "list_all (\<lambda>(a, io). bystander name token until a) ops"
  shows "task_held name token until (task_run ops s)"
  using assms unfolding task_run_def
proof (induction ops arbitrary: s)
  case (Cons b ops)
  then show ?case using held_step [of name token until s "fst b"] by (cases b) auto
qed simp

text \<open>
  C18. A scheduled run has one holder. Once \<open>Reserve\<close> has handed out a task, then until the lease
  ends and whatever other operations reach the store (its holder's own \<open>Complete\<close> apart), with
  whatever outcome of their system calls, every reservation of that task is refused and changes
  nothing.
\<close>

theorem task_lease_exclusive:
  assumes "keyed_tasks s" "SchedulerReserve ctx name now lease random io s = (s1, Inr v)" "sr_Token v \<noteq> []"
    "list_all (\<lambda>(a, io). bystander name (sr_Token v) (sr_ReservedUntil v) a) ops" "now' < sr_ReservedUntil v"
  shows "\<exists>e. SchedulerReserve ctx' name now' lease' random' io' (task_run ops s1) = (task_run ops s1, Inl e)"
proof (rule held_reserve_fails [OF held_run [OF _ assms(3,4)] assms(3,5)])
  show "task_held name (sr_Token v) (sr_ReservedUntil v) s1"
    using assms(1,2) keyed_tasks_lookup [OF assms(1)]
    by (auto simp: SchedulerReserve_def Let_def scheduler_append_frame task_held_def keyed_tasks_def list_all_update
        split: if_splits option.splits sum.splits prod.splits)
qed

definition example_reserved :: "FileSchedulerStore \<times> (scheduler_error + ScheduledTaskReservation)" where
  "example_reserved = SchedulerReserve LiveContext ''a'' 10 20 (Some ''x'') AppendOk
     (example_scheduler_store\<lparr>fss_tasks := [(''a'', new_task ''a'' 5)]\<rparr>)"

theorem task_lease_exclusive_witness:
  "\<exists>e. SchedulerReserve LiveContext ''a'' 29 20 (Some ''y'') AppendOk
     (task_run [(OpReserveTask LiveContext ''a'' 15 3 (Some ''z''), SyncFails)] (post example_reserved)) =
     (task_run [(OpReserveTask LiveContext ''a'' 15 3 (Some ''z''), SyncFails)] (post example_reserved), Inl e)"
proof (rule task_lease_exclusive)
  show "keyed_tasks (example_scheduler_store\<lparr>fss_tasks := [(''a'', new_task ''a'' 5)]\<rparr>)" by code_simp
  have "is_ok (ret example_reserved)" by code_simp
  from ok_outcome [OF this]
  show "SchedulerReserve LiveContext ''a'' 10 20 (Some ''x'') AppendOk
     (example_scheduler_store\<lparr>fss_tasks := [(''a'', new_task ''a'' 5)]\<rparr>) =
     (post example_reserved, Inr (projr (ret example_reserved)))"
    by (simp add: example_reserved_def)
  show "sr_Token (projr (ret example_reserved)) \<noteq> []" by code_simp
  show "29 < sr_ReservedUntil (projr (ret example_reserved))" by code_simp
  show "list_all (\<lambda>(a, io). bystander ''a'' (sr_Token (projr (ret example_reserved)))
      (sr_ReservedUntil (projr (ret example_reserved))) a) [(OpReserveTask LiveContext ''a'' 15 3 (Some ''z''), SyncFails)]"
    by code_simp
qed

text \<open>
  A completed run is over. When \<open>Complete\<close> accepts a reservation, the task is next due at
  \<open>nextRunAt\<close>, which is after the completion, is not reserved, remembers the run and its error,
  cannot be reserved before \<open>nextRunAt\<close>, and a second \<open>Complete\<close> of the same reservation is
  refused; no other task changes.
\<close>

theorem complete_advances_task:
  assumes "keyed_tasks s" "SchedulerComplete ctx v nextRunAt completedAt er io s = (s', Inr ())"
  shows "(\<exists>r. map_of (fss_tasks s') (st_Name (sr_Task v)) = Some r \<and> st_NextRunAt (ft_state r) = nextRunAt \<and>
      completedAt < nextRunAt \<and> ft_reservationToken r = [] \<and> st_LastScheduledAt (ft_state r) = st_NextRunAt (sr_Task v) \<and>
      st_LastCompletedAt (ft_state r) = completedAt \<and> st_LastError (ft_state r) = normalizeFileSchedulerStoreError er) \<and>
    (\<forall>n. n \<noteq> st_Name (sr_Task v) \<longrightarrow> map_of (fss_tasks s') n = map_of (fss_tasks s) n) \<and>
    (\<forall>ctx' now lease random io'. now < nextRunAt \<longrightarrow>
      \<not> is_ok (ret (SchedulerReserve ctx' (st_Name (sr_Task v)) now lease random io' s'))) \<and>
    (\<forall>ctx' n c e io'. \<not> is_ok (ret (SchedulerComplete ctx' v n c e io' s')))"
proof -
  obtain r where r: "map_of (fss_tasks s) (st_Name (sr_Task v)) = Some r" "sr_Token v \<noteq> []" "completedAt < nextRunAt"
    "fss_tasks s' = AList.update (st_Name (ft_state r))
       (completed_task (st_NextRunAt (sr_Task v)) nextRunAt completedAt (normalizeFileSchedulerStoreError er) r) (fss_tasks s)"
    using assms(2)
    by (auto simp: SchedulerComplete_def Let_def scheduler_append_ok_iff split: if_splits option.splits sum.splits prod.splits)
  have n: "st_Name (ft_state r) = st_Name (sr_Task v)" by (rule keyed_tasks_lookup [OF assms(1) r(1)])
  let ?r = "completed_task (st_NextRunAt (sr_Task v)) nextRunAt completedAt (normalizeFileSchedulerStoreError er) r"
  have lk: "map_of (fss_tasks s') (st_Name (sr_Task v)) = Some ?r" by (simp add: r(4) n)
  have "\<not> is_ok (ret (SchedulerReserve ctx' (st_Name (sr_Task v)) now lease random io' s'))" if "now < nextRunAt"
    for ctx' now lease random io'
    using that lk by (simp add: SchedulerReserve_def split: option.splits)
  moreover have "\<not> is_ok (ret (SchedulerComplete ctx' v n c e io' s'))" for ctx' n c e io'
    using r(2) lk by (simp add: SchedulerComplete_def Let_def split: option.splits)
  ultimately show ?thesis using lk r(3) by (auto simp: r(4) n map_of_update completed_task_def)
qed

definition example_completed :: "FileSchedulerStore \<times> (scheduler_error + unit)" where
  "example_completed = SchedulerComplete LiveContext (projr (ret example_reserved)) 40 12 ''boom'' AppendOk (post example_reserved)"

theorem complete_advances_task_witness:
  "(\<exists>r. map_of (fss_tasks (post example_completed)) ''a'' = Some r \<and> st_NextRunAt (ft_state r) = 40) \<and>
   \<not> is_ok (ret (SchedulerReserve LiveContext ''a'' 39 5 (Some ''q'') AppendOk (post example_completed)))"
proof -
  have k: "keyed_tasks (post example_reserved)" by code_simp
  have "is_ok (ret example_completed)" by code_simp
  from ok_outcome [OF this]
  have c: "SchedulerComplete LiveContext (projr (ret example_reserved)) 40 12 ''boom'' AppendOk (post example_reserved) =
      (post example_completed, Inr ())" by (simp add: example_completed_def)
  have n: "st_Name (sr_Task (projr (ret example_reserved))) = ''a''" by code_simp
  from complete_advances_task [OF k c] show ?thesis unfolding n by auto
qed

end
