(* ===== verification/Scheduler.thy ===== *)
theory Scheduler
  imports FileSchedulerStore JobQueue
begin

text \<open>
  The task scheduler: \<open>src/backend/framework/scheduler.go\<close> and
  \<open>scheduler_persistent.go\<close>. This theory holds its options, the registration of tasks, one
  invocation of a task, and the loop of a task kept in a store, over the interface
  \<open>SchedulerStore\<close> of \<open>scheduler_store.go\<close>. The goroutines and the tasks started
  dynamically are in \<open>SchedulerDynamic\<close>, cron expressions in \<open>Cron\<close>.
\<close>

section \<open>Options and registration\<close>

datatype sched_error =
    ErrSchedulerUnavailable
  | ErrSchedContextUnavailable
  | ErrSchedContext ctx_error
  | ErrInvalidSchedulerOptions
  | ErrInvalidScheduledTask
  | ErrInvalidCronExpression
  | ErrScheduledTaskAlreadyDefined string
  | ErrScheduledTaskRegistrationClosed
  | ErrSchedulerStopped
  | ErrSchedulerNotRunning
  | ErrScheduledTaskStopped
  | ErrDynamicSchedulingUnsupported
  | ErrScheduledTaskExecutionFailed
  | ErrTaskStoreFailed string string scheduler_error
  | ErrCalculateNextRun

definition defaultSchedulerPollInterval :: duration where
  "defaultSchedulerPollInterval = milliseconds 100"

definition defaultSchedulerLeaseDuration :: duration where
  "defaultSchedulerLeaseDuration = seconds 60"

record SchedulerOptions =
  sc_TaskTimeout :: duration
  sc_HasStore :: bool
  sc_PollInterval :: duration
  sc_LeaseDuration :: duration

definition DefaultSchedulerOptions :: SchedulerOptions where
  "DefaultSchedulerOptions =
     \<lparr>sc_TaskTimeout = seconds 30, sc_HasStore = False, sc_PollInterval = defaultSchedulerPollInterval,
      sc_LeaseDuration = defaultSchedulerLeaseDuration\<rparr>"

text \<open>What an invocation of a task can do; \<open>TaskContextError\<close> is an error that wraps its context's.\<close>

datatype task_outcome = TaskOk | TaskFails string | TaskContextError ctx_error | TaskPanics string

text \<open>\<open>te_schedule\<close> is \<open>nextDelay\<close>, with \<open>None\<close> for a schedule that has no next run.\<close>

record scheduledTaskEntry =
  te_name :: string
  te_schedule :: "instant \<Rightarrow> duration option"
  te_run :: "nat \<Rightarrow> task_outcome"

datatype schedulerState = schedulerCollecting | schedulerRunning | schedulerStopping | schedulerStopped

record Scheduler =
  sd_options :: SchedulerOptions
  sd_tasks :: "scheduledTaskEntry list"
  sd_taskNames :: "string list"
  sd_dynamicTasks :: "string list"
  sd_state :: schedulerState

definition fixedDelaySchedule :: "duration \<Rightarrow> instant \<Rightarrow> duration option" where
  "fixedDelaySchedule interval now = Some interval"

definition newScheduler :: "SchedulerOptions \<Rightarrow> sched_error + Scheduler" where
  "newScheduler options =
     (if sc_TaskTimeout options < 0 \<or> sc_PollInterval options < 0 \<or> sc_LeaseDuration options < 0
      then Inl ErrInvalidSchedulerOptions
      else
        let o1 = (if sc_HasStore options then
                    options\<lparr>sc_TaskTimeout := (if sc_TaskTimeout options = 0 then sc_TaskTimeout DefaultSchedulerOptions
                                              else sc_TaskTimeout options),
                           sc_PollInterval := (if sc_PollInterval options = 0 then defaultSchedulerPollInterval
                                               else sc_PollInterval options),
                           sc_LeaseDuration := (if sc_LeaseDuration options = 0 then defaultSchedulerLeaseDuration
                                                else sc_LeaseDuration options)\<rparr>
                  else options)
        in if sc_HasStore o1 \<and> sc_LeaseDuration o1 \<le> sc_TaskTimeout o1 then Inl ErrInvalidSchedulerOptions
           else Inr \<lparr>sd_options = o1, sd_tasks = [], sd_taskNames = [], sd_dynamicTasks = [],
                     sd_state = schedulerCollecting\<rparr>)"

definition registerTask :: "scheduledTaskEntry \<Rightarrow> Scheduler \<Rightarrow> Scheduler \<times> (sched_error + unit)" where
  [op_defs]: "registerTask entry s =
     (if sd_state s \<noteq> schedulerCollecting then (s, Inl ErrScheduledTaskRegistrationClosed)
      else if te_name entry \<in> set (sd_taskNames s) then (s, Inl (ErrScheduledTaskAlreadyDefined (te_name entry)))
      else (s\<lparr>sd_taskNames := te_name entry # sd_taskNames s, sd_tasks := sd_tasks s @ [entry]\<rparr>, Inr ()))"

text \<open>\<open>task = None\<close> is a nil task.\<close>

definition ScheduleTask ::
  "string \<Rightarrow> duration \<Rightarrow> (nat \<Rightarrow> task_outcome) option \<Rightarrow> Scheduler option \<Rightarrow> Scheduler option \<times> (sched_error + unit)" where
  [op_defs]: "ScheduleTask name interval task sched =
     (case sched of
        None \<Rightarrow> (None, Inl ErrSchedulerUnavailable)
      | Some s \<Rightarrow>
          (case task of
             None \<Rightarrow> (Some s, Inl ErrInvalidScheduledTask)
           | Some run \<Rightarrow>
               if trim_space name = [] \<or> interval \<le> 0 then (Some s, Inl ErrInvalidScheduledTask)
               else case registerTask \<lparr>te_name = trim_space name, te_schedule = fixedDelaySchedule interval, te_run = run\<rparr> s of
                 (s', r) \<Rightarrow> (Some s', r)))"

definition ScheduledTasks :: "Scheduler option \<Rightarrow> string list" where
  "ScheduledTasks sched =
     (case sched of None \<Rightarrow> [] | Some s \<Rightarrow> map te_name (sd_tasks s) @ sort (sd_dynamicTasks s))"

section \<open>One invocation\<close>

record ScheduledTaskFailure =
  tf_Task :: string
  tf_ScheduledAt :: instant
  tf_Err :: sched_error

text \<open>
  \<open>executeContext\<close>: the error of the run and the failures reported. \<open>parent\<close> is the error
  of the parent context once the task has returned.
\<close>

definition task_error :: "task_outcome \<Rightarrow> string option" where
  "task_error r =
     (case r of
        TaskOk \<Rightarrow> None
      | TaskFails e \<Rightarrow> Some e
      | TaskContextError Canceled \<Rightarrow> Some ''context canceled''
      | TaskContextError DeadlineExceeded \<Rightarrow> Some ''context deadline exceeded''
      | TaskPanics p \<Rightarrow> Some (''task panic: '' @ p))"

definition executeContext ::
  "ctx_error option \<Rightarrow> scheduledTaskEntry \<Rightarrow> nat \<Rightarrow> instant \<Rightarrow> string option \<times> ScheduledTaskFailure list" where
  "executeContext parent task call scheduledAt =
     (case te_run task call of
        TaskOk \<Rightarrow> (None, [])
      | r \<Rightarrow>
          (task_error r,
           if parent \<noteq> None \<and> (case r of TaskContextError e \<Rightarrow> Some e = parent | _ \<Rightarrow> False) then []
           else [\<lparr>tf_Task = te_name task, tf_ScheduledAt = scheduledAt, tf_Err = ErrScheduledTaskExecutionFailed\<rparr>]))"

section \<open>The store interface\<close>

record ('env, 's) SchedulerStore =
  ss_Initialize :: "'env \<Rightarrow> go_context \<Rightarrow> string \<Rightarrow> instant \<Rightarrow> 's \<Rightarrow> 's \<times> (scheduler_error + unit)"
  ss_State :: "'env \<Rightarrow> go_context \<Rightarrow> string \<Rightarrow> 's \<Rightarrow> scheduler_error + StoredScheduledTask"
  ss_Reserve :: "'env \<Rightarrow> go_context \<Rightarrow> string \<Rightarrow> instant \<Rightarrow> duration \<Rightarrow> 's
    \<Rightarrow> 's \<times> (scheduler_error + ScheduledTaskReservation)"
  ss_Complete :: "'env \<Rightarrow> go_context \<Rightarrow> ScheduledTaskReservation \<Rightarrow> instant \<Rightarrow> instant \<Rightarrow> string \<Rightarrow> 's
    \<Rightarrow> 's \<times> (scheduler_error + unit)"

text \<open>
  \<open>initializePersistentTasks\<close>: every task with a next run is entered in the store; the loop stops
  at the first error. \<open>env\<close> gives the environment of each call.
\<close>

fun initializePersistentTasks ::
  "('env, 's) SchedulerStore \<Rightarrow> (nat \<Rightarrow> 'env) \<Rightarrow> instant \<Rightarrow> scheduledTaskEntry list \<Rightarrow> 's
    \<Rightarrow> 's \<times> (sched_error + scheduledTaskEntry list)" where
  "initializePersistentTasks st env now [] s = (s, Inr [])"
| "initializePersistentTasks st env now (task # tasks) s =
     (case te_schedule task now of
        None \<Rightarrow> initializePersistentTasks st env now tasks s
      | Some delay \<Rightarrow>
          (case ss_Initialize st (env (length tasks)) LiveContext (te_name task) (now + delay) s of
             (s', Inl e) \<Rightarrow> (s', Inl (ErrTaskStoreFailed ''initialize'' (te_name task) e))
           | (s', Inr _) \<Rightarrow>
               (case initializePersistentTasks st env now tasks s' of
                  (s'', Inl e) \<Rightarrow> (s'', Inl e)
                | (s'', Inr runnable) \<Rightarrow> (s'', Inr (task # runnable)))))"

text \<open>
  The loop of \<open>runPersistentTaskLoop\<close>, cut where it calls the store or waits. The environment
  decides the context's state (\<open>ctx\<close>) and the clock at each cut.
\<close>

datatype loop_place =
    AtTop
  | AtReserve instant
  | AtWait duration
  | AtExecute ScheduledTaskReservation
  | LoopExited

text \<open>From the top: read the task's state and how long to wait for it.\<close>

definition loop_state ::
  "('env, 's) SchedulerStore \<Rightarrow> 'env \<Rightarrow> go_context \<Rightarrow> SchedulerOptions \<Rightarrow> string \<Rightarrow> instant \<Rightarrow> 's
    \<Rightarrow> duration \<times> loop_place \<times> ScheduledTaskFailure list" where
  "loop_state st env ctx os name clock s =
     (case ss_State st env ctx name s of
        Inl e \<Rightarrow>
          if e = ErrSchedulerContext Canceled then (0, LoopExited, [])
          else (sc_PollInterval os, AtTop,
                [\<lparr>tf_Task = name, tf_ScheduledAt = 0, tf_Err = ErrTaskStoreFailed ''state'' name e\<rparr>])
      | Inr state \<Rightarrow>
          (max 0 (if st_ReservedUntil state > clock then st_ReservedUntil state - clock
                  else st_NextRunAt state - clock), AtReserve (st_NextRunAt state), []))"

text \<open>Reserve the run, or go back to the top after a pause.\<close>

definition loop_reserve ::
  "('env, 's) SchedulerStore \<Rightarrow> 'env \<Rightarrow> go_context \<Rightarrow> SchedulerOptions \<Rightarrow> string \<Rightarrow> instant \<Rightarrow> instant \<Rightarrow> 's
    \<Rightarrow> 's \<times> loop_place \<times> ScheduledTaskFailure list" where
  "loop_reserve st env ctx os name nextRunAt clock s =
     (case ss_Reserve st env ctx name clock (sc_LeaseDuration os) s of
        (s', Inr v) \<Rightarrow> (s', AtExecute v, [])
      | (s', Inl e) \<Rightarrow>
          if e = ErrSchedulerContext Canceled then (s', LoopExited, [])
          else (s', AtWait (sc_PollInterval os),
                if e = ErrScheduledTaskNotDue \<or> e = ErrScheduledTaskReserved then []
                else [\<lparr>tf_Task = name, tf_ScheduledAt = nextRunAt, tf_Err = ErrTaskStoreFailed ''reserve'' name e\<rparr>]))"

text \<open>Run the task, then complete its reservation. \<open>clock\<close> is the time the task returned.\<close>

definition loop_execute ::
  "('env, 's) SchedulerStore \<Rightarrow> 'env \<Rightarrow> scheduledTaskEntry \<Rightarrow> ScheduledTaskReservation \<Rightarrow> nat \<Rightarrow> instant \<Rightarrow> 's
    \<Rightarrow> 's \<times> loop_place \<times> ScheduledTaskFailure list" where
  "loop_execute st env task v call clock s =
     (case executeContext None task call (st_NextRunAt (sr_Task v)) of
        (taskError, failures) \<Rightarrow>
          (case te_schedule task clock of
             None \<Rightarrow>
               (s, LoopExited, failures @
                  [\<lparr>tf_Task = te_name task, tf_ScheduledAt = st_NextRunAt (sr_Task v), tf_Err = ErrCalculateNextRun\<rparr>])
           | Some delay \<Rightarrow>
               (case ss_Complete st env LiveContext v (clock + delay) clock
                       (case taskError of None \<Rightarrow> [] | Some e \<Rightarrow> e) s of
                  (s', Inl e) \<Rightarrow>
                    (s', AtTop, failures @
                       [\<lparr>tf_Task = te_name task, tf_ScheduledAt = st_NextRunAt (sr_Task v),
                         tf_Err = ErrTaskStoreFailed ''complete'' (te_name task) e\<rparr>])
                | (s', Inr _) \<Rightarrow> (s', AtTop, failures))))"

end
