(* ===== verification/SchedulerFleet.thy ===== *)
theory SchedulerFleet
  imports Scheduler FileSchedulerRecovery
begin

text \<open>
  Several schedulers on one store (\<open>src/backend/framework/scheduler_persistent.go\<close> over
  \<open>scheduler_store.go\<close>): each runs the loop of \<open>Scheduler\<close>, they interleave at their calls
  of the store, and any of them may disappear while it holds a run. The contract
  \<open>scheduler_store\<close> gives what they rely on; it is interpreted on the durable local store.
\<close>

section \<open>The contract of a scheduler store\<close>

text \<open>
  The view of a store: each task's state and the token of its reservation, empty when it has none. \<open>kept\<close> is what the store keeps of a
  time. A reservation is of a task that is there, due and free; it is completed under its token; a call that reports an
  error may have taken effect, as when the reply of a server is lost.
\<close>

definition reserved_as ::
  "(instant \<Rightarrow> instant) \<Rightarrow> string \<Rightarrow> instant \<Rightarrow> duration \<Rightarrow> string \<Rightarrow> (string \<Rightarrow> (StoredScheduledTask \<times> string) option)
    \<Rightarrow> (string \<Rightarrow> (StoredScheduledTask \<times> string) option) \<Rightarrow> StoredScheduledTask \<Rightarrow> bool" where
  "reserved_as kept name now lease token m m' r =
     ((\<exists>tok. m name = Some (r, tok) \<and> (tok = [] \<or> st_ReservedUntil r \<le> now)) \<and> st_NextRunAt r \<le> now \<and>
      m' = m(name \<mapsto> (r\<lparr>st_ReservedUntil := kept (now + lease)\<rparr>, token)))"

definition completed_as ::
  "(instant \<Rightarrow> instant) \<Rightarrow> ScheduledTaskReservation \<Rightarrow> (string \<Rightarrow> (StoredScheduledTask \<times> string) option)
    \<Rightarrow> (string \<Rightarrow> (StoredScheduledTask \<times> string) option) \<Rightarrow> bool" where
  "completed_as kept v m m' =
     (sr_Token v \<noteq> [] \<and>
      (\<exists>r r'. m (st_Name (sr_Task v)) = Some (r, sr_Token v) \<and> st_NextRunAt r = kept (st_NextRunAt (sr_Task v)) \<and>
        m' = m(st_Name (sr_Task v) \<mapsto> (r', []))))"

locale scheduler_store =
  fixes st :: "('env, 's) SchedulerStore"
    and view :: "'s \<Rightarrow> string \<Rightarrow> (StoredScheduledTask \<times> string) option"
    and invar :: "'s \<Rightarrow> bool"
    and kept :: "instant \<Rightarrow> instant"
  assumes reserve_ok: "invar s \<Longrightarrow> ss_Reserve st env ctx name now lease s = (s', Inr v) \<Longrightarrow>
      invar s' \<and> st_Name (sr_Task v) = name \<and> sr_ReservedUntil v = now + lease \<and>
      (\<exists>r. reserved_as kept name now lease (sr_Token v) (view s) (view s') r \<and> st_NextRunAt (sr_Task v) = st_NextRunAt r)"
    and reserve_error: "invar s \<Longrightarrow> ss_Reserve st env ctx name now lease s = (s', Inl e) \<Longrightarrow>
      invar s' \<and> (view s' = view s \<or> (\<exists>token r. reserved_as kept name now lease token (view s) (view s') r))"
    and complete_ok: "invar s \<Longrightarrow> ss_Complete st env ctx v nextRun completed er s = (s', Inr u) \<Longrightarrow>
      invar s' \<and> completed_as kept v (view s) (view s')"
    and complete_error: "invar s \<Longrightarrow> ss_Complete st env ctx v nextRun completed er s = (s', Inl e) \<Longrightarrow>
      invar s' \<and> (view s' = view s \<or> completed_as kept v (view s) (view s'))"
    and initialize: "invar s \<Longrightarrow> ss_Initialize st env ctx name nextRun s = (s', r) \<Longrightarrow>
      invar s' \<and> (view s' = view s \<or> view s name = None \<and> (\<exists>q. view s' = (view s)(name \<mapsto> (q, []))))"

text \<open>A store that keeps times exactly; a completed task is due at the time given, which lies ahead.\<close>

locale exact_scheduler_store = scheduler_store st view invar "\<lambda>t. t"
  for st :: "('env, 's) SchedulerStore" and view invar +
  assumes complete_next: "invar s \<Longrightarrow> ss_Complete st env ctx v nextRun completed er s = (s', res) \<Longrightarrow>
      view s' = view s \<and> \<not> is_ok res \<or>
      completed < nextRun \<and> (\<exists>q. view s' (st_Name (sr_Task v)) = Some (q, []) \<and> st_NextRunAt q = nextRun)"

section \<open>The fleet\<close>

text \<open>
  \<open>fl_holders\<close> are the runs that schedulers are executing, \<open>fl_completed\<close> the occurrences
  (task, scheduled time) whose completion the store has accepted, latest first.
\<close>

record 's fleet =
  fl_store :: 's
  fl_clock :: instant
  fl_holders :: "ScheduledTaskReservation list"
  fl_completed :: "(string \<times> instant) list"

definition new_fleet :: "'s \<Rightarrow> instant \<Rightarrow> 's fleet" where
  "new_fleet s now = \<lparr>fl_store = s, fl_clock = now, fl_holders = [], fl_completed = []\<rparr>"

text \<open>
  Steps: time passes; a scheduler enters a task (\<open>initializePersistentTasks\<close>), reserves a run
  (\<open>loop_reserve\<close>) with a token that no other holder has, as its 32 random bytes make sure, or
  finishes one (\<open>loop_execute\<close>); a scheduler disappears.
\<close>

inductive fleet_step :: "('env, 's) SchedulerStore \<Rightarrow> 's fleet \<Rightarrow> 's fleet \<Rightarrow> bool" for st where
  tick: "fl_clock f \<le> now \<Longrightarrow> fleet_step st f (f\<lparr>fl_clock := now\<rparr>)"
| enter: "ss_Initialize st env LiveContext name t (fl_store f) = (s', r) \<Longrightarrow> fleet_step st f (f\<lparr>fl_store := s'\<rparr>)"
| reserve: "loop_reserve st env ctx os name nextRun (fl_clock f) (fl_store f) = (s', AtExecute v, fs) \<Longrightarrow>
    sr_Token v \<noteq> [] \<Longrightarrow> sr_Token v \<notin> sr_Token ` set (fl_holders f) \<Longrightarrow>
    fleet_step st f (f\<lparr>fl_store := s', fl_holders := v # fl_holders f\<rparr>)"
| refused: "loop_reserve st env ctx os name nextRun (fl_clock f) (fl_store f) = (s', p, fs) \<Longrightarrow>
    (\<And>v. p \<noteq> AtExecute v) \<Longrightarrow> fleet_step st f (f\<lparr>fl_store := s'\<rparr>)"
| finish: "v \<in> set (fl_holders f) \<Longrightarrow> loop_execute st env task v call (fl_clock f) (fl_store f) = (s', p, fs) \<Longrightarrow>
    completed = (is_ok (snd (ss_Complete st env LiveContext v
      (fl_clock f + (case te_schedule task (fl_clock f) of None \<Rightarrow> 0 | Some d \<Rightarrow> d)) (fl_clock f)
      (case fst (executeContext None task call (st_NextRunAt (sr_Task v))) of None \<Rightarrow> [] | Some e \<Rightarrow> e) (fl_store f))) \<and>
      te_schedule task (fl_clock f) \<noteq> None) \<Longrightarrow>
    fleet_step st f (f\<lparr>fl_store := s', fl_holders := remove1 v (fl_holders f),
      fl_completed := (if completed then [(st_Name (sr_Task v), st_NextRunAt (sr_Task v))] else []) @ fl_completed f\<rparr>)"
| vanish: "fleet_step st f (f\<lparr>fl_holders := remove1 v (fl_holders f)\<rparr>)"

inductive fleet_reach :: "('env, 's) SchedulerStore \<Rightarrow> 's fleet \<Rightarrow> 's fleet \<Rightarrow> bool" for st where
  refl: "fleet_reach st f f"
| step: "fleet_reach st f g \<Longrightarrow> fleet_step st g h \<Longrightarrow> fleet_reach st f h"

definition live :: "(instant \<Rightarrow> instant) \<Rightarrow> 's fleet \<Rightarrow> ScheduledTaskReservation \<Rightarrow> bool" where
  "live kept f v = (fl_clock f < kept (sr_ReservedUntil v))"

lemma distinct_map_remove1: "distinct (map g xs) \<Longrightarrow> distinct (map g (remove1 v xs))"
  using set_remove1_subset by (induction xs) fastforce+

context scheduler_store begin

text \<open>Tokens of holders differ, and a live holder's token and lease are the store's.\<close>

definition fleet_inv :: "'s fleet \<Rightarrow> bool" where
  "fleet_inv f =
     (invar (fl_store f) \<and> distinct (map sr_Token (fl_holders f)) \<and>
      (\<forall>v \<in> set (fl_holders f). sr_Token v \<noteq> [] \<and>
        (live kept f v \<longrightarrow> (\<exists>r. view (fl_store f) (st_Name (sr_Task v)) = Some (r, sr_Token v) \<and>
          st_ReservedUntil r = kept (sr_ReservedUntil v)))))"

lemma inv_tick: "fleet_inv f \<Longrightarrow> fl_clock f \<le> now \<Longrightarrow> fleet_inv (f\<lparr>fl_clock := now\<rparr>)"
  by (fastforce simp: fleet_inv_def live_def)

lemma inv_vanish: "fleet_inv f \<Longrightarrow> fleet_inv (f\<lparr>fl_holders := remove1 v (fl_holders f)\<rparr>)"
  using set_remove1_subset [of v "fl_holders f"] by (auto simp: fleet_inv_def live_def distinct_map_remove1)

lemma inv_completed: "fleet_inv (f\<lparr>fl_completed := c\<rparr>) = fleet_inv f"
  by (simp add: fleet_inv_def live_def)

text \<open>A store change that keeps the records of live holders.\<close>

lemma inv_store:
  assumes "fleet_inv f" "invar s'"
    "\<And>v. v \<in> set (fl_holders f) \<Longrightarrow> live kept f v \<Longrightarrow> view s' (st_Name (sr_Task v)) = view (fl_store f) (st_Name (sr_Task v))"
  shows "fleet_inv (f\<lparr>fl_store := s'\<rparr>)"
  using assms unfolding fleet_inv_def live_def by fastforce

lemma inv_same: "fleet_inv f \<Longrightarrow> invar s' \<Longrightarrow> view s' = view (fl_store f) \<Longrightarrow> fleet_inv (f\<lparr>fl_store := s'\<rparr>)"
  by (rule inv_store) auto

lemma inv_enter:
  assumes "fleet_inv f" "ss_Initialize st env ctx name t (fl_store f) = (s', r)"
  shows "fleet_inv (f\<lparr>fl_store := s'\<rparr>)"
proof -
  have inv: "invar (fl_store f)" using assms(1) by (simp add: fleet_inv_def)
  from initialize [OF inv assms(2)] show ?thesis
  proof (elim conjE disjE exE)
    fix q
    assume q: "invar s'" "view (fl_store f) name = None" "view s' = (view (fl_store f))(name \<mapsto> (q, []))"
    show ?thesis
      by (rule inv_store [OF assms(1) q(1)]) (use assms(1) q(2) in \<open>auto simp: q(3) fleet_inv_def\<close>)
  qed (rule inv_same [OF assms(1)])
qed

lemma loop_reserve_store:
  assumes "loop_reserve st env ctx os name nextRun now s = (s', p, fs)"
  shows "(\<exists>v. p = AtExecute v \<and> ss_Reserve st env ctx name now (sc_LeaseDuration os) s = (s', Inr v)) \<or>
    (\<forall>v. p \<noteq> AtExecute v) \<and> (\<exists>e. ss_Reserve st env ctx name now (sc_LeaseDuration os) s = (s', Inl e))"
  using assms by (auto simp: loop_reserve_def split: prod.splits sum.splits if_splits)

lemma inv_reserved:
  assumes f: "fleet_inv f" and s': "invar s'" and r: "reserved_as kept name (fl_clock f) lease token (view (fl_store f)) (view s') r"
  shows "fleet_inv (f\<lparr>fl_store := s'\<rparr>)"
proof (rule inv_store [OF f s'])
  show "view s' (st_Name (sr_Task w)) = view (fl_store f) (st_Name (sr_Task w))" if "w \<in> set (fl_holders f)" "live kept f w" for w
    using that f r by (auto simp: fleet_inv_def live_def reserved_as_def)
qed

lemma inv_reserve:
  assumes f: "fleet_inv f" and v: "ss_Reserve st env ctx name (fl_clock f) lease (fl_store f) = (s', Inr v)"
    and fresh: "sr_Token v \<noteq> []" "sr_Token v \<notin> sr_Token ` set (fl_holders f)"
  shows "fleet_inv (f\<lparr>fl_store := s', fl_holders := v # fl_holders f\<rparr>)"
proof -
  have inv: "invar (fl_store f)" using f by (simp add: fleet_inv_def)
  obtain r where r: "invar s'" "st_Name (sr_Task v) = name" "sr_ReservedUntil v = fl_clock f + lease"
    "reserved_as kept name (fl_clock f) lease (sr_Token v) (view (fl_store f)) (view s') r"
    using reserve_ok [OF inv v] by blast
  have "view s' name = Some (r\<lparr>st_ReservedUntil := kept (fl_clock f + lease)\<rparr>, sr_Token v)"
    using r(4) by (simp add: reserved_as_def)
  then show ?thesis using inv_reserved [OF f r(1,4)] fresh r(2,3) by (auto simp: fleet_inv_def live_def)
qed

lemma inv_complete:
  assumes f: "fleet_inv f" and v: "v \<in> set (fl_holders f)" and s': "invar s'" "completed_as kept v (view (fl_store f)) (view s')"
  shows "fleet_inv (f\<lparr>fl_store := s', fl_holders := remove1 v (fl_holders f)\<rparr>)"
proof -
  obtain r r' where r: "view (fl_store f) (st_Name (sr_Task v)) = Some (r, sr_Token v)"
    "view s' = (view (fl_store f))(st_Name (sr_Task v) \<mapsto> (r', []))"
    using s'(2) by (auto simp: completed_as_def)
  let ?g = "f\<lparr>fl_holders := remove1 v (fl_holders f)\<rparr>"
  have dist: "distinct (map sr_Token (fl_holders f))" using f by (simp add: fleet_inv_def)
  have other: "st_Name (sr_Task w) \<noteq> st_Name (sr_Task v)" if w: "w \<in> set (remove1 v (fl_holders f))" "live kept f w" for w
  proof
    assume same: "st_Name (sr_Task w) = st_Name (sr_Task v)"
    have "w \<in> set (fl_holders f)" using w(1) set_remove1_subset by fastforce
    then have "sr_Token w = sr_Token v" using f w(2) r(1) same by (auto simp: fleet_inv_def)
    then have "w = v" using dist v \<open>w \<in> set (fl_holders f)\<close> by (auto simp: distinct_map inj_on_def)
    then show False using w(1) dist by (simp add: distinct_map)
  qed
  have "fleet_inv (?g\<lparr>fl_store := s'\<rparr>)"
    by (rule inv_store [OF inv_vanish [OF f] s'(1)]) (use other in \<open>auto simp: r(2) live_def\<close>)
  then show ?thesis by (simp add: fleet_inv_def live_def)
qed

text \<open>Finishing a run is completing its reservation, or nothing when the schedule gives no next run.\<close>

lemma loop_execute_store:
  assumes "loop_execute st env task v call clock s = (s', p, fs)"
    and "completed = (is_ok (snd (ss_Complete st env LiveContext v
      (clock + (case te_schedule task clock of None \<Rightarrow> 0 | Some d \<Rightarrow> d)) clock
      (case fst (executeContext None task call (st_NextRunAt (sr_Task v))) of None \<Rightarrow> [] | Some e \<Rightarrow> e) s)) \<and>
      te_schedule task clock \<noteq> None)"
  shows "s' = s \<and> \<not> completed \<or> (\<exists>nextRun er res. ss_Complete st env LiveContext v nextRun clock er s = (s', res) \<and> completed = is_ok res)"
proof (cases "te_schedule task clock")
  case None
  with assms show ?thesis by (auto simp: loop_execute_def split: prod.splits)
next
  case (Some d)
  obtain er fs' where x: "executeContext None task call (st_NextRunAt (sr_Task v)) = (er, fs')" by force
  obtain s1 r where c: "ss_Complete st env LiveContext v (clock + d) clock (case er of None \<Rightarrow> [] | Some e \<Rightarrow> e) s = (s1, r)" by force
  have "s' = s1" using assms(1) Some x c by (auto simp: loop_execute_def split: sum.splits)
  with c assms(2) Some x show ?thesis by (intro disjI2) auto
qed

lemma complete_effect:
  assumes "invar s" "ss_Complete st env ctx v nextRun completed er s = (s', res)"
  shows "invar s' \<and> (view s' = view s \<and> \<not> is_ok res \<or> completed_as kept v (view s) (view s'))"
proof (cases res)
  case (Inl e)
  with complete_error [OF assms(1)] assms(2) show ?thesis by fastforce
next
  case (Inr u)
  with complete_ok [OF assms(1)] assms(2) show ?thesis by fastforce
qed

lemma inv_finish:
  assumes f: "fleet_inv f" and v: "v \<in> set (fl_holders f)"
    and ex: "s' = fl_store f \<or> ss_Complete st env ctx v nextRun clock er (fl_store f) = (s', res)"
  shows "fleet_inv (f\<lparr>fl_store := s', fl_holders := remove1 v (fl_holders f)\<rparr>)"
  using ex
proof
  assume "s' = fl_store f"
  then show ?thesis using inv_vanish [OF f, of v] by simp
next
  assume c: "ss_Complete st env ctx v nextRun clock er (fl_store f) = (s', res)"
  have inv: "invar (fl_store f)" using f by (simp add: fleet_inv_def)
  from complete_effect [OF inv c] show ?thesis
  proof (elim conjE disjE)
    assume "invar s'" "view s' = view (fl_store f)"
    then show ?thesis using inv_vanish [OF inv_same [OF f], of s' v] by simp
  qed (rule inv_complete [OF f v])
qed

lemma inv_refused:
  assumes f: "fleet_inv f" and r: "ss_Reserve st env ctx name (fl_clock f) lease (fl_store f) = (s', Inl e)"
  shows "fleet_inv (f\<lparr>fl_store := s'\<rparr>)"
proof -
  have "invar (fl_store f)" using f by (simp add: fleet_inv_def)
  from reserve_error [OF this r] show ?thesis by (blast intro: inv_same [OF f] inv_reserved [OF f])
qed

lemma inv_step:
  assumes "fleet_inv f" "fleet_step st f g"
  shows "fleet_inv g"
  using assms(2)
proof cases
  case (tick now)
  with inv_tick [OF assms(1)] show ?thesis by simp
next
  case (enter env name t s' r)
  with inv_enter [OF assms(1)] show ?thesis by simp
next
  case (reserve env ctx os name nextRun s' v fs)
  with inv_reserve [OF assms(1)] loop_reserve_store [OF reserve(2)] show ?thesis by auto
next
  case (refused env ctx os name nextRun s' p fs)
  with loop_reserve_store [OF refused(2)] inv_refused [OF assms(1)] show ?thesis by auto
next
  case (finish v env task call s' p fs completed)
  have "s' = fl_store f \<or> (\<exists>nextRun er res. ss_Complete st env LiveContext v nextRun (fl_clock f) er (fl_store f) = (s', res))"
    using loop_execute_store [OF finish(3,4)] by blast
  with inv_finish [OF assms(1) finish(2)] have "fleet_inv (f\<lparr>fl_store := s', fl_holders := remove1 v (fl_holders f)\<rparr>)" by blast
  then show ?thesis unfolding finish(1) by (simp add: fleet_inv_def live_def)
next
  case (vanish v)
  with inv_vanish [OF assms(1)] show ?thesis by simp
qed

lemma inv_reach: "fleet_reach st f g \<Longrightarrow> fleet_inv f \<Longrightarrow> fleet_inv g"
  by (induction rule: fleet_reach.induct) (auto dest: inv_step)

lemma inv_new: "invar s \<Longrightarrow> fleet_inv (new_fleet s now)"
  by (simp add: fleet_inv_def new_fleet_def)

lemma live_holder:
  "fleet_inv f \<Longrightarrow> v \<in> set (fl_holders f) \<Longrightarrow> live kept f v \<Longrightarrow>
     \<exists>r. view (fl_store f) (st_Name (sr_Task v)) = Some (r, sr_Token v)"
  by (auto simp: fleet_inv_def)

lemma one_live:
  assumes "fleet_inv f" "i < length (fl_holders f)" "j < length (fl_holders f)" "i \<noteq> j"
    "live kept f (fl_holders f ! i)" "live kept f (fl_holders f ! j)"
  shows "st_Name (sr_Task (fl_holders f ! i)) \<noteq> st_Name (sr_Task (fl_holders f ! j))"
proof
  assume same: "st_Name (sr_Task (fl_holders f ! i)) = st_Name (sr_Task (fl_holders f ! j))"
  have "sr_Token (fl_holders f ! i) = sr_Token (fl_holders f ! j)"
    using live_holder [OF assms(1) nth_mem [OF assms(2)] assms(5)] live_holder [OF assms(1) nth_mem [OF assms(3)] assms(6)]
      same by auto
  then have "map sr_Token (fl_holders f) ! i = map sr_Token (fl_holders f) ! j" using assms(2,3) by simp
  with assms(1-4) show False by (auto simp: fleet_inv_def nth_eq_iff_index_eq simp del: nth_map)
qed

end

context exact_scheduler_store begin

text \<open>A holder's scheduled time has come, and an occurrence that was completed lies before the task's next run.\<close>

definition occurrence_inv :: "'s fleet \<Rightarrow> bool" where
  "occurrence_inv f =
     ((\<forall>v \<in> set (fl_holders f). st_NextRunAt (sr_Task v) \<le> fl_clock f) \<and>
      (\<forall>(n, t) \<in> set (fl_completed f). \<exists>r tok. view (fl_store f) n = Some (r, tok) \<and> t < st_NextRunAt r) \<and>
      distinct (fl_completed f))"

text \<open>A store change that does not bring a task's next run forward.\<close>

definition later_runs :: "'s \<Rightarrow> 's \<Rightarrow> bool" where
  "later_runs s s' = (\<forall>n r tok. view s n = Some (r, tok) \<longrightarrow> (\<exists>r' tok'. view s' n = Some (r', tok') \<and> st_NextRunAt r \<le> st_NextRunAt r'))"

lemma occurrence_store: "occurrence_inv f \<Longrightarrow> later_runs (fl_store f) s' \<Longrightarrow> occurrence_inv (f\<lparr>fl_store := s'\<rparr>)"
  unfolding occurrence_inv_def later_runs_def by (fastforce dest: order_less_le_trans)

lemma later_runs_same: "view s' = view s \<Longrightarrow> later_runs s s'"
  by (simp add: later_runs_def)

lemma later_runs_reserved: "reserved_as k name now lease token (view s) (view s') r \<Longrightarrow> later_runs s s'"
  by (auto simp: later_runs_def reserved_as_def)

lemma occurrence_vanish: "occurrence_inv f \<Longrightarrow> occurrence_inv (f\<lparr>fl_holders := remove1 v (fl_holders f)\<rparr>)"
  using set_remove1_subset [of v "fl_holders f"] by (auto simp: occurrence_inv_def)

lemma occurrence_enter:
  assumes "invar (fl_store f)" "occurrence_inv f" "ss_Initialize st env ctx name t (fl_store f) = (s', r)"
  shows "occurrence_inv (f\<lparr>fl_store := s'\<rparr>)"
  by (rule occurrence_store [OF assms(2)]) (use initialize [OF assms(1,3)] in \<open>auto simp: later_runs_def\<close>)

lemma occurrence_reserve:
  assumes "invar (fl_store f)" "occurrence_inv f" "ss_Reserve st env ctx name (fl_clock f) lease (fl_store f) = (s', Inr v)"
  shows "occurrence_inv (f\<lparr>fl_store := s', fl_holders := v # fl_holders f\<rparr>)"
proof -
  obtain r where r: "reserved_as (\<lambda>t. t) name (fl_clock f) lease (sr_Token v) (view (fl_store f)) (view s') r"
    "st_NextRunAt (sr_Task v) = st_NextRunAt r"
    using reserve_ok [OF assms(1,3)] by blast
  have "st_NextRunAt (sr_Task v) \<le> fl_clock f" using r by (simp add: reserved_as_def)
  then show ?thesis using occurrence_store [OF assms(2) later_runs_reserved [OF r(1)]] by (simp add: occurrence_inv_def)
qed

lemma occurrence_refused:
  assumes "invar (fl_store f)" "occurrence_inv f" "ss_Reserve st env ctx name (fl_clock f) lease (fl_store f) = (s', Inl e)"
  shows "occurrence_inv (f\<lparr>fl_store := s'\<rparr>)"
  using reserve_error [OF assms(1,3)] by (blast intro: occurrence_store [OF assms(2)] later_runs_same later_runs_reserved)

lemma occurrence_complete:
  assumes f: "invar (fl_store f)" "occurrence_inv f" and v: "v \<in> set (fl_holders f)"
    and c: "ss_Complete st env ctx v nextRun (fl_clock f) er (fl_store f) = (s', res)"
  shows "occurrence_inv (f\<lparr>fl_store := s', fl_holders := remove1 v (fl_holders f),
    fl_completed := (if is_ok res then [(st_Name (sr_Task v), st_NextRunAt (sr_Task v))] else []) @ fl_completed f\<rparr>)"
proof (cases "view s' = view (fl_store f) \<and> \<not> is_ok res")
  case True
  then have "occurrence_inv (f\<lparr>fl_holders := remove1 v (fl_holders f), fl_store := s'\<rparr>)"
    by (intro occurrence_store [OF occurrence_vanish [OF f(2)]] later_runs_same) simp
  with True show ?thesis by (simp add: occurrence_inv_def)
next
  case False
  then obtain r r' where r: "fl_clock f < nextRun" "view (fl_store f) (st_Name (sr_Task v)) = Some (r, sr_Token v)"
    "st_NextRunAt r = st_NextRunAt (sr_Task v)" "view s' = (view (fl_store f))(st_Name (sr_Task v) \<mapsto> (r', []))" "st_NextRunAt r' = nextRun"
    using complete_effect [OF f(1) c] complete_next [OF f(1) c] by (auto simp: completed_as_def)
  have due: "st_NextRunAt (sr_Task v) < nextRun" using f(2) v r(1) by (force simp: occurrence_inv_def)
  have "occurrence_inv (f\<lparr>fl_holders := remove1 v (fl_holders f), fl_store := s'\<rparr>)"
    by (rule occurrence_store [OF occurrence_vanish [OF f(2)]]) (use r(2,3,5) due in \<open>auto simp: r(4) later_runs_def\<close>)
  moreover have "(st_Name (sr_Task v), st_NextRunAt (sr_Task v)) \<notin> set (fl_completed f)"
    using f(2) r(2,3) by (fastforce simp: occurrence_inv_def)
  ultimately show ?thesis using due r(4,5) by (auto simp: occurrence_inv_def)
qed

lemma occurrence_step:
  assumes "fleet_inv f" "occurrence_inv f" "fleet_step st f g"
  shows "occurrence_inv g"
  using assms(3)
proof cases
  case (tick now)
  with assms(2) show ?thesis by (fastforce simp: occurrence_inv_def)
next
  case (enter env name t s' r)
  with occurrence_enter assms(1,2) show ?thesis by (simp add: fleet_inv_def)
next
  case (reserve env ctx os name nextRun s' v fs)
  with occurrence_reserve assms(1,2) loop_reserve_store [OF reserve(2)] show ?thesis by (auto simp: fleet_inv_def)
next
  case (refused env ctx os name nextRun s' p fs)
  with occurrence_refused assms(1,2) loop_reserve_store [OF refused(2)] show ?thesis by (auto simp: fleet_inv_def)
next
  case (finish v env task call s' p fs completed)
  have inv: "invar (fl_store f)" using assms(1) by (simp add: fleet_inv_def)
  from loop_execute_store [OF finish(3,4)] show ?thesis
  proof (elim disjE conjE exE)
    assume "s' = fl_store f" "\<not> completed"
    with occurrence_vanish [OF assms(2), of v] show ?thesis unfolding finish(1) by simp
  next
    fix nextRun er res
    assume "ss_Complete st env LiveContext v nextRun (fl_clock f) er (fl_store f) = (s', res)" "completed = is_ok res"
    with occurrence_complete [OF inv assms(2) finish(2)] show ?thesis unfolding finish(1) by simp
  qed
next
  case (vanish v)
  with occurrence_vanish [OF assms(2)] show ?thesis by simp
qed

lemma occurrences_distinct:
  assumes "fleet_reach st f g" "fleet_inv f" "occurrence_inv f"
  shows "distinct (fl_completed g)"
proof -
  have "fleet_inv g \<and> occurrence_inv g"
    using assms by (induction rule: fleet_reach.induct) (auto dest: inv_step occurrence_step)
  then show ?thesis by (simp add: occurrence_inv_def)
qed

lemma occurrence_new: "occurrence_inv (new_fleet s now)"
  by (simp add: occurrence_inv_def new_fleet_def)

end

section \<open>The durable local store as a scheduler store\<close>

record task_env =
  tv_random :: "string option"
  tv_io :: append_io

definition file_scheduler_store :: "(task_env, FileSchedulerStore) SchedulerStore" where
  "file_scheduler_store =
     \<lparr>ss_Initialize = \<lambda>env ctx name t s. Initialize ctx name t (tv_io env) s,
      ss_State = \<lambda>env ctx name s. SchedulerState ctx name s,
      ss_Reserve = \<lambda>env ctx name now lease s. SchedulerReserve ctx name now lease (tv_random env) (tv_io env) s,
      ss_Complete = \<lambda>env ctx v t c er s. SchedulerComplete ctx v t c er (tv_io env) s\<rparr>"

definition task_view :: "FileSchedulerStore \<Rightarrow> string \<Rightarrow> (StoredScheduledTask \<times> string) option" where
  "task_view s name = map_option (\<lambda>r. (ft_state r, ft_reservationToken r)) (map_of (fss_tasks s) name)"

lemma task_view_update:
  "fss_tasks s' = AList.update k r (fss_tasks s) \<Longrightarrow> task_view s' = (task_view s)(k \<mapsto> (ft_state r, ft_reservationToken r))"
  by (rule ext) (simp add: task_view_def map_of_update)

lemma task_view_same: "fss_tasks s' = fss_tasks s \<Longrightarrow> task_view s' = task_view s \<and> keyed_tasks s' = keyed_tasks s"
  by (auto simp: fun_eq_iff task_view_def keyed_tasks_def)

lemma keyed_tasks_update:
  "keyed_tasks s \<Longrightarrow> fss_tasks s' = AList.update k r (fss_tasks s) \<Longrightarrow> st_Name (ft_state r) = k \<Longrightarrow> keyed_tasks s'"
  by (simp add: keyed_tasks_def list_all_update)

lemma SchedulerReserve_ok:
  assumes "SchedulerReserve ctx name now lease random io s = (s', Inr v)"
  obtains r where "map_of (fss_tasks s) name = Some r" "ft_reservationToken r = [] \<or> st_ReservedUntil (ft_state r) \<le> now"
    "st_NextRunAt (ft_state r) \<le> now" "sr_ReservedUntil v = now + lease"
    "sr_Task v = (ft_state r)\<lparr>st_ReservedUntil := now + lease\<rparr>"
    "fss_tasks s' = AList.update name (r\<lparr>ft_reservationToken := sr_Token v,
       ft_state := (ft_state r)\<lparr>st_ReservedUntil := now + lease\<rparr>\<rparr>) (fss_tasks s)"
  using assms
  by (auto simp: SchedulerReserve_def Let_def scheduler_append_ok_iff not_less
      split: if_splits option.splits sum.splits prod.splits)

lemma SchedulerReserve_error:
  "SchedulerReserve ctx name now lease random io s = (s', Inl e) \<Longrightarrow> fss_tasks s' = fss_tasks s"
  by (auto simp: SchedulerReserve_def Let_def scheduler_append_frame
      split: if_splits option.splits sum.splits prod.splits)

lemma SchedulerComplete_ok:
  assumes "SchedulerComplete ctx v nextRun completed er io s = (s', Inr u)"
  obtains r where "map_of (fss_tasks s) (st_Name (sr_Task v)) = Some r" "ft_reservationToken r = sr_Token v"
    "st_NextRunAt (ft_state r) = st_NextRunAt (sr_Task v)" "sr_Token v \<noteq> []" "completed < nextRun"
    "fss_tasks s' = AList.update (st_Name (ft_state r)) (completed_task (st_NextRunAt (sr_Task v)) nextRun completed
       (normalizeFileSchedulerStoreError er) r) (fss_tasks s)"
  using assms
  by (auto simp: SchedulerComplete_def Let_def scheduler_append_ok_iff split: if_splits option.splits sum.splits prod.splits)

lemma SchedulerComplete_error:
  "SchedulerComplete ctx v nextRun completed er io s = (s', Inl e) \<Longrightarrow> fss_tasks s' = fss_tasks s"
  by (auto simp: SchedulerComplete_def Let_def scheduler_append_frame
      split: if_splits option.splits sum.splits prod.splits)

interpretation file_tasks: exact_scheduler_store file_scheduler_store task_view keyed_tasks
proof (unfold_locales, goal_cases)
  case (1 s env ctx name now lease s' v)
  from 1(2) have res: "SchedulerReserve ctx name now lease (tv_random env) (tv_io env) s = (s', Inr v)"
    by (simp add: file_scheduler_store_def)
  obtain r where r: "map_of (fss_tasks s) name = Some r" "ft_reservationToken r = [] \<or> st_ReservedUntil (ft_state r) \<le> now"
    "st_NextRunAt (ft_state r) \<le> now" "sr_ReservedUntil v = now + lease"
    "sr_Task v = (ft_state r)\<lparr>st_ReservedUntil := now + lease\<rparr>"
    "fss_tasks s' = AList.update name (r\<lparr>ft_reservationToken := sr_Token v,
       ft_state := (ft_state r)\<lparr>st_ReservedUntil := now + lease\<rparr>\<rparr>) (fss_tasks s)"
    by (rule SchedulerReserve_ok [OF res])
  have n: "st_Name (ft_state r) = name" by (rule keyed_tasks_lookup [OF 1(1) r(1)])
  have "keyed_tasks s'" by (rule keyed_tasks_update [OF 1(1) r(6)]) (simp add: n)
  with r n task_view_update [OF r(6)] show ?case by (auto simp: task_view_def reserved_as_def intro!: exI [of _ "ft_state r"])
next
  case (2 s env ctx name now lease s' e)
  then have "fss_tasks s' = fss_tasks s" by (intro SchedulerReserve_error) (simp add: file_scheduler_store_def)
  from task_view_same [OF this] 2(1) show ?case by simp
next
  case (3 s env ctx v nextRun completed er s' u)
  from 3(2) have c: "SchedulerComplete ctx v nextRun completed er (tv_io env) s = (s', Inr u)"
    by (simp add: file_scheduler_store_def)
  obtain r where r: "map_of (fss_tasks s) (st_Name (sr_Task v)) = Some r" "ft_reservationToken r = sr_Token v"
    "st_NextRunAt (ft_state r) = st_NextRunAt (sr_Task v)" "sr_Token v \<noteq> []" "completed < nextRun"
    "fss_tasks s' = AList.update (st_Name (ft_state r)) (completed_task (st_NextRunAt (sr_Task v)) nextRun completed
       (normalizeFileSchedulerStoreError er) r) (fss_tasks s)"
    by (rule SchedulerComplete_ok [OF c])
  have n: "st_Name (ft_state r) = st_Name (sr_Task v)" by (rule keyed_tasks_lookup [OF 3(1) r(1)])
  have "keyed_tasks s'" by (rule keyed_tasks_update [OF 3(1) r(6)]) simp
  with r n task_view_update [OF r(6)] show ?case by (auto simp: task_view_def completed_as_def)
next
  case (4 s env ctx v nextRun completed er s' e)
  then have "fss_tasks s' = fss_tasks s" by (intro SchedulerComplete_error) (simp add: file_scheduler_store_def)
  from task_view_same [OF this] 4(1) show ?case by simp
next
  case (5 s env ctx name nextRun s' r)
  from 5(2) have i: "Initialize ctx name nextRun (tv_io env) s = (s', r)" by (simp add: file_scheduler_store_def)
  from Initialize_tasks [OF i] show ?case
  proof
    assume n: "map_of (fss_tasks s) name = None \<and> fss_tasks s' = AList.update name (new_task name nextRun) (fss_tasks s)"
    then have "keyed_tasks s'" using keyed_tasks_update [OF 5(1)] by simp
    with n task_view_update [of s' name "new_task name nextRun" s] show ?thesis by (auto simp: task_view_def)
  qed (use task_view_same [of s' s] 5(1) in simp)
next
  case (6 s env ctx v nextRun completed er s' res)
  then have c: "SchedulerComplete ctx v nextRun completed er (tv_io env) s = (s', res)" by (simp add: file_scheduler_store_def)
  show ?case
  proof (cases res)
    case (Inl e)
    with c task_view_same [OF SchedulerComplete_error] show ?thesis by auto
  next
    case (Inr u)
    with c have c: "SchedulerComplete ctx v nextRun completed er (tv_io env) s = (s', Inr u)" by simp
    obtain r where r: "map_of (fss_tasks s) (st_Name (sr_Task v)) = Some r" "completed < nextRun"
      "fss_tasks s' = AList.update (st_Name (ft_state r)) (completed_task (st_NextRunAt (sr_Task v)) nextRun completed
         (normalizeFileSchedulerStoreError er) r) (fss_tasks s)"
      by (rule SchedulerComplete_ok [OF c])
    have "st_Name (ft_state r) = st_Name (sr_Task v)" by (rule keyed_tasks_lookup [OF 6(1) r(1)])
    then show ?thesis using r(2) task_view_update [OF r(3)] by simp
  qed
qed

section \<open>Properties\<close>

text \<open>
  C20. At most one scheduler runs a task at a time. However many schedulers share the durable store,
  however their reservations, runs, completions and crashes interleave, and whatever the store's file
  does, two runs of the same task that are both within their leases never coexist.
\<close>

theorem one_scheduler_runs_a_task:
  assumes "keyed_tasks s" "fleet_reach file_scheduler_store (new_fleet s now) f"
    "i < length (fl_holders f)" "j < length (fl_holders f)" "i \<noteq> j"
    "fl_clock f < sr_ReservedUntil (fl_holders f ! i)" "fl_clock f < sr_ReservedUntil (fl_holders f ! j)"
  shows "st_Name (sr_Task (fl_holders f ! i)) \<noteq> st_Name (sr_Task (fl_holders f ! j))"
  using file_tasks.one_live [OF file_tasks.inv_reach [OF assms(2) file_tasks.inv_new [OF assms(1)]] assms(3-5)]
    assms(6,7) by (simp add: live_def)

text \<open>
  C21. An occurrence is completed once. In any such run of the fleet, the occurrences (task and
  scheduled time) whose completion the store accepted are all different.
\<close>

theorem occurrence_completed_once:
  assumes "keyed_tasks s" "fleet_reach file_scheduler_store (new_fleet s now) f"
  shows "distinct (fl_completed f)"
  by (rule file_tasks.occurrences_distinct [OF assms(2) file_tasks.inv_new [OF assms(1)] file_tasks.occurrence_new])

text \<open>Two schedulers and two tasks, both due.\<close>

definition two_tasks :: FileSchedulerStore where
  "two_tasks = example_scheduler_store\<lparr>fss_tasks := [(''a'', new_task ''a'' 5), (''b'', new_task ''b'' 5)]\<rparr>"

definition fleet_options :: SchedulerOptions where
  "fleet_options = \<lparr>sc_TaskTimeout = 5, sc_HasStore = True, sc_PollInterval = 1, sc_LeaseDuration = 20\<rparr>"

definition reserve_at :: "string \<Rightarrow> string \<Rightarrow> FileSchedulerStore \<Rightarrow> FileSchedulerStore \<times> loop_place \<times> ScheduledTaskFailure list" where
  "reserve_at random name s =
     loop_reserve file_scheduler_store \<lparr>tv_random = Some random, tv_io = AppendOk\<rparr> LiveContext fleet_options name 5 10 s"

definition reservation :: "loop_place \<Rightarrow> ScheduledTaskReservation" where
  "reservation p = (case p of AtExecute v \<Rightarrow> v | _ \<Rightarrow> undefined)"

definition first_run :: "FileSchedulerStore \<times> loop_place \<times> ScheduledTaskFailure list" where
  "first_run = reserve_at ''x'' ''a'' two_tasks"

definition second_run :: "FileSchedulerStore \<times> loop_place \<times> ScheduledTaskFailure list" where
  "second_run = reserve_at ''y'' ''b'' (fst first_run)"

lemma first_run_ok:
  "first_run = (fst first_run, AtExecute (reservation (fst (snd first_run))), snd (snd first_run))"
  "sr_Token (reservation (fst (snd first_run))) = ''78''" "sr_ReservedUntil (reservation (fst (snd first_run))) = 30"
  by code_simp+

lemma second_run_ok:
  "second_run = (fst second_run, AtExecute (reservation (fst (snd second_run))), snd (snd second_run))"
  "sr_Token (reservation (fst (snd second_run))) = ''79''" "sr_ReservedUntil (reservation (fst (snd second_run))) = 30"
  by code_simp+

definition two_runs :: "FileSchedulerStore fleet" where
  "two_runs = \<lparr>fl_store = fst second_run, fl_clock = 10,
     fl_holders = [reservation (fst (snd second_run)), reservation (fst (snd first_run))], fl_completed = []\<rparr>"

lemma two_runs_reached: "fleet_reach file_scheduler_store (new_fleet two_tasks 10) two_runs"
proof -
  let ?g = "\<lparr>fl_store = fst first_run, fl_clock = 10, fl_holders = [reservation (fst (snd first_run))], fl_completed = []\<rparr>"
  have "fleet_step file_scheduler_store (new_fleet two_tasks 10) ?g"
    using fleet_step.reserve [of file_scheduler_store "\<lparr>tv_random = Some ''x'', tv_io = AppendOk\<rparr>" LiveContext fleet_options
        "''a''" 5 "new_fleet two_tasks 10"] first_run_ok
    by (simp add: first_run_def reserve_at_def new_fleet_def)
  moreover have "fleet_step file_scheduler_store ?g two_runs"
    using fleet_step.reserve [of file_scheduler_store "\<lparr>tv_random = Some ''y'', tv_io = AppendOk\<rparr>" LiveContext fleet_options
        "''b''" 5 ?g] first_run_ok(2) second_run_ok
    by (simp add: second_run_def reserve_at_def two_runs_def)
  ultimately show ?thesis by (blast intro: fleet_reach.intros)
qed

theorem one_scheduler_runs_a_task_witness:
  "st_Name (sr_Task (fl_holders two_runs ! 0)) \<noteq> st_Name (sr_Task (fl_holders two_runs ! 1))"
proof (rule one_scheduler_runs_a_task)
  show "keyed_tasks two_tasks" by code_simp
  show "fleet_reach file_scheduler_store (new_fleet two_tasks 10) two_runs" by (rule two_runs_reached)
qed (simp_all add: two_runs_def first_run_ok(2,3) second_run_ok(2,3))

definition hourly :: scheduledTaskEntry where
  "hourly = \<lparr>te_name = ''a'', te_schedule = fixedDelaySchedule 7, te_run = \<lambda>_. TaskFails ''no''\<rparr>"

definition run_over :: "FileSchedulerStore \<times> loop_place \<times> ScheduledTaskFailure list" where
  "run_over = loop_execute file_scheduler_store \<lparr>tv_random = None, tv_io = AppendOk\<rparr> hourly
     (reservation (fst (snd first_run))) 0 10 (fst second_run)"

definition one_run_left :: "FileSchedulerStore fleet" where
  "one_run_left = \<lparr>fl_store = fst run_over, fl_clock = 10, fl_holders = [reservation (fst (snd second_run))],
     fl_completed = [(''a'', 5)]\<rparr>"

lemma one_run_left_reached: "fleet_reach file_scheduler_store (new_fleet two_tasks 10) one_run_left"
proof -
  let ?v = "reservation (fst (snd first_run))"
  have ok: "is_ok (snd (ss_Complete file_scheduler_store \<lparr>tv_random = None, tv_io = AppendOk\<rparr> LiveContext ?v
      (fl_clock two_runs + (case te_schedule hourly (fl_clock two_runs) of None \<Rightarrow> 0 | Some d \<Rightarrow> d)) (fl_clock two_runs)
      (case fst (executeContext None hourly 0 (st_NextRunAt (sr_Task ?v))) of None \<Rightarrow> [] | Some e \<Rightarrow> e) (fl_store two_runs)))"
    by code_simp
  have v: "st_Name (sr_Task ?v) = ''a''" "st_NextRunAt (sr_Task ?v) = 5" by code_simp+
  have ne: "reservation (fst (snd second_run)) \<noteq> ?v" using first_run_ok(2) second_run_ok(2) by auto
  have "fleet_step file_scheduler_store two_runs one_run_left"
    using fleet_step.finish [of ?v two_runs file_scheduler_store "\<lparr>tv_random = None, tv_io = AppendOk\<rparr>" hourly 0
        "fst run_over" "fst (snd run_over)" "snd (snd run_over)" True] ok v ne
    by (simp add: two_runs_def one_run_left_def run_over_def hourly_def fixedDelaySchedule_def)
  then show ?thesis using two_runs_reached by (blast intro: fleet_reach.step)
qed

theorem occurrence_completed_once_witness: "fl_completed one_run_left = [(''a'', 5)] \<and> distinct (fl_completed one_run_left)"
proof
  show "fl_completed one_run_left = [(''a'', 5)]" by (simp add: one_run_left_def)
  show "distinct (fl_completed one_run_left)"
  proof (rule occurrence_completed_once)
    show "keyed_tasks two_tasks" by code_simp
    show "fleet_reach file_scheduler_store (new_fleet two_tasks 10) one_run_left" by (rule one_run_left_reached)
  qed
qed

end
