(* ===== verification/SqlSchedulerFleet.thy ===== *)
theory SqlSchedulerFleet
  imports SqlSchedulerStore SchedulerFleet
begin

text \<open>
  Schedulers on an SQL database: the contract \<open>scheduler_store\<close> is interpreted by the SQL store, for any database that runs its statements as the
  standard says, however out of date the queries are.
\<close>

section \<open>What the statements do\<close>

definition sql_task_view :: "'d task_sql \<Rightarrow> 'd \<Rightarrow> string \<Rightarrow> (StoredScheduledTask \<times> string) option" where
  "sql_task_view D d name =
     map_option (\<lambda>row. (\<lparr>st_Name = tr_name row, st_NextRunAt = time_unix_micro (tr_next_run_at row),
            st_LastScheduledAt = (case tr_last_scheduled_at row of None \<Rightarrow> 0 | Some n \<Rightarrow> time_unix_micro n),
            st_LastCompletedAt = (case tr_last_completed_at row of None \<Rightarrow> 0 | Some n \<Rightarrow> time_unix_micro n),
            st_LastError = (case tr_last_error row of None \<Rightarrow> [] | Some e \<Rightarrow> e),
            st_ReservedUntil = (case tr_reserved_until row of None \<Rightarrow> 0 | Some n \<Rightarrow> time_unix_micro n)\<rparr>,
          case tr_reservation_token row of None \<Rightarrow> [] | Some t \<Rightarrow> t)) (row_at tr_name D d name)"

lemma sql_task_view_same: "row_at tr_name D d' = row_at tr_name D d \<Longrightarrow> sql_task_view D d' = sql_task_view D d"
  by (simp add: sql_task_view_def fun_eq_iff)

lemma sql_task_view_row: "row_at tr_name D d' = (row_at tr_name D d)(name \<mapsto> row) \<Longrightarrow>
    sql_task_view D d' = (sql_task_view D d)(name := sql_task_view D d' name)"
  by (simp add: sql_task_view_def fun_eq_iff)

lemma reserve_task_row_effect:
  assumes T: "sql_table tr_name D"
    and run: "reserve_task_row D token (unix_micro (now + lease)) name (unix_micro nextRun) (unix_micro now) d = (d', n)"
  shows "n = 0 \<and> sql_task_view D d' = sql_task_view D d \<or>
    n = 1 \<and> (\<exists>r. reserved_as whole_micros name now lease token (sql_task_view D d) (sql_task_view D d') r \<and> st_NextRunAt r = whole_micros nextRun)"
proof -
  define f where "f = (\<lambda>row. row\<lparr>tr_reservation_token := Some token, tr_reserved_until := Some (unix_micro (now + lease))\<rparr> :: sql_task_row)"
  define P where "P = (\<lambda>row :: sql_task_row. tr_name row = name \<and> tr_next_run_at row = unix_micro nextRun \<and> tr_next_run_at row \<le> unix_micro now \<and>
              (tr_reservation_token row = None \<or> at_most (tr_reserved_until row) (unix_micro now)))"
  have "UPDATE D f P d = (d', n)" using run unfolding reserve_task_row_def f_def P_def .
  then have u: "d' = fst (UPDATE D f P d)" "n = snd (UPDATE D f P d)" by simp_all
  have row: "tr_name r = name" if "P r" for r using that by (simp add: P_def)
  have key: "tr_name (f r) = tr_name r" for r by (simp add: f_def)
  show ?thesis
  proof (rule update_count [OF T row key])
    assume z: "snd (UPDATE D f P d) = 0" "row_at tr_name D (fst (UPDATE D f P d)) = row_at tr_name D d"
    show ?thesis by (rule disjI1) (simp only: u z sql_task_view_same [OF z(2)] simp_thms)
  next
    fix r assume r: "snd (UPDATE D f P d) = 1" "row_at tr_name D d name = Some r" "P r"
      "row_at tr_name D (fst (UPDATE D f P d)) = (row_at tr_name D d)(name \<mapsto> f r)"
    have "tr_next_run_at r \<le> unix_micro now \<Longrightarrow> time_unix_micro (tr_next_run_at r) \<le> now"
      "at_most (tr_reserved_until r) (unix_micro now) \<Longrightarrow> (case tr_reserved_until r of None \<Rightarrow> 0 | Some n \<Rightarrow> time_unix_micro n) \<le> now"
      by (auto simp: micros_before at_most_def split: option.splits)
    then show ?thesis
      using r sql_task_view_row [OF r(4)] by (auto simp: u reserved_as_def sql_task_view_def whole_micros_def P_def f_def)
  qed
qed

lemma complete_task_row_effect:
  assumes T: "sql_table tr_name D" and token: "sr_Token v \<noteq> []"
    and run: "complete_task_row D (st_Name (sr_Task v)) (sr_Token v) (unix_micro (st_NextRunAt (sr_Task v))) nextRun completed er d = (d', n)"
  shows "n = 0 \<and> sql_task_view D d' = sql_task_view D d \<or> n = 1 \<and> completed_as whole_micros v (sql_task_view D d) (sql_task_view D d')"
proof -
  define f where "f = (\<lambda>row. row\<lparr>tr_next_run_at := nextRun, tr_last_scheduled_at := Some (unix_micro (st_NextRunAt (sr_Task v))),
    tr_last_completed_at := Some completed, tr_last_error := Some er, tr_reservation_token := None, tr_reserved_until := None\<rparr> :: sql_task_row)"
  define P where "P = (\<lambda>row :: sql_task_row. tr_name row = st_Name (sr_Task v) \<and> tr_reservation_token row = Some (sr_Token v) \<and>
    tr_next_run_at row = unix_micro (st_NextRunAt (sr_Task v)))"
  have "UPDATE D f P d = (d', n)" using run unfolding complete_task_row_def f_def P_def .
  then have u: "d' = fst (UPDATE D f P d)" "n = snd (UPDATE D f P d)" by simp_all
  have row: "tr_name r = st_Name (sr_Task v)" if "P r" for r using that by (simp add: P_def)
  have key: "tr_name (f r) = tr_name r" for r by (simp add: f_def)
  show ?thesis
  proof (rule update_count [OF T row key])
    assume z: "snd (UPDATE D f P d) = 0" "row_at tr_name D (fst (UPDATE D f P d)) = row_at tr_name D d"
    show ?thesis by (rule disjI1) (simp only: u z sql_task_view_same [OF z(2)] simp_thms)
  next
    fix r assume r: "snd (UPDATE D f P d) = 1" "row_at tr_name D d (st_Name (sr_Task v)) = Some r" "P r"
      "row_at tr_name D (fst (UPDATE D f P d)) = (row_at tr_name D d)(st_Name (sr_Task v) \<mapsto> f r)"
    then show ?thesis
      using sql_task_view_row [OF r(4)] token by (auto simp: u completed_as_def sql_task_view_def whole_micros_def P_def f_def)
  qed
qed

section \<open>The SQL store as a scheduler store\<close>

record sql_task_env =
  qe_before :: "bool option"
  qe_io :: exec_io
  qe_after :: "bool option"
  qe_query :: "sql_task_row seen"
  qe_rounds :: "(sql_task_row seen \<times> string option \<times> exec_io) list"

definition sql_scheduler_store :: "'d task_sql \<Rightarrow> (sql_task_env, 'd) SchedulerStore" where
  "sql_scheduler_store D =
     \<lparr>ss_Initialize = \<lambda>env ctx name t d. SqlSchedulerInitialize D ctx name t (qe_before env) (qe_io env) (qe_after env) d,
      ss_State = \<lambda>env ctx name d. SqlSchedulerState ctx name (qe_query env),
      ss_Reserve = \<lambda>env ctx name now lease d. SqlSchedulerReserve D ctx name now lease (qe_rounds env) d,
      ss_Complete = \<lambda>env ctx v t c er d. SqlSchedulerComplete D ctx v t c er (qe_io env) d\<rparr>"

lemma scanned_task:
  assumes "scanSQLStoredScheduledTask row = Some q"
  shows "st_Name (qt_state q) = tr_name row" "whole_micros (st_NextRunAt (qt_state q)) = st_NextRunAt (qt_state q)"
proof -
  show "st_Name (qt_state q) = tr_name row" using assms by (auto simp: scanSQLStoredScheduledTask_def split: if_splits)
  have "st_NextRunAt (qt_state q) = time_unix_micro (tr_next_run_at row)"
    using assms by (auto simp: scanSQLStoredScheduledTask_def split: if_splits)
  then show "whole_micros (st_NextRunAt (qt_state q)) = st_NextRunAt (qt_state q)"
    by (simp add: whole_micros_def unix_micro_def time_unix_micro_def)
qed

lemma sql_reserve_rounds_effect:
  assumes T: "sql_table tr_name D" and named: "list_all (\<lambda>r. seen_named name (fst r)) rounds"
    and run: "sql_reserve_rounds D name now (now + lease) rounds d = (d', res)"
  shows "sql_task_view D d' = sql_task_view D d \<and> \<not> is_ok res \<or>
    (\<exists>token q. reserved_as whole_micros name now lease token (sql_task_view D d) (sql_task_view D d') q \<and>
       (\<forall>v. res = Inr v \<longrightarrow> sr_Token v = token \<and> st_Name (sr_Task v) = name \<and> sr_ReservedUntil v = now + lease \<and>
          st_NextRunAt (sr_Task v) = st_NextRunAt q))"
  using named run
proof (induction rounds arbitrary: d)
  case (Cons x rounds)
  obtain query random io where x: "x = (query, random, io)" by (cases x) auto
  show ?case
  proof (cases "\<exists>row q token. query = SeenRow row \<and> scanSQLStoredScheduledTask row = Some q \<and> newSchedulerReservationToken random = Inr token \<and>
      \<not> (qt_reservationToken q \<noteq> [] \<and> st_ReservedUntil (qt_state q) > now) \<and> \<not> st_NextRunAt (qt_state q) > now")
    case False
    with Cons.prems(2) show ?thesis by (auto simp: x split: seen.splits option.splits if_splits sum.splits)
  next
    case True
    then obtain row q token where q: "query = SeenRow row" "scanSQLStoredScheduledTask row = Some q" "newSchedulerReservationToken random = Inr token"
      "\<not> (qt_reservationToken q \<noteq> [] \<and> st_ReservedUntil (qt_state q) > now)" "\<not> st_NextRunAt (qt_state q) > now" by blast
    have name: "st_Name (qt_state q) = name" using Cons.prems(1) scanned_task(1) [OF q(2)] by (simp add: x q(1) seen_named_def)
    let ?stmt = "reserve_task_row D token (unix_micro (now + lease)) name (unix_micro (st_NextRunAt (qt_state q))) (unix_micro now)"
    obtain d1 a where e: "exec io ?stmt d = (d1, a)" by force
    obtain d2 n where s: "?stmt d = (d2, n)" by force
    note eff = reserve_task_row_effect [OF T s]
    have res: "(d', res) = (case a of ExecFailed \<Rightarrow> (d1, Inl (sqlSchedulerStoreError ''reserve task''))
        | CountFailed \<Rightarrow> (d1, Inl (sqlSchedulerStoreError ''inspect reservation''))
        | Affected n \<Rightarrow> if n = 0 then sql_reserve_rounds D name now (now + lease) rounds d1
            else if n \<noteq> 1 then (d1, Inl (sqlSchedulerStoreError ''reserve task''))
            else (d1, Inr \<lparr>sr_Task = (qt_state q)\<lparr>st_ReservedUntil := now + lease\<rparr>, sr_Token = token, sr_ReservedUntil = now + lease\<rparr>))"
      using Cons.prems(2) q e by (simp add: x sqlSchedulerStoreTime_def not_less)
    show ?thesis
    proof (cases "a = Affected 0")
      case True
      then have "sql_task_view D d1 = sql_task_view D d" using e eff s by (auto elim!: exec_cases)
      moreover have "sql_reserve_rounds D name now (now + lease) rounds d1 = (d', res)" using res True by simp
      ultimately show ?thesis using Cons.IH [of d1] Cons.prems(1) by simp
    next
      case False
      then have d1: "d' = d1" "\<And>v. res = Inr v \<Longrightarrow> a = Affected 1 \<and>
          v = \<lparr>sr_Task = (qt_state q)\<lparr>st_ReservedUntil := now + lease\<rparr>, sr_Token = token, sr_ReservedUntil = now + lease\<rparr>"
        using res by (auto split: exec_result.splits if_splits)
      from e show ?thesis
      proof (rule exec_cases)
        assume "d1 = fst (?stmt d)" "\<And>n. a = Affected n \<Longrightarrow> n = snd (?stmt d)"
        then have ran: "d1 = d2" "\<And>m. a = Affected m \<Longrightarrow> m = n" using s by simp_all
        from eff show ?thesis
        proof (elim disjE conjE exE)
          fix r
          assume "reserved_as whole_micros name now lease token (sql_task_view D d) (sql_task_view D d2) r"
            "st_NextRunAt r = whole_micros (st_NextRunAt (qt_state q))"
          then show ?thesis using d1 ran(1) name scanned_task(2) [OF q(2)] by (intro disjI2 exI [of _ token] exI [of _ r]) auto
        next
          assume n: "n = 0" "sql_task_view D d2 = sql_task_view D d"
          then have "\<not> is_ok res" using d1(2) ran(2) by (fastforce simp: is_ok_iff)
          then show ?thesis using n(2) d1(1) ran(1) by simp
        qed
      next
        assume "d1 = d" "\<And>n. a \<noteq> Affected n"
        then show ?thesis using d1 by (auto simp: is_ok_iff)
      qed
    qed
  qed
qed (use is_ok.simps(1) in fastforce)

lemma SqlSchedulerReserve_effect:
  assumes T: "sql_table tr_name D" and run: "SqlSchedulerReserve D ctx name now lease rounds d = (d', res)"
  shows "sql_task_view D d' = sql_task_view D d \<and> \<not> is_ok res \<or>
    (\<exists>token q. reserved_as whole_micros name now lease token (sql_task_view D d) (sql_task_view D d') q \<and>
       (\<forall>v. res = Inr v \<longrightarrow> sr_Token v = token \<and> st_Name (sr_Task v) = name \<and> sr_ReservedUntil v = now + lease \<and>
          st_NextRunAt (sr_Task v) = st_NextRunAt q))"
proof (cases "sql_reserve_rounds D name now (now + lease) (takeWhile (\<lambda>r. seen_named name (fst r)) rounds) d = (d', res)")
  case True
  have "list_all (\<lambda>r. seen_named name (fst r)) (takeWhile (\<lambda>r. seen_named name (fst r)) rounds)"
    by (auto simp: list_all_iff dest: set_takeWhileD)
  from sql_reserve_rounds_effect [OF T this True] show ?thesis .
next
  case False
  with run show ?thesis by (auto simp: SqlSchedulerReserve_def split: option.splits if_splits)
qed

lemma SqlSchedulerComplete_effect:
  assumes T: "sql_table tr_name D" and run: "SqlSchedulerComplete D ctx v nextRun completed er io d = (d', res)"
  shows "sql_task_view D d' = sql_task_view D d \<and> \<not> is_ok res \<or> completed_as whole_micros v (sql_task_view D d) (sql_task_view D d')"
proof (cases "d' = d \<and> \<not> is_ok res")
  case False
  let ?stmt = "complete_task_row D (st_Name (sr_Task v)) (sr_Token v) (unix_micro (st_NextRunAt (sr_Task v))) (unix_micro nextRun) (unix_micro completed)
    (normalizeFileSchedulerStoreError er)"
  obtain d1 a where e: "exec io ?stmt d = (d1, a)" by force
  obtain d2 n where s: "?stmt d = (d2, n)" by force
  have t: "sr_Token v \<noteq> []" and ok: "d' = d1" "is_ok res \<Longrightarrow> a = Affected 1"
    using run False e by (auto simp: SqlSchedulerComplete_def sqlSchedulerStoreTime_def split: option.splits if_splits exec_result.splits)
  from e show ?thesis
  proof (rule exec_cases)
    assume "d1 = fst (?stmt d)" "\<And>n. a = Affected n \<Longrightarrow> n = snd (?stmt d)"
    then have "d1 = d2" "is_ok res \<Longrightarrow> n = 1" using s ok(2) by auto
    then show ?thesis using complete_task_row_effect [OF T t s] ok(1) by auto
  next
    assume "d1 = d" "\<And>n. a \<noteq> Affected n"
    then show ?thesis using ok by auto
  qed
qed simp

lemma SqlSchedulerInitialize_effect:
  assumes T: "sql_table tr_name D" and run: "SqlSchedulerInitialize D ctx name nextRun before io after d = (d', res)"
  shows "sql_task_view D d' = sql_task_view D d \<or>
    sql_task_view D d name = None \<and> (\<exists>q. sql_task_view D d' = (sql_task_view D d)(name \<mapsto> (q, [])))"
proof (cases "d' = d")
  case False
  let ?row = "\<lparr>tr_name = name, tr_next_run_at = sqlSchedulerStoreTime nextRun, tr_last_scheduled_at = None, tr_last_completed_at = None,
    tr_last_error = None, tr_reservation_token = None, tr_reserved_until = None\<rparr>"
  have i: "INSERT D ?row d = Some d'"
    using run False by (auto simp: SqlSchedulerInitialize_def Let_def split: option.splits if_splits bool.splits)
  note r = row_at_insert [OF T i]
  from r(2) have r2: "row_at tr_name D d' = (row_at tr_name D d)(name \<mapsto> ?row)" by simp
  show ?thesis using r(1) sql_task_view_row [OF r2] by (intro disjI2) (auto simp: sql_task_view_def r2)
qed simp

interpretation sql_tasks: scheduler_store "sql_scheduler_store D" "sql_task_view D" "\<lambda>d. sql_table tr_name D" whole_micros
  for D :: "'d task_sql"
proof (unfold_locales, goal_cases)
  case (1 s env ctx name now lease s' v)
  then have "SqlSchedulerReserve D ctx name now lease (qe_rounds env) s = (s', Inr v)" by (simp add: sql_scheduler_store_def)
  from SqlSchedulerReserve_effect [OF 1(1) this] 1(1) show ?case by auto
next
  case (2 s env ctx name now lease s' e)
  then have "SqlSchedulerReserve D ctx name now lease (qe_rounds env) s = (s', Inl e)" by (simp add: sql_scheduler_store_def)
  from SqlSchedulerReserve_effect [OF 2(1) this] 2(1) show ?case by auto
next
  case (3 s env ctx v nextRun completed er s' u)
  then have "SqlSchedulerComplete D ctx v nextRun completed er (qe_io env) s = (s', Inr u)" by (simp add: sql_scheduler_store_def)
  from SqlSchedulerComplete_effect [OF 3(1) this] 3(1) show ?case by auto
next
  case (4 s env ctx v nextRun completed er s' e)
  then have "SqlSchedulerComplete D ctx v nextRun completed er (qe_io env) s = (s', Inl e)" by (simp add: sql_scheduler_store_def)
  from SqlSchedulerComplete_effect [OF 4(1) this] 4(1) show ?case by auto
next
  case (5 s env ctx name nextRun s' r)
  then have "SqlSchedulerInitialize D ctx name nextRun (qe_before env) (qe_io env) (qe_after env) s = (s', r)"
    by (simp add: sql_scheduler_store_def)
  from SqlSchedulerInitialize_effect [OF 5(1) this] 5(1) show ?case by auto
qed

section \<open>Properties\<close>

text \<open>
  C5. At most one scheduler runs a task at a time, also on an SQL database without transactions. However many schedulers share the table, however
  their statements interleave, fail and lose replies, and however out of date their queries are, two runs of the same task that
  are both within their leases, counted in whole microseconds, never coexist.
\<close>

theorem one_scheduler_runs_an_sql_task:
  assumes "sql_table tr_name D" "fleet_reach (sql_scheduler_store D) (new_fleet d now) f"
    "i < length (fl_holders f)" "j < length (fl_holders f)" "i \<noteq> j"
    "fl_clock f < whole_micros (sr_ReservedUntil (fl_holders f ! i))" "fl_clock f < whole_micros (sr_ReservedUntil (fl_holders f ! j))"
  shows "st_Name (sr_Task (fl_holders f ! i)) \<noteq> st_Name (sr_Task (fl_holders f ! j))"
  using sql_tasks.one_live [OF sql_tasks.inv_reach [OF assms(2) sql_tasks.inv_new [OF assms(1)]] assms(3-5)]
    assms(6,7) by (simp add: live_def)

text \<open>Two tasks in a table; the first round of the second reservation saw the row of a run that has ended.\<close>

definition due_row :: "string \<Rightarrow> sql_task_row" where
  "due_row name = \<lparr>tr_name = name, tr_next_run_at = 5, tr_last_scheduled_at = None, tr_last_completed_at = None, tr_last_error = None,
     tr_reservation_token = None, tr_reserved_until = None\<rparr>"

definition leased_row :: "string \<Rightarrow> string \<Rightarrow> sql_task_row" where
  "leased_row name token = (due_row name)\<lparr>tr_reservation_token := Some token, tr_reserved_until := Some 30\<rparr>"

definition sql_run_now :: instant where "sql_run_now = unix_epoch + 10000"

definition sql_run :: "string \<Rightarrow> string \<Rightarrow> ScheduledTaskReservation" where
  "sql_run name token =
     \<lparr>sr_Task = \<lparr>st_Name = name, st_NextRunAt = time_unix_micro 5, st_LastScheduledAt = 0, st_LastCompletedAt = 0, st_LastError = [],
        st_ReservedUntil = sql_run_now + 20000\<rparr>, sr_Token = token, sr_ReservedUntil = sql_run_now + 20000\<rparr>"

definition sql_fleet_options :: SchedulerOptions where
  "sql_fleet_options = \<lparr>sc_TaskTimeout = 5000, sc_HasStore = True, sc_PollInterval = 1000, sc_LeaseDuration = 20000\<rparr>"

definition sql_env :: "sql_task_row seen list \<Rightarrow> string \<Rightarrow> sql_task_env" where
  "sql_env queries random = \<lparr>qe_before = None, qe_io = ExecReplies, qe_after = None, qe_query = SeenError,
     qe_rounds = map (\<lambda>q. (q, Some random, ExecReplies)) queries\<rparr>"

definition sql_reserve_at :: "sql_task_row seen list \<Rightarrow> string \<Rightarrow> string \<Rightarrow> sql_task_row list
    \<Rightarrow> sql_task_row list \<times> loop_place \<times> ScheduledTaskFailure list" where
  "sql_reserve_at queries random name d =
     loop_reserve (sql_scheduler_store (memory_sql tr_name)) (sql_env queries random) LiveContext sql_fleet_options name 5 sql_run_now d"

lemma sql_runs:
  "sql_reserve_at [SeenRow (due_row ''a'')] ''x'' ''a'' [due_row ''a'', due_row ''b''] =
     ([leased_row ''a'' ''78'', due_row ''b''], AtExecute (sql_run ''a'' ''78''), [])"
  "sql_reserve_at [SeenRow ((due_row ''b'')\<lparr>tr_next_run_at := 3\<rparr>), SeenRow (due_row ''b'')] ''y'' ''b'' [leased_row ''a'' ''78'', due_row ''b''] =
     ([leased_row ''a'' ''78'', leased_row ''b'' ''79''], AtExecute (sql_run ''b'' ''79''), [])"
  by code_simp+

definition two_sql_runs :: "sql_task_row list fleet" where
  "two_sql_runs = \<lparr>fl_store = [leased_row ''a'' ''78'', leased_row ''b'' ''79''], fl_clock = sql_run_now,
     fl_holders = [sql_run ''b'' ''79'', sql_run ''a'' ''78''], fl_completed = []\<rparr>"

lemma two_sql_runs_reached:
  "fleet_reach (sql_scheduler_store (memory_sql tr_name)) (new_fleet [due_row ''a'', due_row ''b''] sql_run_now) two_sql_runs"
proof -
  let ?st = "sql_scheduler_store (memory_sql tr_name)"
  let ?g = "\<lparr>fl_store = [leased_row ''a'' ''78'', due_row ''b''], fl_clock = sql_run_now, fl_holders = [sql_run ''a'' ''78''], fl_completed = []\<rparr>"
  have token: "sr_Token (sql_run name t) = t" for name t by (simp add: sql_run_def)
  have "fleet_step ?st (new_fleet [due_row ''a'', due_row ''b''] sql_run_now) ?g"
    using fleet_step.reserve [of ?st "sql_env [SeenRow (due_row ''a'')] ''x''" LiveContext sql_fleet_options
        "''a''" 5 "new_fleet [due_row ''a'', due_row ''b''] sql_run_now"] sql_runs(1)
    by (simp add: sql_reserve_at_def new_fleet_def token)
  moreover have "fleet_step ?st ?g two_sql_runs"
    using fleet_step.reserve [of ?st "sql_env [SeenRow ((due_row ''b'')\<lparr>tr_next_run_at := 3\<rparr>), SeenRow (due_row ''b'')] ''y''" LiveContext
        sql_fleet_options "''b''" 5 ?g] sql_runs(2)
    by (simp add: sql_reserve_at_def two_sql_runs_def token)
  ultimately show ?thesis by (blast intro: fleet_reach.intros)
qed

theorem one_scheduler_runs_an_sql_task_witness:
  "st_Name (sr_Task (fl_holders two_sql_runs ! 0)) \<noteq> st_Name (sr_Task (fl_holders two_sql_runs ! 1))"
proof (rule one_scheduler_runs_an_sql_task [OF memory_sql_table two_sql_runs_reached])
  have "sql_run_now < whole_micros (sql_run_now + 20000)" by code_simp
  then show "fl_clock two_sql_runs < whole_micros (sr_ReservedUntil (fl_holders two_sql_runs ! 0))"
    "fl_clock two_sql_runs < whole_micros (sr_ReservedUntil (fl_holders two_sql_runs ! 1))"
    by (simp_all add: two_sql_runs_def sql_run_def)
qed (simp_all add: two_sql_runs_def)

end
