(* ===== verification/RedisSchedulerStore.thy ===== *)
theory RedisSchedulerStore
  imports RedisServer FileSchedulerStore
begin

text \<open>
  The store of scheduled tasks on a Redis server: \<open>src/backend/framework/redis_scheduler_store.go\<close>. A task is one field of a hash, its value a JSON object of
  texts; scripts in Lua read and replace it. Go and Lua write the object, \<open>clean_metadata\<close> is what passing it through Go's JSON
  does to its texts. Times are kept in whole microseconds.
\<close>

section \<open>Data\<close>

definition redisSchedulerStoreMaxNamespaceBytes :: nat where "redisSchedulerStoreMaxNamespaceBytes = 256"
definition redisSchedulerStoreMaxNameBytes :: nat where "redisSchedulerStoreMaxNameBytes = 255"
definition redisSchedulerStoreMaxExactTime :: int where "redisSchedulerStoreMaxExactTime = 2 ^ 53 - 1"

record redisStoredScheduledTaskMetadata =
  rm_Name :: string
  rm_NextRunAt :: string
  rm_LastScheduledAt :: string
  rm_LastCompletedAt :: string
  rm_LastError :: string
  rm_ReservationToken :: string
  rm_ReservedUntil :: string

record redisStoredScheduledTask =
  rt_state :: StoredScheduledTask
  rt_reservationToken :: string

type_synonym 'r task_redis = "('r, unit, unit, redisStoredScheduledTaskMetadata) redis"

definition clean_metadata :: "redisStoredScheduledTaskMetadata \<Rightarrow> redisStoredScheduledTaskMetadata" where
  "clean_metadata m =
     \<lparr>rm_Name = utf8_coerce (rm_Name m), rm_NextRunAt = utf8_coerce (rm_NextRunAt m), rm_LastScheduledAt = utf8_coerce (rm_LastScheduledAt m),
      rm_LastCompletedAt = utf8_coerce (rm_LastCompletedAt m), rm_LastError = utf8_coerce (rm_LastError m),
      rm_ReservationToken = utf8_coerce (rm_ReservationToken m), rm_ReservedUntil = utf8_coerce (rm_ReservedUntil m)\<rparr>"

section \<open>Options, names and times\<close>

text \<open>\<open>None\<close> for the error \<open>ErrInvalidRedisSchedulerStoreOptions\<close>. A rune below 32 or equal to 127 is a byte with that value.\<close>

definition normalizeRedisSchedulerStoreOptions :: "string \<Rightarrow> string option" where
  "normalizeRedisSchedulerStoreOptions namespace =
     (let ns = trim_space namespace; ns = (if ns = [] then ''bridra:scheduler'' else ns) in
      if length ns > redisSchedulerStoreMaxNamespaceBytes \<or> CHR ''{'' \<in> set ns \<or> CHR ''}'' \<in> set ns then None
      else if list_ex (\<lambda>c. byte c < 32 \<or> byte c = 127) ns then None else Some ns)"

definition redis_scheduler_key :: "string \<Rightarrow> string" where
  "redis_scheduler_key namespace = ''{'' @ namespace @ ''}'' @ '':tasks''"

definition validRedisScheduledTaskName :: "string \<Rightarrow> bool" where
  "validRedisScheduledTaskName name = (validStoredScheduledTaskName name \<and> length name \<le> redisSchedulerStoreMaxNameBytes)"

definition redisSchedulerStoreTime :: "instant \<Rightarrow> string option" where
  "redisSchedulerStoreTime value =
     (if is_zero_time value then None
      else if unix_micro value < - redisSchedulerStoreMaxExactTime \<or> unix_micro value > redisSchedulerStoreMaxExactTime then None
      else Some (format_int (unix_micro value)))"

definition parseRedisSchedulerStoreTime :: "string \<Rightarrow> instant option" where
  "parseRedisSchedulerStoreTime value =
     (case atoi value of
        None \<Rightarrow> None
      | Some n \<Rightarrow> if n < - redisSchedulerStoreMaxExactTime \<or> n > redisSchedulerStoreMaxExactTime then None else Some (time_unix_micro n))"

lemma redisSchedulerStoreTime_roundtrip:
  "redisSchedulerStoreTime t = Some s \<Longrightarrow> parseRedisSchedulerStoreTime s = Some (whole_micros t)"
  by (auto simp: redisSchedulerStoreTime_def parseRedisSchedulerStoreTime_def atoi_format_int whole_micros_def
      redisSchedulerStoreMaxExactTime_def split: if_splits)

section \<open>Decoding\<close>

definition decode_times :: "redisStoredScheduledTaskMetadata \<Rightarrow> redisStoredScheduledTask option" where
  "decode_times m =
     (case parseRedisSchedulerStoreTime (rm_NextRunAt m) of
        None \<Rightarrow> None
      | Some nextRun \<Rightarrow>
          (case (if rm_LastScheduledAt m = [] then Some (0, 0)
                 else case (parseRedisSchedulerStoreTime (rm_LastScheduledAt m), parseRedisSchedulerStoreTime (rm_LastCompletedAt m)) of
                   (Some a, Some b) \<Rightarrow> Some (a, b) | _ \<Rightarrow> None) of
             None \<Rightarrow> None
           | Some (scheduled, completed) \<Rightarrow>
               (case (if rm_ReservedUntil m = [] then Some 0 else parseRedisSchedulerStoreTime (rm_ReservedUntil m)) of
                  None \<Rightarrow> None
                | Some until \<Rightarrow>
                    Some \<lparr>rt_state = \<lparr>st_Name = rm_Name m, st_NextRunAt = nextRun, st_LastScheduledAt = scheduled,
                            st_LastCompletedAt = completed, st_LastError = rm_LastError m, st_ReservedUntil = until\<rparr>,
                          rt_reservationToken = rm_ReservationToken m\<rparr>)))"

definition decodeRedisStoredScheduledTask :: "redisStoredScheduledTaskMetadata \<Rightarrow> redisStoredScheduledTask option" where
  "decodeRedisStoredScheduledTask encoded =
     (let m = clean_metadata encoded in
      if \<not> validRedisScheduledTaskName (rm_Name m) \<or>
         (rm_LastScheduledAt m = []) \<noteq> (rm_LastCompletedAt m = []) \<or>
         (rm_ReservationToken m = []) \<noteq> (rm_ReservedUntil m = []) \<or>
         (rm_LastScheduledAt m = [] \<and> rm_LastError m \<noteq> []) \<or>
         length (rm_LastError m) > fileSchedulerStoreMaxErrorBytes
      then None else decode_times m)"

section \<open>Scripts\<close>

definition initialize_script :: "'r task_redis \<Rightarrow> string \<Rightarrow> redisStoredScheduledTaskMetadata \<Rightarrow> 'r \<Rightarrow> 'r \<times> (string + int)" where
  "initialize_script R name encoded r =
     (if HGET R () name r \<noteq> None then (r, Inr 0) else (HSET R () name encoded r, Inr 1))"

definition integer_string :: "string \<Rightarrow> bool" where
  "integer_string value =
     (let ds = (case value of [] \<Rightarrow> [] | c # t \<Rightarrow> if c = CHR ''-'' then t else value) in
      ds \<noteq> [] \<and> list_all is_digit ds \<and>
      (case atoi value of None \<Rightarrow> False | Some n \<Rightarrow> - 9007199254740991 \<le> n \<and> n \<le> 9007199254740991))"

definition task_corrupt :: "string \<Rightarrow> redisStoredScheduledTaskMetadata \<Rightarrow> bool" where
  "task_corrupt name task =
     (rm_Name task \<noteq> name \<or>
      \<not> integer_string (rm_NextRunAt task) \<or>
      (rm_LastScheduledAt task = []) \<noteq> (rm_LastCompletedAt task = []) \<or>
      (rm_ReservationToken task = []) \<noteq> (rm_ReservedUntil task = []) \<or>
      (rm_LastScheduledAt task = [] \<and> rm_LastError task \<noteq> []) \<or>
      (rm_LastScheduledAt task \<noteq> [] \<and>
        (\<not> integer_string (rm_LastScheduledAt task) \<or> \<not> integer_string (rm_LastCompletedAt task))) \<or>
      (rm_ReservedUntil task \<noteq> [] \<and> \<not> integer_string (rm_ReservedUntil task)))"

text \<open>A number text compared with another, where both have passed \<open>integer_string\<close> or were written by Go.\<close>

definition tonumber :: "string \<Rightarrow> int" where
  "tonumber value = (case atoi value of Some n \<Rightarrow> n | None \<Rightarrow> 0)"

datatype reserve_reply = ReplyMissing | ReplyReserved | ReplyNotDue | ReplyOk redisStoredScheduledTaskMetadata

definition reserve_script ::
  "'r task_redis \<Rightarrow> string \<Rightarrow> string \<Rightarrow> string \<Rightarrow> string \<Rightarrow> 'r \<Rightarrow> 'r \<times> (string + reserve_reply)" where
  "reserve_script R name now token until r =
     (case HGET R () name r of
        None \<Rightarrow> (r, Inr ReplyMissing)
      | Some task \<Rightarrow>
          if task_corrupt name task then (r, Inl ''bridra: scheduled task state is corrupt'')
          else if rm_ReservationToken task \<noteq> [] \<and> tonumber (rm_ReservedUntil task) > tonumber now then (r, Inr ReplyReserved)
          else if tonumber (rm_NextRunAt task) > tonumber now then (r, Inr ReplyNotDue)
          else let task' = task\<lparr>rm_ReservationToken := token, rm_ReservedUntil := until\<rparr>
               in (HSET R () name task' r, Inr (ReplyOk task')))"

definition complete_script ::
  "'r task_redis \<Rightarrow> string \<Rightarrow> string \<Rightarrow> string \<Rightarrow> string \<Rightarrow> string \<Rightarrow> string \<Rightarrow> 'r \<Rightarrow> 'r \<times> (string + int)" where
  "complete_script R name token scheduledAt nextRunAt completedAt er r =
     (case HGET R () name r of
        None \<Rightarrow> (r, Inr 0)
      | Some task \<Rightarrow>
          if task_corrupt name task then (r, Inl ''bridra: scheduled task state is corrupt'')
          else if rm_ReservationToken task \<noteq> token \<or> rm_NextRunAt task \<noteq> scheduledAt then (r, Inr 0)
          else (HSET R () name
                  (task\<lparr>rm_NextRunAt := nextRunAt, rm_LastScheduledAt := scheduledAt, rm_LastCompletedAt := completedAt,
                        rm_LastError := er, rm_ReservationToken := [], rm_ReservedUntil := []\<rparr>) r, Inr 1))"

section \<open>Operations\<close>

definition redis_scheduler_ready :: "go_context \<Rightarrow> scheduler_error option" where
  "redis_scheduler_ready ctx =
     (if ctx = NilContext then Some ErrSchedulerContextUnavailable else map_option ErrSchedulerContext (ctx_err ctx))"

definition redisSchedulerStoreError :: "string \<Rightarrow> scheduler_error" where
  "redisSchedulerStoreError operation = ErrSchedulerStoreOperationFailed (RemoteCall operation)"

definition RedisSchedulerInitialize ::
  "'r task_redis \<Rightarrow> go_context \<Rightarrow> string \<Rightarrow> instant \<Rightarrow> script_io \<Rightarrow> 'r \<Rightarrow> 'r \<times> (scheduler_error + unit)" where
  [op_defs]: "RedisSchedulerInitialize R ctx name nextRunAt io r =
     (case redis_scheduler_ready ctx of
        Some e \<Rightarrow> (r, Inl e)
      | None \<Rightarrow>
          if \<not> validRedisScheduledTaskName name \<or> is_zero_time nextRunAt then (r, Inl ErrSchedulerStoreConflict)
          else case redisSchedulerStoreTime nextRunAt of
            None \<Rightarrow> (r, Inl ErrSchedulerStoreConflict)
          | Some nextRunAtValue \<Rightarrow>
              (case run_script io (initialize_script R name (clean_metadata
                      \<lparr>rm_Name = name, rm_NextRunAt = nextRunAtValue, rm_LastScheduledAt = [], rm_LastCompletedAt = [], rm_LastError = [],
                       rm_ReservationToken = [], rm_ReservedUntil = []\<rparr>)) r of
                 (r', None) \<Rightarrow> (r', Inl (redisSchedulerStoreError ''initialize task''))
               | (r', Some result) \<Rightarrow>
                   (r', if result \<noteq> 0 \<and> result \<noteq> 1 then Inl (redisSchedulerStoreError ''initialize task'') else Inr ())))"

text \<open>\<open>State\<close> reads only; \<open>replies\<close> tells whether the reply arrives.\<close>

definition RedisSchedulerState ::
  "'r task_redis \<Rightarrow> go_context \<Rightarrow> string \<Rightarrow> bool \<Rightarrow> 'r \<Rightarrow> scheduler_error + StoredScheduledTask" where
  "RedisSchedulerState R ctx name replies r =
     (case redis_scheduler_ready ctx of
        Some e \<Rightarrow> Inl e
      | None \<Rightarrow>
          if \<not> validRedisScheduledTaskName name then Inl ErrSchedulerStoreConflict
          else if \<not> replies then Inl (redisSchedulerStoreError ''read task state'')
          else case HGET R () name r of
            None \<Rightarrow> Inl ErrScheduledTaskStateNotFound
          | Some encoded \<Rightarrow>
              (case decodeRedisStoredScheduledTask encoded of
                 None \<Rightarrow> Inl (redisSchedulerStoreError ''decode task state'')
               | Some record1 \<Rightarrow>
                   if st_Name (rt_state record1) \<noteq> name then Inl (redisSchedulerStoreError ''decode task state'')
                   else Inr (rt_state record1)))"

definition RedisSchedulerReserve ::
  "'r task_redis \<Rightarrow> go_context \<Rightarrow> string \<Rightarrow> instant \<Rightarrow> duration \<Rightarrow> string option \<Rightarrow> script_io \<Rightarrow> 'r
    \<Rightarrow> 'r \<times> (scheduler_error + ScheduledTaskReservation)" where
  [op_defs]: "RedisSchedulerReserve R ctx name now lease random io r =
     (case redis_scheduler_ready ctx of
        Some e \<Rightarrow> (r, Inl e)
      | None \<Rightarrow>
          if \<not> validRedisScheduledTaskName name \<or> is_zero_time now \<or> lease \<le> 0 then (r, Inl ErrScheduledTaskReservationInvalid)
          else case (redisSchedulerStoreTime now, redisSchedulerStoreTime (now + lease)) of
            (Some nowValue, Some reservedUntilValue) \<Rightarrow>
              (case newSchedulerReservationToken random of
                 Inl e \<Rightarrow> (r, Inl e)
               | Inr token \<Rightarrow>
                   (case run_script io (reserve_script R name nowValue token reservedUntilValue) r of
                      (r', None) \<Rightarrow> (r', Inl (redisSchedulerStoreError ''reserve task''))
                    | (r', Some ReplyMissing) \<Rightarrow> (r', Inl ErrScheduledTaskStateNotFound)
                    | (r', Some ReplyReserved) \<Rightarrow> (r', Inl ErrScheduledTaskReserved)
                    | (r', Some ReplyNotDue) \<Rightarrow> (r', Inl ErrScheduledTaskNotDue)
                    | (r', Some (ReplyOk encoded)) \<Rightarrow>
                        (r', case decodeRedisStoredScheduledTask encoded of
                           None \<Rightarrow> Inl (redisSchedulerStoreError ''decode reserved task'')
                         | Some record1 \<Rightarrow>
                             if st_Name (rt_state record1) \<noteq> name \<or> rt_reservationToken record1 \<noteq> token \<or>
                                st_ReservedUntil (rt_state record1) \<noteq> now + lease
                             then Inl (redisSchedulerStoreError ''decode reserved task'')
                             else Inr \<lparr>sr_Task = rt_state record1, sr_Token = token, sr_ReservedUntil = now + lease\<rparr>)))
          | _ \<Rightarrow> (r, Inl ErrScheduledTaskReservationInvalid))"

definition RedisSchedulerComplete ::
  "'r task_redis \<Rightarrow> go_context \<Rightarrow> ScheduledTaskReservation \<Rightarrow> instant \<Rightarrow> instant \<Rightarrow> string \<Rightarrow> script_io \<Rightarrow> 'r
    \<Rightarrow> 'r \<times> (scheduler_error + unit)" where
  [op_defs]: "RedisSchedulerComplete R ctx reservation nextRunAt completedAt lastError io r =
     (case redis_scheduler_ready ctx of
        Some e \<Rightarrow> (r, Inl e)
      | None \<Rightarrow>
          if \<not> validRedisScheduledTaskName (st_Name (sr_Task reservation)) \<or> sr_Token reservation = [] \<or>
             is_zero_time (st_NextRunAt (sr_Task reservation)) \<or> is_zero_time nextRunAt \<or> is_zero_time completedAt \<or>
             \<not> nextRunAt > completedAt
          then (r, Inl ErrScheduledTaskReservationInvalid)
          else case (redisSchedulerStoreTime (st_NextRunAt (sr_Task reservation)), redisSchedulerStoreTime nextRunAt,
                     redisSchedulerStoreTime completedAt) of
            (Some scheduledAtValue, Some nextRunAtValue, Some completedAtValue) \<Rightarrow>
              (case run_script io (complete_script R (st_Name (sr_Task reservation)) (sr_Token reservation) scheduledAtValue
                      nextRunAtValue completedAtValue (normalizeFileSchedulerStoreError lastError)) r of
                 (r', None) \<Rightarrow> (r', Inl (redisSchedulerStoreError ''complete task''))
               | (r', Some result) \<Rightarrow>
                   (r', if result = 0 then Inl ErrScheduledTaskReservationInvalid
                        else if result \<noteq> 1 then Inl (redisSchedulerStoreError ''complete task'') else Inr ()))
          | _ \<Rightarrow> (r, Inl ErrScheduledTaskReservationInvalid))"

end
