(* ===== verification/RedisSchedulerFleet.thy ===== *)
theory RedisSchedulerFleet
  imports RedisSchedulerStore SchedulerFleet
begin

text \<open>
  Schedulers on a Redis server: the contract \<open>scheduler_store\<close> is interpreted by the Redis store, for any server that behaves as documented, and a
  defect of its \<open>Reserve\<close>.
\<close>

section \<open>What the scripts do\<close>

definition redis_task_view :: "'r task_redis \<Rightarrow> 'r \<Rightarrow> string \<Rightarrow> (StoredScheduledTask \<times> string) option" where
  "redis_task_view R r name =
     (case HGET R () name r of
        None \<Rightarrow> None
      | Some m \<Rightarrow> map_option (\<lambda>t. (rt_state t, rt_reservationToken t)) (decode_times m))"

lemma redis_task_view_HSET:
  "redis_server R \<Longrightarrow> decode_times m = Some t \<Longrightarrow>
     redis_task_view R (HSET R () name m r) = (redis_task_view R r)(name \<mapsto> (rt_state t, rt_reservationToken t))"
  by (rule ext) (simp add: redis_task_view_def redis_hash)

lemma integer_string_parse: "integer_string s \<Longrightarrow> parseRedisSchedulerStoreTime s = Some (time_unix_micro (tonumber s))"
  by (auto simp: integer_string_def parseRedisSchedulerStoreTime_def tonumber_def redisSchedulerStoreMaxExactTime_def Let_def split: option.splits)

lemma time_text:
  assumes "redisSchedulerStoreTime t = Some s"
  shows "tonumber s = unix_micro t" "s \<noteq> []" "parseRedisSchedulerStoreTime s = Some (whole_micros t)"
  using assms redisSchedulerStoreTime_roundtrip [OF assms]
  by (auto simp: redisSchedulerStoreTime_def tonumber_def atoi_format_int redisSchedulerStoreMaxExactTime_def split: if_splits)

lemma integer_string_ascii:
  assumes "integer_string s"
  shows "utf8_coerce s = s"
proof (rule utf8_coerce_valid [OF valid_string_ascii])
  show "list_all (\<lambda>c. byte c < 128) s"
  proof (cases s)
    case (Cons c t)
    with assms show ?thesis
      by (cases "c = CHR ''-''") (auto simp: integer_string_def Let_def is_digit_def dest: digits_ascii)
  qed simp
qed

lemma decimal_integer: "list_all is_digit s \<Longrightarrow> s \<noteq> [] \<Longrightarrow> (case s of [] \<Rightarrow> [] | c # t \<Rightarrow> if c = CHR ''-'' then t else s) = s"
  by (cases s) auto

lemma time_text_integer:
  assumes "redisSchedulerStoreTime t = Some s"
  shows "integer_string s"
proof -
  have s: "s = format_int (unix_micro t)" "- 9007199254740991 \<le> unix_micro t" "unix_micro t \<le> 9007199254740991"
    using assms by (auto simp: redisSchedulerStoreTime_def redisSchedulerStoreMaxExactTime_def split: if_splits)
  then have n: "atoi s = Some (unix_micro t)" by (simp add: atoi_format_int)
  show ?thesis
    by (rule format_int_digits [of "unix_micro t"])
      (use s n in \<open>simp_all add: integer_string_def Let_def decimal_digits decimal_integer\<close>)
qed

text \<open>A record that is not corrupt decodes, and a reservation changes its token and lease only.\<close>

lemma decode_times_intact:
  assumes "\<not> task_corrupt name m"
  obtains t where "decode_times m = Some t" "st_NextRunAt (rt_state t) = time_unix_micro (tonumber (rm_NextRunAt m))"
    "rt_reservationToken t = rm_ReservationToken m" "st_Name (rt_state t) = name"
    "rm_ReservationToken m \<noteq> [] \<Longrightarrow> st_ReservedUntil (rt_state t) = time_unix_micro (tonumber (rm_ReservedUntil m))"
    "\<And>token until u. parseRedisSchedulerStoreTime until = Some u \<Longrightarrow> until \<noteq> [] \<Longrightarrow>
       decode_times (m\<lparr>rm_ReservationToken := token, rm_ReservedUntil := until\<rparr>) =
         Some (t\<lparr>rt_state := (rt_state t)\<lparr>st_ReservedUntil := u\<rparr>, rt_reservationToken := token\<rparr>)"
  using assms
  by (auto simp: task_corrupt_def decode_times_def integer_string_parse split: option.splits prod.splits if_splits)

lemma reserve_script_effect:
  assumes R: "redis_server R" and t: "redisSchedulerStoreTime now = Some nowValue" "redisSchedulerStoreTime (now + lease) = Some untilValue"
    and run: "reserve_script R name nowValue token untilValue r = (r', reply)"
  shows "r' = r \<and> (\<forall>m. reply \<noteq> Inr (ReplyOk m)) \<or>
    (\<exists>m q. reply = Inr (ReplyOk m) \<and> integer_string (rm_NextRunAt m) \<and> rm_ReservedUntil m = untilValue \<and>
       reserved_as whole_micros name now lease token (redis_task_view R r) (redis_task_view R r') q \<and>
       st_NextRunAt q = time_unix_micro (tonumber (rm_NextRunAt m)))"
proof (cases "HGET R () name r")
  case None
  with run show ?thesis by (auto simp: reserve_script_def)
next
  case (Some m)
  let ?m = "m\<lparr>rm_ReservationToken := token, rm_ReservedUntil := untilValue\<rparr>"
  show ?thesis
  proof (cases "\<not> task_corrupt name m \<and> (rm_ReservationToken m = [] \<or> tonumber (rm_ReservedUntil m) \<le> unix_micro now) \<and>
      tonumber (rm_NextRunAt m) \<le> unix_micro now")
    case False
    with run Some show ?thesis by (auto simp: reserve_script_def time_text [OF t(1)] Let_def split: if_splits)
  next
    case True
    obtain q where q: "decode_times m = Some q" "st_NextRunAt (rt_state q) = time_unix_micro (tonumber (rm_NextRunAt m))"
      "rt_reservationToken q = rm_ReservationToken m"
      "rm_ReservationToken m \<noteq> [] \<Longrightarrow> st_ReservedUntil (rt_state q) = time_unix_micro (tonumber (rm_ReservedUntil m))"
      "decode_times ?m = Some (q\<lparr>rt_state := (rt_state q)\<lparr>st_ReservedUntil := whole_micros (now + lease)\<rparr>, rt_reservationToken := token\<rparr>)"
      using decode_times_intact [of name m] True time_text(2,3) [OF t(2)] by metis
    have r': "r' = HSET R () name ?m r" "reply = Inr (ReplyOk ?m)"
      using run Some True by (auto simp: reserve_script_def time_text(1) [OF t(1)] Let_def)
    have "redis_task_view R r name = Some (rt_state q, rm_ReservationToken m)" using Some q(1,3) by (simp add: redis_task_view_def)
    moreover have "rm_ReservationToken m = [] \<or> st_ReservedUntil (rt_state q) \<le> now"
      using True q(4) micros_before [of "tonumber (rm_ReservedUntil m)" now] by (cases "rm_ReservationToken m = []") auto
    moreover have "st_NextRunAt (rt_state q) \<le> now" using True micros_before by (simp add: q(2))
    ultimately have "reserved_as whole_micros name now lease token (redis_task_view R r) (redis_task_view R r') (rt_state q)"
      using redis_task_view_HSET [OF R q(5), of name r] by (simp add: reserved_as_def r')
    then show ?thesis using q(2) r'(2) True by (auto simp: task_corrupt_def)
  qed
qed

lemma complete_script_effect:
  assumes R: "redis_server R" and token: "sr_Token v \<noteq> []"
    and t: "redisSchedulerStoreTime (st_NextRunAt (sr_Task v)) = Some scheduledAt" "redisSchedulerStoreTime nextRun = Some nextRunAt"
      "redisSchedulerStoreTime completed = Some completedAt"
    and run: "complete_script R (st_Name (sr_Task v)) (sr_Token v) scheduledAt nextRunAt completedAt er r = (r', reply)"
  shows "r' = r \<and> reply \<noteq> Inr 1 \<or> completed_as whole_micros v (redis_task_view R r) (redis_task_view R r')"
proof (cases "HGET R () (st_Name (sr_Task v)) r")
  case None
  with run show ?thesis by (auto simp: complete_script_def)
next
  case (Some m)
  let ?m = "m\<lparr>rm_NextRunAt := nextRunAt, rm_LastScheduledAt := scheduledAt, rm_LastCompletedAt := completedAt,
    rm_LastError := er, rm_ReservationToken := [], rm_ReservedUntil := []\<rparr>"
  show ?thesis
  proof (cases "\<not> task_corrupt (st_Name (sr_Task v)) m \<and> rm_ReservationToken m = sr_Token v \<and> rm_NextRunAt m = scheduledAt")
    case False
    with run Some show ?thesis by (auto simp: complete_script_def split: if_splits)
  next
    case True
    obtain q where q: "decode_times m = Some q" "st_NextRunAt (rt_state q) = time_unix_micro (tonumber scheduledAt)"
      "rt_reservationToken q = sr_Token v"
      using decode_times_intact [of "st_Name (sr_Task v)" m] True by metis
    have "\<exists>q'. decode_times ?m = Some q' \<and> rt_reservationToken q' = []"
      using time_text(2,3) [OF t(1)] time_text(2,3) [OF t(2)] time_text(2,3) [OF t(3)] by (simp add: decode_times_def)
    then obtain q' where q': "decode_times ?m = Some q'" "rt_reservationToken q' = []" by blast
    have r': "r' = HSET R () (st_Name (sr_Task v)) ?m r" using run Some True by (auto simp: complete_script_def)
    have "redis_task_view R r (st_Name (sr_Task v)) = Some (rt_state q, sr_Token v)" using Some q by (simp add: redis_task_view_def)
    moreover have "st_NextRunAt (rt_state q) = whole_micros (st_NextRunAt (sr_Task v))"
      by (simp add: q(2) time_text(1) [OF t(1)] whole_micros_def)
    ultimately show ?thesis using redis_task_view_HSET [OF R q'(1), of "st_Name (sr_Task v)" r] token by (auto simp: completed_as_def r' q'(2))
  qed
qed

section \<open>The Redis store as a scheduler store\<close>

record redis_task_env =
  re_random :: "string option"
  re_io :: script_io

definition redis_scheduler_store :: "'r task_redis \<Rightarrow> (redis_task_env, 'r) SchedulerStore" where
  "redis_scheduler_store R =
     \<lparr>ss_Initialize = \<lambda>env ctx name t r. RedisSchedulerInitialize R ctx name t (re_io env) r,
      ss_State = \<lambda>env ctx name r. RedisSchedulerState R ctx name (re_io env = ScriptReplies) r,
      ss_Reserve = \<lambda>env ctx name now lease r. RedisSchedulerReserve R ctx name now lease (re_random env) (re_io env) r,
      ss_Complete = \<lambda>env ctx v t c er r. RedisSchedulerComplete R ctx v t c er (re_io env) r\<rparr>"

lemma decoded_times:
  assumes "decodeRedisStoredScheduledTask m = Some u" "integer_string (rm_NextRunAt m)" "redisSchedulerStoreTime t = Some (rm_ReservedUntil m)"
  shows "st_NextRunAt (rt_state u) = time_unix_micro (tonumber (rm_NextRunAt m))" "st_ReservedUntil (rt_state u) = whole_micros t"
  using assms time_text(2,3) [OF assms(3)]
  by (auto simp: decodeRedisStoredScheduledTask_def clean_metadata_def decode_times_def integer_string_ascii integer_string_parse time_text_integer
      Let_def split: if_splits option.splits prod.splits)

lemma RedisSchedulerReserve_effect:
  assumes R: "redis_server R" and run: "RedisSchedulerReserve R ctx name now lease random io r = (r', res)"
  shows "redis_task_view R r' = redis_task_view R r \<and> \<not> is_ok res \<or>
    (\<exists>token q. reserved_as whole_micros name now lease token (redis_task_view R r) (redis_task_view R r') q \<and>
       (\<forall>v. res = Inr v \<longrightarrow> sr_Token v = token \<and> st_Name (sr_Task v) = name \<and> sr_ReservedUntil v = now + lease \<and>
          st_NextRunAt (sr_Task v) = st_NextRunAt q \<and> whole_micros (now + lease) = now + lease))"
proof (cases "\<exists>nowValue untilValue token a. redisSchedulerStoreTime now = Some nowValue \<and> redisSchedulerStoreTime (now + lease) = Some untilValue \<and>
    newSchedulerReservationToken random = Inr token \<and> run_script io (reserve_script R name nowValue token untilValue) r = (r', a)")
  case False
  with run show ?thesis
    by (auto simp: RedisSchedulerReserve_def split: option.splits if_splits sum.splits prod.splits reserve_reply.splits)
next
  case True
  then obtain nowValue untilValue token a where t: "redisSchedulerStoreTime now = Some nowValue" "redisSchedulerStoreTime (now + lease) = Some untilValue"
    "newSchedulerReservationToken random = Inr token" and a: "run_script io (reserve_script R name nowValue token untilValue) r = (r', a)"
    by blast
  obtain r1 reply where s: "reserve_script R name nowValue token untilValue r = (r1, reply)" by force
  have ok: "\<exists>m u. a = Some (ReplyOk m) \<and> decodeRedisStoredScheduledTask m = Some u \<and> st_Name (rt_state u) = name \<and>
      st_ReservedUntil (rt_state u) = now + lease \<and> v = \<lparr>sr_Task = rt_state u, sr_Token = token, sr_ReservedUntil = now + lease\<rparr>"
    if "res = Inr v" for v
    using run that t a by (auto simp: RedisSchedulerReserve_def split: option.splits if_splits reserve_reply.splits)
  show ?thesis
  proof (cases "a = None \<or> reply \<noteq> Inr (the a)")
    case True
    have "\<not> is_ok res"
    proof
      assume "is_ok res"
      then obtain m where "a = Some (ReplyOk m)" using ok by (auto simp: is_ok_iff)
      then show False using True a s by (auto dest: run_script_reply)
    qed
    moreover have "r' = r \<or> r' = r1" using a s by (auto elim: run_script_cases)
    ultimately show ?thesis using reserve_script_effect [OF R t(1,2) s] by (auto simp: is_ok_iff)
  next
    case False
    then have r1: "r1 = r'" "reply = Inr (the a)" using a s by (auto dest: run_script_reply)
    from reserve_script_effect [OF R t(1,2) s] show ?thesis
    proof (elim disjE conjE exE)
      assume "r1 = r" "\<forall>m. reply \<noteq> Inr (ReplyOk m)"
      then show ?thesis using ok r1 False by (cases res) auto
    next
      fix m q
      assume m: "reply = Inr (ReplyOk m)" "integer_string (rm_NextRunAt m)" "rm_ReservedUntil m = untilValue"
        "reserved_as whole_micros name now lease token (redis_task_view R r) (redis_task_view R r1) q"
        "st_NextRunAt q = time_unix_micro (tonumber (rm_NextRunAt m))"
      have "sr_Token v = token \<and> st_Name (sr_Task v) = name \<and> sr_ReservedUntil v = now + lease \<and>
          st_NextRunAt (sr_Task v) = st_NextRunAt q \<and> whole_micros (now + lease) = now + lease" if "res = Inr v" for v
        using ok [OF that] m r1(2) decoded_times [of m _ "now + lease"] t(2) by auto
      then show ?thesis using m(4) r1(1) by blast
    qed
  qed
qed

lemma RedisSchedulerComplete_effect:
  assumes R: "redis_server R" and run: "RedisSchedulerComplete R ctx v nextRun completed er io r = (r', res)"
  shows "redis_task_view R r' = redis_task_view R r \<and> \<not> is_ok res \<or> completed_as whole_micros v (redis_task_view R r) (redis_task_view R r')"
proof (cases "\<exists>a b c x. sr_Token v \<noteq> [] \<and> redisSchedulerStoreTime (st_NextRunAt (sr_Task v)) = Some a \<and> redisSchedulerStoreTime nextRun = Some b \<and>
    redisSchedulerStoreTime completed = Some c \<and>
    run_script io (complete_script R (st_Name (sr_Task v)) (sr_Token v) a b c (normalizeFileSchedulerStoreError er)) r = (r', x)")
  case False
  with run show ?thesis by (auto simp: RedisSchedulerComplete_def split: option.splits if_splits prod.splits)
next
  case True
  then obtain a b c x where t: "sr_Token v \<noteq> []" "redisSchedulerStoreTime (st_NextRunAt (sr_Task v)) = Some a" "redisSchedulerStoreTime nextRun = Some b"
    "redisSchedulerStoreTime completed = Some c"
    and x: "run_script io (complete_script R (st_Name (sr_Task v)) (sr_Token v) a b c (normalizeFileSchedulerStoreError er)) r = (r', x)" by blast
  obtain r1 reply where s: "complete_script R (st_Name (sr_Task v)) (sr_Token v) a b c (normalizeFileSchedulerStoreError er) r = (r1, reply)" by force
  have ok: "is_ok res \<Longrightarrow> x = Some 1"
    using run t x by (auto simp: RedisSchedulerComplete_def split: option.splits if_splits)
  have "r' = r \<and> x = None \<or> r' = r1 \<and> (x = None \<or> reply = Inr (the x))" using x s by (auto elim: run_script_cases)
  then show ?thesis using complete_script_effect [OF R t s] ok by auto
qed

lemma RedisSchedulerInitialize_effect:
  assumes R: "redis_server R" and run: "RedisSchedulerInitialize R ctx name nextRun io r = (r', res)"
  shows "redis_task_view R r' = redis_task_view R r \<or>
    redis_task_view R r name = None \<and> (\<exists>q. redis_task_view R r' = (redis_task_view R r)(name \<mapsto> (q, [])))"
proof (cases "r' = r")
  case False
  let ?m = "\<lambda>a. clean_metadata \<lparr>rm_Name = name, rm_NextRunAt = a, rm_LastScheduledAt = [], rm_LastCompletedAt = [], rm_LastError = [],
    rm_ReservationToken = [], rm_ReservedUntil = []\<rparr>"
  obtain a where a: "redisSchedulerStoreTime nextRun = Some a" "r' = HSET R () name (?m a) r" "HGET R () name r = None"
    using run False
    by (auto simp: RedisSchedulerInitialize_def initialize_script_def run_script_def split: option.splits if_splits prod.splits script_io.splits sum.splits)
  have "\<exists>t. decode_times (?m a) = Some t \<and> rt_reservationToken t = []"
    using time_text(3) [OF a(1)] by (simp add: decode_times_def clean_metadata_def integer_string_ascii [OF time_text_integer [OF a(1)]])
  then obtain t where "decode_times (?m a) = Some t" "rt_reservationToken t = []" by blast
  then show ?thesis using redis_task_view_HSET [OF R, of "?m a" t name r] a by (auto simp: redis_task_view_def)
qed simp

interpretation redis_tasks: scheduler_store "redis_scheduler_store R" "redis_task_view R" "\<lambda>r. redis_server R" whole_micros
  for R :: "'r task_redis"
proof (unfold_locales, goal_cases)
  case (1 s env ctx name now lease s' v)
  then have "RedisSchedulerReserve R ctx name now lease (re_random env) (re_io env) s = (s', Inr v)" by (simp add: redis_scheduler_store_def)
  from RedisSchedulerReserve_effect [OF 1(1) this] 1(1) show ?case by auto
next
  case (2 s env ctx name now lease s' e)
  then have "RedisSchedulerReserve R ctx name now lease (re_random env) (re_io env) s = (s', Inl e)" by (simp add: redis_scheduler_store_def)
  from RedisSchedulerReserve_effect [OF 2(1) this] 2(1) show ?case by auto
next
  case (3 s env ctx v nextRun completed er s' u)
  then have "RedisSchedulerComplete R ctx v nextRun completed er (re_io env) s = (s', Inr u)" by (simp add: redis_scheduler_store_def)
  from RedisSchedulerComplete_effect [OF 3(1) this] 3(1) show ?case by auto
next
  case (4 s env ctx v nextRun completed er s' e)
  then have "RedisSchedulerComplete R ctx v nextRun completed er (re_io env) s = (s', Inl e)" by (simp add: redis_scheduler_store_def)
  from RedisSchedulerComplete_effect [OF 4(1) this] 4(1) show ?case by auto
next
  case (5 s env ctx name nextRun s' r)
  then have "RedisSchedulerInitialize R ctx name nextRun (re_io env) s = (s', r)" by (simp add: redis_scheduler_store_def)
  from RedisSchedulerInitialize_effect [OF 5(1) this] 5(1) show ?case by auto
qed

section \<open>Properties\<close>

text \<open>
  C37. At most one scheduler runs a task at a time, also on a Redis server. However many schedulers share a server that behaves as
  documented, however their calls interleave, fail and lose replies, two runs of the same task that are both within their
  leases, counted in whole microseconds, never coexist.
\<close>

theorem one_scheduler_runs_a_redis_task:
  assumes "redis_server R" "fleet_reach (redis_scheduler_store R) (new_fleet r now) f"
    "i < length (fl_holders f)" "j < length (fl_holders f)" "i \<noteq> j"
    "fl_clock f < whole_micros (sr_ReservedUntil (fl_holders f ! i))" "fl_clock f < whole_micros (sr_ReservedUntil (fl_holders f ! j))"
  shows "st_Name (sr_Task (fl_holders f ! i)) \<noteq> st_Name (sr_Task (fl_holders f ! j))"
  using redis_tasks.one_live [OF redis_tasks.inv_reach [OF assms(2) redis_tasks.inv_new [OF assms(1)]] assms(3-5)]
    assms(6,7) by (simp add: live_def)

text \<open>
  C36. \<open>Reserve\<close> compares the end of the lease, in nanoseconds, with what the server kept of it, in microseconds. When the clock is between two
  microseconds a scheduler never runs a task: its reservation of a due and free task is refused with an error, although the task is
  leased, and no scheduler can reserve it until the lease ends.
\<close>

theorem redis_reserve_between_microseconds:
  assumes R: "redis_server R" and frac: "(now + sc_LeaseDuration os) mod 1000 \<noteq> 0"
  shows "(\<forall>v. fst (snd (loop_reserve (redis_scheduler_store R) env ctx os name nextRun now r)) \<noteq> AtExecute v) \<and>
    (HGET R () name r = Some m \<and> \<not> task_corrupt name m \<and> rm_ReservationToken m = [] \<and> tonumber (rm_NextRunAt m) \<le> unix_micro now \<and>
     validRedisScheduledTaskName name \<and> now \<noteq> 0 \<and> 0 < sc_LeaseDuration os \<and> redisSchedulerStoreTime now \<noteq> None \<and>
     redisSchedulerStoreTime (now + sc_LeaseDuration os) = Some until \<longrightarrow>
       RedisSchedulerReserve R LiveContext name now (sc_LeaseDuration os) (Some b) ScriptReplies r =
         (HSET R () name (m\<lparr>rm_ReservationToken := hex_encode b, rm_ReservedUntil := until\<rparr>) r,
          Inl (redisSchedulerStoreError ''decode reserved task'')))"
proof (intro conjI allI impI)
  have no: "\<not> is_ok (snd (RedisSchedulerReserve R ctx name now (sc_LeaseDuration os) random io r))" for ctx random io
  proof -
    obtain r' res where x: "RedisSchedulerReserve R ctx name now (sc_LeaseDuration os) random io r = (r', res)" by force
    from RedisSchedulerReserve_effect [OF R x] frac x show ?thesis by (auto simp: is_ok_iff whole_micros_id_iff)
  qed
  show "fst (snd (loop_reserve (redis_scheduler_store R) env ctx os name nextRun now r)) \<noteq> AtExecute v" for v
    using no [of ctx "re_random env" "re_io env"]
    by (auto simp: loop_reserve_def redis_scheduler_store_def split: prod.splits sum.splits)
  let ?m = "m\<lparr>rm_ReservationToken := hex_encode b, rm_ReservedUntil := until\<rparr>"
  assume m: "HGET R () name r = Some m \<and> \<not> task_corrupt name m \<and> rm_ReservationToken m = [] \<and> tonumber (rm_NextRunAt m) \<le> unix_micro now \<and>
     validRedisScheduledTaskName name \<and> now \<noteq> 0 \<and> 0 < sc_LeaseDuration os \<and> redisSchedulerStoreTime now \<noteq> None \<and>
     redisSchedulerStoreTime (now + sc_LeaseDuration os) = Some until"
  then obtain nowValue where n: "redisSchedulerStoreTime now = Some nowValue" by blast
  have "run_script ScriptReplies (reserve_script R name nowValue (hex_encode b) until) r = (HSET R () name ?m r, Some (ReplyOk ?m))"
    using m by (simp add: run_script_def reserve_script_def time_text(1) [OF n] Let_def)
  moreover have "st_ReservedUntil (rt_state u) \<noteq> now + sc_LeaseDuration os" if u: "decodeRedisStoredScheduledTask ?m = Some u" for u
  proof -
    have "integer_string (rm_NextRunAt ?m)" "redisSchedulerStoreTime (now + sc_LeaseDuration os) = Some (rm_ReservedUntil ?m)"
      using m by (simp_all add: task_corrupt_def)
    from decoded_times(2) [OF u this] frac show ?thesis by (metis whole_micros_id_iff)
  qed
  ultimately show "RedisSchedulerReserve R LiveContext name now (sc_LeaseDuration os) (Some b) ScriptReplies r =
      (HSET R () name ?m r, Inl (redisSchedulerStoreError ''decode reserved task''))"
    using m n by (auto simp: RedisSchedulerReserve_def redis_scheduler_ready_def is_zero_time_def newSchedulerReservationToken_def split: option.splits)
qed

text \<open>Two tasks on a server in memory.\<close>

type_synonym task_memory = "(unit, unit, redisStoredScheduledTaskMetadata) redis_memory"

definition due_task :: "string \<Rightarrow> redisStoredScheduledTaskMetadata" where
  "due_task name = \<lparr>rm_Name = name, rm_NextRunAt = ''5'', rm_LastScheduledAt = [], rm_LastCompletedAt = [], rm_LastError = [],
     rm_ReservationToken = [], rm_ReservedUntil = []\<rparr>"

definition two_redis_tasks :: task_memory where
  "two_redis_tasks = ([(((), ''a''), due_task ''a''), (((), ''b''), due_task ''b'')], [])"

definition redis_fleet_options :: SchedulerOptions where
  "redis_fleet_options = \<lparr>sc_TaskTimeout = 5000, sc_HasStore = True, sc_PollInterval = 1000, sc_LeaseDuration = 20000\<rparr>"

definition redis_reserve_at :: "instant \<Rightarrow> string \<Rightarrow> string \<Rightarrow> task_memory \<Rightarrow> task_memory \<times> loop_place \<times> ScheduledTaskFailure list" where
  "redis_reserve_at now random name r =
     loop_reserve (redis_scheduler_store memory_redis) \<lparr>re_random = Some random, re_io = ScriptReplies\<rparr> LiveContext redis_fleet_options name 5 now r"

definition redis_now :: instant where "redis_now = unix_epoch + 10000"

definition leased_task :: "string \<Rightarrow> string \<Rightarrow> redisStoredScheduledTaskMetadata" where
  "leased_task name token = (due_task name)\<lparr>rm_ReservationToken := token, rm_ReservedUntil := ''30''\<rparr>"

definition redis_run :: "string \<Rightarrow> string \<Rightarrow> ScheduledTaskReservation" where
  "redis_run name token =
     \<lparr>sr_Task = \<lparr>st_Name = name, st_NextRunAt = time_unix_micro 5, st_LastScheduledAt = 0, st_LastCompletedAt = 0, st_LastError = [],
        st_ReservedUntil = redis_now + 20000\<rparr>, sr_Token = token, sr_ReservedUntil = redis_now + 20000\<rparr>"

definition one_redis_lease :: task_memory where
  "one_redis_lease = ([(((), ''a''), leased_task ''a'' ''78''), (((), ''b''), due_task ''b'')], [])"

definition two_redis_leases :: task_memory where
  "two_redis_leases = ([(((), ''a''), leased_task ''a'' ''78''), (((), ''b''), leased_task ''b'' ''79'')], [])"

lemma redis_runs:
  "redis_reserve_at redis_now ''x'' ''a'' two_redis_tasks = (one_redis_lease, AtExecute (redis_run ''a'' ''78''), [])"
  "redis_reserve_at redis_now ''y'' ''b'' one_redis_lease = (two_redis_leases, AtExecute (redis_run ''b'' ''79''), [])"
  by code_simp+

definition two_redis_runs :: "task_memory fleet" where
  "two_redis_runs = \<lparr>fl_store = two_redis_leases, fl_clock = redis_now, fl_holders = [redis_run ''b'' ''79'', redis_run ''a'' ''78''], fl_completed = []\<rparr>"

lemma two_redis_runs_reached: "fleet_reach (redis_scheduler_store memory_redis) (new_fleet two_redis_tasks redis_now) two_redis_runs"
proof -
  let ?st = "redis_scheduler_store memory_redis"
  let ?g = "\<lparr>fl_store = one_redis_lease, fl_clock = redis_now, fl_holders = [redis_run ''a'' ''78''], fl_completed = []\<rparr>"
  have token: "sr_Token (redis_run name t) = t" for name t by (simp add: redis_run_def)
  have "fleet_step ?st (new_fleet two_redis_tasks redis_now) ?g"
    using fleet_step.reserve [of ?st "\<lparr>re_random = Some ''x'', re_io = ScriptReplies\<rparr>" LiveContext redis_fleet_options
        "''a''" 5 "new_fleet two_redis_tasks redis_now"] redis_runs(1)
    by (simp add: redis_reserve_at_def new_fleet_def token)
  moreover have "fleet_step ?st ?g two_redis_runs"
    using fleet_step.reserve [of ?st "\<lparr>re_random = Some ''y'', re_io = ScriptReplies\<rparr>" LiveContext redis_fleet_options
        "''b''" 5 ?g] redis_runs(2)
    by (simp add: redis_reserve_at_def two_redis_runs_def token)
  ultimately show ?thesis by (blast intro: fleet_reach.intros)
qed

theorem one_scheduler_runs_a_redis_task_witness:
  "st_Name (sr_Task (fl_holders two_redis_runs ! 0)) \<noteq> st_Name (sr_Task (fl_holders two_redis_runs ! 1))"
proof (rule one_scheduler_runs_a_redis_task [OF memory_redis_server two_redis_runs_reached])
  have "redis_now < whole_micros (redis_now + 20000)" by code_simp
  then show "fl_clock two_redis_runs < whole_micros (sr_ReservedUntil (fl_holders two_redis_runs ! 0))"
    "fl_clock two_redis_runs < whole_micros (sr_ReservedUntil (fl_holders two_redis_runs ! 1))"
    by (simp_all add: two_redis_runs_def redis_run_def)
qed (simp_all add: two_redis_runs_def)

theorem redis_reserve_between_microseconds_witness:
  "RedisSchedulerReserve memory_redis LiveContext ''a'' (redis_now + 1) 20000 (Some ''x'') ScriptReplies two_redis_tasks =
     (HSET memory_redis () ''a'' ((due_task ''a'')\<lparr>rm_ReservationToken := ''78'', rm_ReservedUntil := ''30''\<rparr>) two_redis_tasks,
      Inl (redisSchedulerStoreError ''decode reserved task''))"
proof -
  have "(redis_now + 1 + sc_LeaseDuration redis_fleet_options) mod 1000 \<noteq> 0" by code_simp
  note x = redis_reserve_between_microseconds [OF memory_redis_server this, of undefined undefined "''a''" undefined two_redis_tasks
    "due_task ''a''" "''30''" "''x''", THEN conjunct2, THEN mp]
  have "HGET memory_redis () ''a'' two_redis_tasks = Some (due_task ''a'')" by (simp add: memory_redis_def two_redis_tasks_def)
  moreover have "\<not> task_corrupt ''a'' (due_task ''a'')" "rm_ReservationToken (due_task ''a'') = []"
    "tonumber (rm_NextRunAt (due_task ''a'')) \<le> unix_micro (redis_now + 1)" "validRedisScheduledTaskName ''a''" "redis_now + 1 \<noteq> 0"
    "0 < sc_LeaseDuration redis_fleet_options" "redisSchedulerStoreTime (redis_now + 1) \<noteq> None"
    "redisSchedulerStoreTime (redis_now + 1 + sc_LeaseDuration redis_fleet_options) = Some ''30''" "hex_encode ''x'' = ''78''"
    "sc_LeaseDuration redis_fleet_options = 20000"
    by code_simp+
  ultimately show ?thesis using x by simp
qed

end
