(* ===== verification/SchedulerDynamic.thy ===== *)
theory SchedulerDynamic
  imports Scheduler
begin

text \<open>
  The scheduler's goroutines: \<open>src/backend/framework/scheduler.go\<close> and
  \<open>scheduler_dynamic.go\<close>. A scheduler has one runner for each registered task and one for each
  task started with \<open>StartTask\<close>, which its handle controls. A step is one action of one
  goroutine; as in \<open>JobQueueLifecycle\<close> it is \<open>None\<close> when the goroutine is elsewhere or
  blocked, and a sequence of steps is an interleaving.

  \<open>hd_owed\<close> and \<open>hd_runs\<close> are for the statements: whether a trigger was accepted since the
  last invocation began, and how many invocations have begun.
\<close>

section \<open>A dynamic task and its handle\<close>

text \<open>
  Where the runner is: at the top of its loop; past the first critical section, with the interval, the
  revision and the trigger it read; waiting for its timer; past the timer; about to invoke; invoking;
  in its deferred function; gone.
\<close>

datatype dyn_place =
    DynTop
  | DynRead duration "64 word" bool
  | DynWaiting duration "64 word"
  | DynFired "64 word"
  | DynLaunch
  | DynRunning
  | DynDeferred
  | DynGone

record ScheduledTaskHandle =
  hd_name :: string
  hd_interval :: duration
  hd_revision :: "64 word"
  hd_trigger :: bool
  hd_wake :: bool
  hd_cancelled :: bool
  hd_done :: bool
  hd_place :: dyn_place
  hd_owed :: bool
  hd_runs :: nat

definition new_handle :: "string \<Rightarrow> duration \<Rightarrow> ScheduledTaskHandle" where
  "new_handle name interval =
     \<lparr>hd_name = name, hd_interval = interval, hd_revision = 0, hd_trigger = False, hd_wake = False,
      hd_cancelled = False, hd_done = False, hd_place = DynTop, hd_owed = False, hd_runs = 0\<rparr>"

text \<open>The channel \<open>wake\<close> holds one element: notifying a full one and draining an empty one do nothing.\<close>

definition notify :: "ScheduledTaskHandle \<Rightarrow> ScheduledTaskHandle" where
  "notify h = h\<lparr>hd_wake := True\<rparr>"

definition drainWake :: "ScheduledTaskHandle \<Rightarrow> ScheduledTaskHandle" where
  "drainWake h = h\<lparr>hd_wake := False\<rparr>"

definition HandleStop :: "ScheduledTaskHandle \<Rightarrow> ScheduledTaskHandle" where
  "HandleStop h = h\<lparr>hd_cancelled := True\<rparr>"

definition SetInterval :: "duration \<Rightarrow> ScheduledTaskHandle \<Rightarrow> ScheduledTaskHandle \<times> (sched_error + unit)" where
  "SetInterval interval h =
     (if interval \<le> 0 then (h, Inl ErrInvalidScheduledTask)
      else if hd_cancelled h then (h, Inl ErrScheduledTaskStopped)
      else (notify (h\<lparr>hd_interval := interval, hd_revision := hd_revision h + 1\<rparr>), Inr ()))"

definition TriggerNow :: "ScheduledTaskHandle \<Rightarrow> ScheduledTaskHandle \<times> (sched_error + unit)" where
  "TriggerNow h =
     (if hd_cancelled h then (h, Inl ErrScheduledTaskStopped)
      else (notify (h\<lparr>hd_trigger := True, hd_owed := True\<rparr>), Inr ()))"

text \<open>
  \<open>runDynamicTask\<close> up to its deferred function. \<open>timer\<close> tells whether the timer has fired;
  of the branches of a select that are ready the environment picks one, \<open>prefer\<close>.
\<close>

datatype dyn_choice = TakeDone | TakeWake | TakeTimer

definition dyn_step :: "dyn_choice \<Rightarrow> ScheduledTaskHandle \<Rightarrow> ScheduledTaskHandle option" where
  "dyn_step prefer h =
     (case hd_place h of
        DynTop \<Rightarrow>
          Some (drainWake (h\<lparr>hd_place := DynRead (hd_interval h) (hd_revision h) (hd_trigger h), hd_trigger := False\<rparr>))
      | DynRead interval revision trigger \<Rightarrow>
          Some (h\<lparr>hd_place := (if hd_cancelled h then DynDeferred
                              else if trigger then DynLaunch else DynWaiting interval revision)\<rparr>)
      | DynWaiting interval revision \<Rightarrow>
          (case prefer of
             TakeDone \<Rightarrow> if hd_cancelled h then Some (h\<lparr>hd_place := DynDeferred\<rparr>) else None
           | TakeWake \<Rightarrow> if hd_wake h then Some (h\<lparr>hd_wake := False, hd_place := DynTop\<rparr>) else None
           | TakeTimer \<Rightarrow> Some (h\<lparr>hd_place := DynFired revision\<rparr>))
      | DynFired revision \<Rightarrow>
          Some (drainWake (h\<lparr>hd_place := (if revision \<noteq> hd_revision h \<and> \<not> hd_trigger h then DynTop else DynLaunch),
                            hd_trigger := False\<rparr>))
      | DynLaunch \<Rightarrow>
          Some (if hd_cancelled h then h\<lparr>hd_place := DynDeferred\<rparr>
                else h\<lparr>hd_place := DynRunning, hd_owed := False, hd_runs := hd_runs h + 1\<rparr>)
      | DynRunning \<Rightarrow> Some (h\<lparr>hd_place := DynTop\<rparr>)
      | _ \<Rightarrow> None)"

section \<open>The scheduler\<close>

text \<open>
  The runner of a registered task (\<open>runTaskLoop\<close>, and \<open>runPersistentTaskLoop\<close>, whose calls
  of the store are in \<open>SchedulerFleet\<close>): at the top of its loop, waiting, running, or done.
\<close>

datatype static_place = StaticTop | StaticWaiting | StaticFired | StaticRunning | StaticExited

record system =
  sy_store :: bool
  sy_state :: schedulerState
  sy_stopping :: bool
  sy_shutdownDone :: bool
  sy_staticNames :: "string list"
  sy_taskNames :: "string list"
  sy_dynamicTasks :: "(string, nat) gomap"
  sy_handles :: "ScheduledTaskHandle list"
  sy_loops :: "static_place list"
  sy_finishing :: bool
  sy_panicked :: bool

definition new_system :: "bool \<Rightarrow> string list \<Rightarrow> system" where
  "new_system store names =
     \<lparr>sy_store = store, sy_state = schedulerCollecting, sy_stopping = False, sy_shutdownDone = False,
      sy_staticNames = names, sy_taskNames = names, sy_dynamicTasks = [], sy_handles = [], sy_loops = [],
      sy_finishing = False, sy_panicked = False\<rparr>"

text \<open>\<open>runnable\<close> is the number of tasks for which \<open>Start\<close> starts a runner.\<close>

definition SchedulerStart :: "nat \<Rightarrow> system \<Rightarrow> system \<times> (sched_error + unit)" where
  "SchedulerStart runnable s =
     (case sy_state s of
        schedulerRunning \<Rightarrow> (s, Inr ())
      | schedulerStopping \<Rightarrow> (s, Inl ErrSchedulerStopped)
      | schedulerStopped \<Rightarrow> (s, Inl ErrSchedulerStopped)
      | schedulerCollecting \<Rightarrow>
          (s\<lparr>sy_state := schedulerRunning, sy_loops := replicate runnable StaticTop\<rparr>, Inr ()))"

definition StartTask :: "string \<Rightarrow> duration \<Rightarrow> bool \<Rightarrow> system \<Rightarrow> system \<times> (sched_error + nat)" where
  "StartTask name interval nilTask s =
     (let nm = trim_space name in
      if nm = [] \<or> interval \<le> 0 \<or> nilTask then (s, Inl ErrInvalidScheduledTask)
      else if sy_state s = schedulerStopping \<or> sy_state s = schedulerStopped then (s, Inl ErrSchedulerStopped)
      else if sy_state s \<noteq> schedulerRunning then (s, Inl ErrSchedulerNotRunning)
      else if sy_store s then (s, Inl ErrDynamicSchedulingUnsupported)
      else if nm \<in> set (sy_taskNames s) then (s, Inl (ErrScheduledTaskAlreadyDefined nm))
      else (s\<lparr>sy_taskNames := nm # sy_taskNames s,
              sy_dynamicTasks := AList.update nm (length (sy_handles s)) (sy_dynamicTasks s),
              sy_handles := sy_handles s @ [new_handle nm interval]\<rparr>, Inr (length (sy_handles s))))"

text \<open>An action on the handle with the given number.\<close>

definition on_handle :: "nat \<Rightarrow> (ScheduledTaskHandle \<Rightarrow> ScheduledTaskHandle option) \<Rightarrow> system \<Rightarrow> system option" where
  "on_handle i f s =
     (if i < length (sy_handles s)
      then map_option (\<lambda>h. s\<lparr>sy_handles := (sy_handles s)[i := h]\<rparr>) (f (sy_handles s ! i))
      else None)"

text \<open>The deferred function of \<open>runDynamicTask\<close>.\<close>

definition dyn_deferred :: "nat \<Rightarrow> system \<Rightarrow> system option" where
  "dyn_deferred i s =
     (if i < length (sy_handles s) \<and> hd_place (sy_handles s ! i) = DynDeferred then
        let h = sy_handles s ! i in
        if hd_done h then Some (s\<lparr>sy_panicked := True\<rparr>)
        else Some (s\<lparr>sy_dynamicTasks := AList.delete (hd_name h) (sy_dynamicTasks s),
                     sy_taskNames := removeAll (hd_name h) (sy_taskNames s),
                     sy_handles := (sy_handles s)[i := h\<lparr>hd_cancelled := True, hd_done := True, hd_place := DynGone\<rparr>]\<rparr>)
      else None)"

text \<open>\<open>runTaskLoop\<close>: \<open>hasNext\<close> tells whether the schedule has a next run.\<close>

definition static_step :: "nat \<Rightarrow> bool \<Rightarrow> bool \<Rightarrow> system \<Rightarrow> system option" where
  "static_step k hasNext takeStop s =
     (if k < length (sy_loops s) then
        (case sy_loops s ! k of
           StaticTop \<Rightarrow> Some (s\<lparr>sy_loops := (sy_loops s)[k := if sy_stopping s \<or> \<not> hasNext then StaticExited else StaticWaiting]\<rparr>)
         | StaticWaiting \<Rightarrow>
             if takeStop then (if sy_stopping s then Some (s\<lparr>sy_loops := (sy_loops s)[k := StaticExited]\<rparr>) else None)
             else Some (s\<lparr>sy_loops := (sy_loops s)[k := StaticFired]\<rparr>)
         | StaticFired \<Rightarrow> Some (s\<lparr>sy_loops := (sy_loops s)[k := if sy_stopping s then StaticExited else StaticRunning]\<rparr>)
         | StaticRunning \<Rightarrow> Some (s\<lparr>sy_loops := (sy_loops s)[k := StaticTop]\<rparr>)
         | StaticExited \<Rightarrow> None)
      else None)"

datatype sched_shutdown = SchedReturns "sched_error option" | SchedWaits

definition stop_handles :: "(string, nat) gomap \<Rightarrow> ScheduledTaskHandle list \<Rightarrow> ScheduledTaskHandle list" where
  "stop_handles m hs = fold (\<lambda>(name, i) hs. if i < length hs then hs[i := HandleStop (hs ! i)] else hs) m hs"

definition SchedulerShutdown :: "go_context \<Rightarrow> system \<Rightarrow> system \<times> sched_shutdown" where
  "SchedulerShutdown ctx s =
     (if ctx = NilContext then (s, SchedReturns (Some ErrSchedContextUnavailable))
      else case sy_state s of
        schedulerStopped \<Rightarrow> (s, SchedReturns None)
      | schedulerStopping \<Rightarrow> (s, SchedWaits)
      | schedulerCollecting \<Rightarrow>
          (case ctx_err ctx of
             Some e \<Rightarrow> (s, SchedReturns (Some (ErrSchedContext e)))
           | None \<Rightarrow>
               if sy_stopping s \<or> sy_shutdownDone s then (s\<lparr>sy_panicked := True\<rparr>, SchedReturns None)
               else (s\<lparr>sy_state := schedulerStopped, sy_stopping := True, sy_shutdownDone := True\<rparr>, SchedReturns None))
      | schedulerRunning \<Rightarrow>
          (case ctx_err ctx of
             Some e \<Rightarrow> (s, SchedReturns (Some (ErrSchedContext e)))
           | None \<Rightarrow>
               if sy_stopping s then (s\<lparr>sy_panicked := True\<rparr>, SchedReturns None)
               else (s\<lparr>sy_state := schedulerStopping, sy_stopping := True,
                       sy_handles := stop_handles (sy_dynamicTasks s) (sy_handles s), sy_finishing := True\<rparr>, SchedWaits)))"

text \<open>The wait group counts the runners that have neither exited nor finished their deferred function.\<close>

definition runners_done :: "system \<Rightarrow> bool" where
  "runners_done s = (list_all (\<lambda>p. p = StaticExited) (sy_loops s) \<and> list_all (\<lambda>h. hd_place h = DynGone) (sy_handles s))"

definition scheduler_finishShutdown :: "system \<Rightarrow> system option" where
  "scheduler_finishShutdown s =
     (if sy_finishing s \<and> runners_done s then
        (if sy_shutdownDone s then Some (s\<lparr>sy_panicked := True\<rparr>)
         else Some (s\<lparr>sy_state := schedulerStopped, sy_shutdownDone := True, sy_finishing := False\<rparr>))
      else None)"

definition SchedulerRunning :: "system option \<Rightarrow> bool" where
  "SchedulerRunning q = (case q of None \<Rightarrow> False | Some s \<Rightarrow> sy_state s = schedulerRunning)"

definition SchedulerStopped :: "system option \<Rightarrow> bool" where
  "SchedulerStopped q = (case q of None \<Rightarrow> False | Some s \<Rightarrow> sy_state s = schedulerStopped)"

datatype sched_action =
    ActStart nat | ActStartTask string duration bool | ActShutdown go_context
  | ActStop nat | ActSetInterval nat duration | ActTrigger nat
  | ActDynamic nat dyn_choice | ActDeferred nat | ActStatic nat bool bool | ActFinish

fun sched_act :: "sched_action \<Rightarrow> system \<Rightarrow> system option" where
  "sched_act (ActStart n) s = Some (fst (SchedulerStart n s))"
| "sched_act (ActStartTask name interval nilTask) s = Some (fst (StartTask name interval nilTask s))"
| "sched_act (ActShutdown ctx) s = Some (fst (SchedulerShutdown ctx s))"
| "sched_act (ActStop i) s = on_handle i (\<lambda>h. Some (HandleStop h)) s"
| "sched_act (ActSetInterval i d) s = on_handle i (\<lambda>h. Some (fst (SetInterval d h))) s"
| "sched_act (ActTrigger i) s = on_handle i (\<lambda>h. Some (fst (TriggerNow h))) s"
| "sched_act (ActDynamic i c) s = on_handle i (dyn_step c) s"
| "sched_act (ActDeferred i) s = dyn_deferred i s"
| "sched_act (ActStatic k n t) s = static_step k n t s"
| "sched_act ActFinish s = scheduler_finishShutdown s"

fun sched_run :: "sched_action list \<Rightarrow> system \<Rightarrow> system option" where
  "sched_run [] s = Some s"
| "sched_run (a # as) s = Option.bind (sched_act a s) (sched_run as)"

inductive sched_reachable :: "system \<Rightarrow> bool" where
  new: "sched_reachable (new_system store names)"
| act: "sched_reachable s \<Longrightarrow> sched_act a s = Some s' \<Longrightarrow> sched_reachable s'"

section \<open>Handles\<close>

text \<open>
  A runner that waits has a wake-up coming for every trigger and every change of interval since it
  read the handle; a trigger is owed until an invocation begins.
\<close>

definition handle_inv :: "ScheduledTaskHandle \<Rightarrow> bool" where
  "handle_inv h =
     ((case hd_place h of
         DynRead i r t \<Rightarrow> (hd_trigger h \<longrightarrow> hd_wake h) \<and> (hd_revision h \<noteq> r \<longrightarrow> hd_wake h)
       | DynWaiting i r \<Rightarrow> (hd_trigger h \<longrightarrow> hd_wake h) \<and> (hd_revision h \<noteq> r \<longrightarrow> hd_wake h)
       | _ \<Rightarrow> True) \<and>
      (hd_owed h \<longrightarrow> hd_cancelled h \<or> hd_trigger h \<or> hd_place h = DynLaunch \<or>
         (case hd_place h of DynRead i r t \<Rightarrow> t | _ \<Rightarrow> False)) \<and>
      (hd_place h = DynDeferred \<longrightarrow> hd_cancelled h) \<and> (hd_done h \<longleftrightarrow> hd_place h = DynGone) \<and>
      (hd_place h = DynGone \<longrightarrow> hd_cancelled h))"

lemma handle_inv_new: "handle_inv (new_handle name interval)"
  by (simp add: handle_inv_def new_handle_def)

lemma handle_inv_ops:
  assumes "handle_inv h"
  shows "handle_inv (HandleStop h)" "handle_inv (fst (SetInterval d h))" "handle_inv (fst (TriggerNow h))"
  using assms
  by (auto simp: handle_inv_def HandleStop_def SetInterval_def TriggerNow_def notify_def split: dyn_place.splits)

lemma handle_inv_step: "handle_inv h \<Longrightarrow> dyn_step c h = Some h' \<Longrightarrow> handle_inv h'"
  by (cases "hd_place h"; cases c) (auto simp: handle_inv_def dyn_step_def drainWake_def split: if_splits)

lemma handle_ops_frame:
  "hd_name (HandleStop h) = hd_name h" "hd_name (fst (SetInterval d h)) = hd_name h" "hd_name (fst (TriggerNow h)) = hd_name h"
  "hd_place (HandleStop h) = hd_place h" "hd_place (fst (SetInterval d h)) = hd_place h" "hd_place (fst (TriggerNow h)) = hd_place h"
  by (auto simp: HandleStop_def SetInterval_def TriggerNow_def notify_def)

lemma handle_ops_cancelled:
  "hd_cancelled (HandleStop h)" "hd_cancelled (fst (SetInterval d h)) = hd_cancelled h" "hd_cancelled (fst (TriggerNow h)) = hd_cancelled h"
  by (auto simp: HandleStop_def SetInterval_def TriggerNow_def notify_def)

lemma dyn_step_frame:
  "dyn_step c h = Some h' \<Longrightarrow> hd_name h' = hd_name h \<and> hd_cancelled h' = hd_cancelled h \<and> hd_place h \<noteq> DynGone \<and> hd_place h' \<noteq> DynGone"
  by (cases "hd_place h"; cases c) (auto simp: dyn_step_def drainWake_def split: if_splits)

section \<open>The scheduler's invariant\<close>

definition gone :: "ScheduledTaskHandle \<Rightarrow> bool" where
  "gone h = (hd_place h = DynGone)"

definition system_inv :: "system \<Rightarrow> bool" where
  "system_inv s =
     (\<not> sy_panicked s \<and> list_all handle_inv (sy_handles s) \<and> gomap_wf (sy_dynamicTasks s) \<and>
      (\<forall>i < length (sy_handles s). if gone (sy_handles s ! i) then \<forall>n. map_of (sy_dynamicTasks s) n \<noteq> Some i
         else map_of (sy_dynamicTasks s) (hd_name (sy_handles s ! i)) = Some i) \<and>
      (\<forall>n i. map_of (sy_dynamicTasks s) n = Some i \<longrightarrow> i < length (sy_handles s) \<and> hd_name (sy_handles s ! i) = n) \<and>
      set (sy_taskNames s) = set (sy_staticNames s) \<union> dom (map_of (sy_dynamicTasks s)) \<and>
      set (sy_staticNames s) \<inter> dom (map_of (sy_dynamicTasks s)) = {} \<and>
      (sy_stopping s \<longleftrightarrow> sy_state s \<in> {schedulerStopping, schedulerStopped}) \<and>
      (sy_shutdownDone s \<longleftrightarrow> sy_state s = schedulerStopped) \<and>
      (sy_finishing s \<longleftrightarrow> sy_state s = schedulerStopping) \<and>
      (sy_stopping s \<longrightarrow> list_all hd_cancelled (sy_handles s)) \<and>
      (sy_state s = schedulerStopped \<longrightarrow> runners_done s) \<and>
      (sy_state s = schedulerCollecting \<longrightarrow> sy_dynamicTasks s = [] \<and> sy_handles s = [] \<and> sy_loops s = []))"


lemma list_all_put: "list_all P xs \<Longrightarrow> P y \<Longrightarrow> list_all P (xs[i := y])"
  using set_update_subset_insert[of xs i y] by (auto simp: list_all_iff)

lemma system_inv_names:
  assumes "system_inv s"
  shows "set (sy_taskNames s) = set (sy_staticNames s) \<union> dom (map_of (sy_dynamicTasks s))"
    and "set (sy_staticNames s) \<inter> dom (map_of (sy_dynamicTasks s)) = {}"
  using assms by (simp_all add: system_inv_def)

lemma system_inv_stopped: "system_inv s \<Longrightarrow> sy_state s = schedulerStopped \<Longrightarrow> runners_done s"
  by (simp add: system_inv_def)

lemma system_inv_collecting:
  "system_inv s \<Longrightarrow> sy_state s = schedulerCollecting \<Longrightarrow> sy_dynamicTasks s = [] \<and> sy_handles s = [] \<and> sy_loops s = []"
  by (simp add: system_inv_def)

lemma system_inv_handles:
  "system_inv s \<Longrightarrow> list_all handle_inv (sy_handles s) \<and> (sy_stopping s \<longrightarrow> list_all hd_cancelled (sy_handles s))"
  by (simp add: system_inv_def)

lemma runners_done_gone: "runners_done s \<longleftrightarrow> (\<forall>p \<in> set (sy_loops s). p = StaticExited) \<and> (\<forall>i < length (sy_handles s). gone (sy_handles s ! i))"
  by (auto simp: runners_done_def list_all_iff gone_def all_set_conv_all_nth)

text \<open>An action on a handle that keeps what the scheduler knows of it keeps the scheduler's invariant.\<close>

lemma system_inv_on_handle:
  assumes inv: "system_inv s" and st: "on_handle i f s = Some s'"
    and keeps: "\<And>h h'. handle_inv h \<Longrightarrow> f h = Some h' \<Longrightarrow>
      handle_inv h' \<and> hd_name h' = hd_name h \<and> (hd_cancelled h \<longrightarrow> hd_cancelled h') \<and> gone h' = gone h"
  shows "system_inv s'"
proof -
  obtain h' where i: "i < length (sy_handles s)" and f: "f (sy_handles s ! i) = Some h'"
    and s': "s' = s\<lparr>sy_handles := (sy_handles s)[i := h']\<rparr>"
    using st by (auto simp: on_handle_def split: if_splits)
  have "handle_inv (sy_handles s ! i)" using inv i by (simp add: system_inv_def list_all_length)
  note k = keeps[OF this f]
  have nth: "(sy_handles s)[i := h'] ! j = (if j = i then h' else sy_handles s ! j)" if "j < length (sy_handles s)" for j
    using that by (simp add: nth_list_update)
  have names: "hd_name ((sy_handles s)[i := h'] ! j) = hd_name (sy_handles s ! j)" for j
    using k i by (cases "j = i") auto
  have gones: "gone ((sy_handles s)[i := h'] ! j) = gone (sy_handles s ! j)" for j
    using k i by (cases "j = i") auto
  have canc: "hd_cancelled (sy_handles s ! j) \<Longrightarrow> hd_cancelled ((sy_handles s)[i := h'] ! j)" for j
    using k i by (cases "j = i") auto
  have invs: "handle_inv (sy_handles s ! j) \<Longrightarrow> handle_inv ((sy_handles s)[i := h'] ! j)" for j
    using k i by (cases "j = i") auto
  have empty: "sy_handles s = [] \<longleftrightarrow> (sy_handles s)[i := h'] = []" by simp
  show ?thesis
    using inv unfolding system_inv_def s' runners_done_gone
    by (simp add: names gones list_all_length canc invs)
qed

lemma gone_frame: "hd_place h' = hd_place h \<Longrightarrow> gone h' = gone h"
  by (simp add: gone_def)

lemma system_inv_handle_ops:
  assumes "system_inv s"
  shows "on_handle i (\<lambda>h. Some (HandleStop h)) s = Some s' \<Longrightarrow> system_inv s'"
    and "on_handle i (\<lambda>h. Some (fst (SetInterval d h))) s = Some s' \<Longrightarrow> system_inv s'"
    and "on_handle i (\<lambda>h. Some (fst (TriggerNow h))) s = Some s' \<Longrightarrow> system_inv s'"
    and "on_handle i (dyn_step c) s = Some s' \<Longrightarrow> system_inv s'"
proof -
  show "on_handle i (\<lambda>h. Some (HandleStop h)) s = Some s' \<Longrightarrow> system_inv s'"
    by (erule system_inv_on_handle[OF assms]) (auto simp: handle_inv_ops handle_ops_frame handle_ops_cancelled gone_def)
  show "on_handle i (\<lambda>h. Some (fst (SetInterval d h))) s = Some s' \<Longrightarrow> system_inv s'"
    by (erule system_inv_on_handle[OF assms]) (auto simp: handle_inv_ops handle_ops_frame handle_ops_cancelled gone_def)
  show "on_handle i (\<lambda>h. Some (fst (TriggerNow h))) s = Some s' \<Longrightarrow> system_inv s'"
    by (erule system_inv_on_handle[OF assms]) (auto simp: handle_inv_ops handle_ops_frame handle_ops_cancelled gone_def)
  show "on_handle i (dyn_step c) s = Some s' \<Longrightarrow> system_inv s'"
    by (erule system_inv_on_handle[OF assms]) (auto dest: dyn_step_frame handle_inv_step simp: gone_def)
qed

lemma stop_handles_length: "length (stop_handles m hs) = length hs"
  unfolding stop_handles_def by (induction m arbitrary: hs) (auto simp: case_prod_beta)

lemma stop_handles_nth:
  "i < length hs \<Longrightarrow> stop_handles m hs ! i = (if i \<in> snd ` set m then HandleStop (hs ! i) else hs ! i)"
proof (induction m arbitrary: hs)
  case Nil
  then show ?case by (simp add: stop_handles_def)
next
  case (Cons p m)
  have *: "stop_handles (p # m) hs = stop_handles m (if snd p < length hs then hs[snd p := HandleStop (hs ! snd p)] else hs)"
    by (simp add: stop_handles_def case_prod_beta)
  have idem: "HandleStop (HandleStop h) = HandleStop h" for h by (simp add: HandleStop_def)
  show ?case using Cons.prems unfolding * by (auto simp: Cons.IH nth_list_update idem)
qed

text \<open>Every handle whose runner has not finished is in \<open>dynamicTasks\<close>, so \<open>Shutdown\<close> stops them all.\<close>

lemma shutdown_cancels_all:
  assumes inv: "system_inv s" and i: "i < length (sy_handles s)"
  shows "hd_cancelled (stop_handles (sy_dynamicTasks s) (sy_handles s) ! i)"
proof (cases "gone (sy_handles s ! i)")
  case True
  have "handle_inv (sy_handles s ! i)" using inv i by (simp add: system_inv_def list_all_length)
  then have "hd_cancelled (sy_handles s ! i)" using True by (simp add: handle_inv_def gone_def)
  then show ?thesis using i by (simp add: stop_handles_nth handle_ops_cancelled)
next
  case False
  then have "map_of (sy_dynamicTasks s) (hd_name (sy_handles s ! i)) = Some i"
    using inv i by (simp add: system_inv_def)
  then have "i \<in> snd ` set (sy_dynamicTasks s)" by (force dest: map_of_SomeD)
  then show ?thesis using i by (simp add: stop_handles_nth handle_ops_cancelled)
qed


lemma system_inv_shutdown:
  assumes inv: "system_inv s"
  shows "system_inv (fst (SchedulerShutdown ctx s))"
proof -
  let ?hs = "stop_handles (sy_dynamicTasks s) (sy_handles s)"
  have names: "i < length (sy_handles s) \<Longrightarrow> hd_name (?hs ! i) = hd_name (sy_handles s ! i)"
    and gones: "i < length (sy_handles s) \<Longrightarrow> gone (?hs ! i) = gone (sy_handles s ! i)"
    and invs: "i < length (sy_handles s) \<Longrightarrow> handle_inv (sy_handles s ! i) \<Longrightarrow> handle_inv (?hs ! i)" for i
    by (auto simp: stop_handles_nth handle_ops_frame handle_inv_ops gone_def)
  have running: "system_inv (s\<lparr>sy_state := schedulerStopping, sy_stopping := True, sy_handles := ?hs, sy_finishing := True\<rparr>)"
    if st: "sy_state s = schedulerRunning"
    using inv st shutdown_cancels_all[OF inv] unfolding system_inv_def runners_done_gone
    by (simp add: list_all_length stop_handles_length names gones invs)
  have collecting: "system_inv (s\<lparr>sy_state := schedulerStopped, sy_stopping := True, sy_shutdownDone := True\<rparr>)"
    if st: "sy_state s = schedulerCollecting"
    using inv st unfolding system_inv_def runners_done_gone by simp
  have flags: "sy_state s = schedulerRunning \<Longrightarrow> \<not> sy_stopping s" "sy_state s = schedulerCollecting \<Longrightarrow> \<not> sy_stopping s \<and> \<not> sy_shutdownDone s"
    using inv by (auto simp: system_inv_def)
  show ?thesis
    using inv running collecting flags
    by (cases "sy_state s") (simp_all add: SchedulerShutdown_def split: option.splits)
qed

text \<open>When a task is started or has ended, the tables of a scheduler that is not stopped still fit together.\<close>

lemma system_inv_tables:
  assumes inv: "system_inv s" and hs: "list_all handle_inv hs" and wf: "gomap_wf m"
    and A: "\<And>j. j < length hs \<Longrightarrow> if gone (hs ! j) then \<forall>n. map_of m n \<noteq> Some j else map_of m (hd_name (hs ! j)) = Some j"
    and B: "\<And>n j. map_of m n = Some j \<Longrightarrow> j < length hs \<and> hd_name (hs ! j) = n"
    and N: "set ns = set (sy_staticNames s) \<union> dom (map_of m)" "set (sy_staticNames s) \<inter> dom (map_of m) = {}"
    and C: "sy_stopping s \<Longrightarrow> list_all hd_cancelled hs"
    and state: "sy_state s \<noteq> schedulerStopped" "sy_state s \<noteq> schedulerCollecting"
  shows "system_inv (s\<lparr>sy_dynamicTasks := m, sy_taskNames := ns, sy_handles := hs\<rparr>)"
proof -
  have rest: "\<not> sy_panicked s" "sy_stopping s \<longleftrightarrow> sy_state s \<in> {schedulerStopping, schedulerStopped}"
    "sy_shutdownDone s \<longleftrightarrow> sy_state s = schedulerStopped" "sy_finishing s \<longleftrightarrow> sy_state s = schedulerStopping"
    using inv by (simp_all add: system_inv_def)
  have A': "\<forall>j < length hs. if gone (hs ! j) then \<forall>n. map_of m n \<noteq> Some j else map_of m (hd_name (hs ! j)) = Some j"
    using A by blast
  have B': "\<forall>n j. map_of m n = Some j \<longrightarrow> j < length hs \<and> hd_name (hs ! j) = n" using B by blast
  have C': "sy_stopping s \<longrightarrow> list_all hd_cancelled hs" using C by blast
  show ?thesis
    using rest hs wf A' B' C' N state unfolding system_inv_def by simp
qed

lemma system_inv_start: "system_inv s \<Longrightarrow> system_inv (fst (SchedulerStart n s))"
  by (cases "sy_state s") (simp_all add: SchedulerStart_def system_inv_def runners_done_def)

lemma system_inv_start_task:
  assumes inv: "system_inv s"
  shows "system_inv (fst (StartTask name interval nilTask s))"
proof (cases "fst (StartTask name interval nilTask s) = s")
  case True then show ?thesis using inv by simp
next
  case False
  let ?nm = "trim_space name" and ?k = "length (sy_handles s)"
  have s': "fst (StartTask name interval nilTask s) = s\<lparr>sy_taskNames := ?nm # sy_taskNames s,
              sy_dynamicTasks := AList.update ?nm ?k (sy_dynamicTasks s),
              sy_handles := sy_handles s @ [new_handle ?nm interval]\<rparr>"
    and run: "sy_state s = schedulerRunning" and fresh: "?nm \<notin> set (sy_taskNames s)"
    using False by (auto simp: StartTask_def Let_def split: if_splits)
  have new: "hd_name (new_handle ?nm interval) = ?nm" "\<not> gone (new_handle ?nm interval)"
    by (simp_all add: new_handle_def gone_def)
  have fresh': "map_of (sy_dynamicTasks s) ?nm = None" "?nm \<notin> set (sy_staticNames s)"
    using system_inv_names[OF inv] fresh by auto
  have bound: "map_of (sy_dynamicTasks s) n = Some i \<Longrightarrow> i < ?k \<and> hd_name (sy_handles s ! i) = n" for n i
    using inv by (simp add: system_inv_def)
  have live: "map_of (sy_dynamicTasks s) (hd_name (sy_handles s ! i)) = Some i" if "i < ?k" "\<not> gone (sy_handles s ! i)" for i
    using inv that by (simp add: system_inv_def)
  have dead: "map_of (sy_dynamicTasks s) n \<noteq> Some i" if "i < ?k" "gone (sy_handles s ! i)" for n i
    using inv that by (simp add: system_inv_def)
  let ?hs = "sy_handles s @ [new_handle ?nm interval]" and ?m = "AList.update ?nm ?k (sy_dynamicTasks s)"
  have A: "if gone (?hs ! i) then \<forall>n. map_of ?m n \<noteq> Some i else map_of ?m (hd_name (?hs ! i)) = Some i"
    if "i < length ?hs" for i
  proof (cases "i < ?k")
    case True
    then have nth: "?hs ! i = sy_handles s ! i" by (simp add: nth_append)
    have "hd_name (sy_handles s ! i) \<noteq> ?nm" if "\<not> gone (sy_handles s ! i)" using live[OF True that] fresh' by auto
    then show ?thesis using live[OF True] dead[OF True] True unfolding nth by (simp add: update_conv')
  next
    case False
    then have "i = ?k" using that by simp
    then show ?thesis using new by (simp add: update_conv')
  qed
  have B: "i < length ?hs \<and> hd_name (?hs ! i) = n" if "map_of ?m n = Some i" for n i
    using that bound[of n i] new by (cases "n = ?nm") (auto simp: update_conv' nth_append)
  have N: "set (?nm # sy_taskNames s) = set (sy_staticNames s) \<union> dom (map_of ?m)"
    "set (sy_staticNames s) \<inter> dom (map_of ?m) = {}"
    using system_inv_names[OF inv] fresh' by (auto simp: update_conv')
  have R: "list_all handle_inv ?hs" "gomap_wf ?m" "sy_stopping s \<Longrightarrow> list_all hd_cancelled ?hs"
    "sy_state s \<noteq> schedulerStopped" "sy_state s \<noteq> schedulerCollecting"
    using inv run by (simp_all add: system_inv_def handle_inv_new)
  have "system_inv (s\<lparr>sy_dynamicTasks := ?m, sy_taskNames := ?nm # sy_taskNames s, sy_handles := ?hs\<rparr>)"
    by (rule system_inv_tables[OF inv R(1,2) A B N R(3-5)])
  moreover have "s\<lparr>sy_taskNames := ns, sy_dynamicTasks := m, sy_handles := hs\<rparr> =
      s\<lparr>sy_dynamicTasks := m, sy_taskNames := ns, sy_handles := hs\<rparr>" for ns m hs
    by (cases s) simp
  ultimately show ?thesis unfolding s' by (simp only:)
qed

lemma system_inv_deferred:
  assumes inv: "system_inv s" and st: "dyn_deferred i s = Some s'"
  shows "system_inv s'"
proof -
  let ?h = "sy_handles s ! i"
  let ?g = "?h\<lparr>hd_cancelled := True, hd_done := True, hd_place := DynGone\<rparr>"
  let ?hs = "(sy_handles s)[i := ?g]" and ?m = "AList.delete (hd_name ?h) (sy_dynamicTasks s)"
  have i: "i < length (sy_handles s)" and pl: "hd_place ?h = DynDeferred" using st by (auto simp: dyn_deferred_def split: if_splits)
  have hinv: "handle_inv ?h" using inv i by (simp add: system_inv_def list_all_length)
  have s': "s' = s\<lparr>sy_dynamicTasks := ?m, sy_taskNames := removeAll (hd_name ?h) (sy_taskNames s), sy_handles := ?hs\<rparr>"
    using st hinv pl by (auto simp: dyn_deferred_def handle_inv_def Let_def split: if_splits)
  have own: "map_of (sy_dynamicTasks s) (hd_name ?h) = Some i"
    using inv i pl by (simp add: system_inv_def gone_def)
  have bound: "map_of (sy_dynamicTasks s) n = Some j \<Longrightarrow> j < length (sy_handles s) \<and> hd_name (sy_handles s ! j) = n" for n j
    using inv by (simp add: system_inv_def)
  have live: "map_of (sy_dynamicTasks s) (hd_name (sy_handles s ! j)) = Some j" if "j < length (sy_handles s)" "\<not> gone (sy_handles s ! j)" for j
    using inv that by (simp add: system_inv_def)
  have dead: "map_of (sy_dynamicTasks s) n \<noteq> Some j" if "j < length (sy_handles s)" "gone (sy_handles s ! j)" for n j
    using inv that by (simp add: system_inv_def)
  have g: "gone ?g" "hd_name ?g = hd_name ?h" "handle_inv ?g" using hinv by (simp_all add: gone_def handle_inv_def)
  have A: "if gone (?hs ! j) then \<forall>n. map_of ?m n \<noteq> Some j else map_of ?m (hd_name (?hs ! j)) = Some j"
    if j: "j < length ?hs" for j
  proof (cases "j = i")
    case True
    then have "?hs ! j = ?g" using i by simp
    moreover have "map_of ?m n \<noteq> Some i" for n
      using bound[of n i] by (auto simp: delete_conv')
    ultimately show ?thesis using g True by simp
  next
    case False
    then have nth: "?hs ! j = sy_handles s ! j" and j': "j < length (sy_handles s)" using j by simp_all
    have "hd_name (sy_handles s ! j) \<noteq> hd_name ?h" if "\<not> gone (sy_handles s ! j)"
      using live[OF j' that] own False by auto
    then show ?thesis using live[OF j'] dead[OF j'] unfolding nth by (auto simp: delete_conv')
  qed
  have B: "j < length ?hs \<and> hd_name (?hs ! j) = n" if "map_of ?m n = Some j" for n j
    using that bound[of n j] g i by (cases "j = i") (auto simp: delete_conv' split: if_splits)
  have stat: "hd_name ?h \<notin> set (sy_staticNames s)" using system_inv_names(2)[OF inv] own by blast
  have not_stopped: "sy_state s \<noteq> schedulerStopped"
    using system_inv_stopped[OF inv] i pl by (auto simp: runners_done_def list_all_length)
  have not_coll: "sy_state s \<noteq> schedulerCollecting" using system_inv_collecting[OF inv] i by auto
  have C: "list_all handle_inv ?hs" "sy_stopping s \<Longrightarrow> list_all hd_cancelled ?hs"
    using system_inv_handles[OF inv] g by (auto intro!: list_all_put)
  have N: "set (removeAll (hd_name ?h) (sy_taskNames s)) = set (sy_staticNames s) \<union> dom (map_of ?m)"
    "set (sy_staticNames s) \<inter> dom (map_of ?m) = {}"
    using system_inv_names[OF inv] stat by (auto simp: delete_conv' split: if_splits)
  have wf: "gomap_wf ?m" using inv by (simp add: system_inv_def)
  show ?thesis
    unfolding s' by (rule system_inv_tables[OF inv C(1) wf A B N C(2) not_stopped not_coll])
qed


lemma system_inv_static:
  assumes inv: "system_inv s" and st: "static_step k n t s = Some s'"
  shows "system_inv s'"
proof -
  obtain p where k: "k < length (sy_loops s)" and p: "sy_loops s ! k \<noteq> StaticExited"
    and s': "s' = s\<lparr>sy_loops := (sy_loops s)[k := p]\<rparr>"
    using st by (auto simp: static_step_def split: if_splits static_place.splits)
  have "\<not> runners_done s" using k p by (auto simp: runners_done_def list_all_length)
  then have "sy_state s \<noteq> schedulerStopped" "sy_state s \<noteq> schedulerCollecting"
    using system_inv_stopped[OF inv] system_inv_collecting[OF inv] k by auto
  then show ?thesis using inv unfolding s' system_inv_def by simp
qed

lemma system_inv_finish:
  assumes inv: "system_inv s" and st: "scheduler_finishShutdown s = Some s'"
  shows "system_inv s'"
proof -
  have fin: "sy_finishing s" "runners_done s" using st by (auto simp: scheduler_finishShutdown_def split: if_splits)
  then have state: "sy_state s = schedulerStopping" "\<not> sy_shutdownDone s" using inv by (simp_all add: system_inv_def)
  then have "s' = s\<lparr>sy_state := schedulerStopped, sy_shutdownDone := True, sy_finishing := False\<rparr>"
    using st fin by (simp add: scheduler_finishShutdown_def)
  then show ?thesis using inv fin state by (simp add: system_inv_def runners_done_def)
qed

lemma system_inv_new: "system_inv (new_system store names)"
  by (simp add: system_inv_def new_system_def runners_done_def)

lemma system_inv_act: "system_inv s \<Longrightarrow> sched_act a s = Some s' \<Longrightarrow> system_inv s'"
  by (cases a)
     (auto intro: system_inv_start system_inv_start_task system_inv_shutdown system_inv_handle_ops
        system_inv_deferred system_inv_static system_inv_finish)

lemma sched_reachable_inv: "sched_reachable s \<Longrightarrow> system_inv s"
  by (induction rule: sched_reachable.induct) (auto intro: system_inv_new system_inv_act)

lemma sched_reachable_run: "sched_reachable s \<Longrightarrow> sched_run as s = Some s' \<Longrightarrow> sched_reachable s'"
  by (induction as arbitrary: s) (auto simp: bind_eq_Some_conv intro: sched_reachable.act)

lemma sched_run_append: "sched_run (as @ bs) s = Option.bind (sched_run as s) (sched_run bs)"
  by (induction as arbitrary: s) (auto split: bind_splits)


section \<open>A trigger is carried out\<close>

text \<open>How many steps of the runner are left until it begins the invocation that a trigger asked for.\<close>

fun trigger_distance :: "dyn_place \<Rightarrow> nat" where
  "trigger_distance DynTop = 3"
| "trigger_distance (DynRead i r t) = (if t then 2 else 5)"
| "trigger_distance (DynWaiting i r) = 4"
| "trigger_distance (DynFired r) = 2"
| "trigger_distance DynLaunch = 1"
| "trigger_distance DynRunning = 4"
| "trigger_distance _ = 0"

lemma trigger_step:
  assumes "handle_inv h" "hd_owed h" "\<not> hd_cancelled h" "dyn_step c h = Some h'"
  shows "hd_runs h' = Suc (hd_runs h) \<or>
    hd_runs h' = hd_runs h \<and> hd_owed h' \<and> trigger_distance (hd_place h') < trigger_distance (hd_place h)"
  using assms by (cases "hd_place h"; cases c) (auto simp: handle_inv_def dyn_step_def drainWake_def split: if_splits)

lemma trigger_not_blocked:
  assumes "handle_inv h" "hd_owed h" "\<not> hd_cancelled h"
  shows "\<exists>c h'. dyn_step c h = Some h' \<and> c \<noteq> TakeTimer"
  using assms
  by (cases "hd_place h") (auto simp: handle_inv_def dyn_step_def intro!: exI[of _ TakeWake])

lemma runs_mono: "dyn_step c h = Some h' \<Longrightarrow> hd_runs h \<le> hd_runs h'"
  by (cases "hd_place h"; cases c) (auto simp: dyn_step_def drainWake_def split: if_splits)


text \<open>An action on the scheduler as seen by the handle \<open>i\<close>.\<close>

lemma sched_act_handle:
  assumes inv: "system_inv s" and i: "i < length (sy_handles s)" and st: "sched_act a s = Some s'"
    and live: "\<not> hd_cancelled (sy_handles s' ! i)"
  shows "i < length (sy_handles s') \<and> \<not> hd_cancelled (sy_handles s ! i) \<and>
    (if \<exists>c. a = ActDynamic i c then \<exists>c. dyn_step c (sy_handles s ! i) = Some (sy_handles s' ! i)
     else hd_runs (sy_handles s' ! i) = hd_runs (sy_handles s ! i) \<and> hd_place (sy_handles s' ! i) = hd_place (sy_handles s ! i) \<and>
          (hd_owed (sy_handles s ! i) \<longrightarrow> hd_owed (sy_handles s' ! i)))"
proof (cases a)
  case (ActDynamic j c)
  then obtain h' where h': "dyn_step c (sy_handles s ! j) = Some h'" "j < length (sy_handles s)"
    and s': "s' = s\<lparr>sy_handles := (sy_handles s)[j := h']\<rparr>"
    using st by (auto simp: on_handle_def split: if_splits)
  show ?thesis
    using dyn_step_frame[OF h'(1)] h' live i unfolding s' ActDynamic by (cases "j = i") auto
next
  case (ActStop j)
  then show ?thesis using st i live
    by (cases "j = i") (auto simp: on_handle_def HandleStop_def split: if_splits)
next
  case (ActSetInterval j d)
  then show ?thesis using st i live
    by (cases "j = i") (auto simp: on_handle_def SetInterval_def notify_def split: if_splits)
next
  case (ActTrigger j)
  then show ?thesis using st i live
    by (cases "j = i") (auto simp: on_handle_def TriggerNow_def notify_def split: if_splits)
next
  case (ActDeferred j)
  then show ?thesis using st i live
    by (cases "j = i") (auto simp: dyn_deferred_def Let_def split: if_splits)
next
  case (ActShutdown ctx)
  then show ?thesis using st i live shutdown_cancels_all[OF inv i]
    by (auto simp: SchedulerShutdown_def split: if_splits schedulerState.splits option.splits)
next
  case (ActStart n)
  then show ?thesis using st i live by (auto simp: SchedulerStart_def split: schedulerState.splits)
next
  case (ActStartTask name interval nilTask)
  then show ?thesis using st i live by (auto simp: StartTask_def Let_def nth_append split: if_splits)
next
  case (ActStatic k n t)
  then show ?thesis using st i live by (auto simp: static_step_def split: if_splits static_place.splits)
next
  case ActFinish
  then show ?thesis using st i live by (auto simp: scheduler_finishShutdown_def split: if_splits)
qed

lemma sched_act_length: "sched_act a s = Some s' \<Longrightarrow> i < length (sy_handles s) \<Longrightarrow> i < length (sy_handles s')"
  by (cases a)
     (auto simp: on_handle_def dyn_deferred_def Let_def SchedulerShutdown_def SchedulerStart_def StartTask_def static_step_def
        scheduler_finishShutdown_def stop_handles_length split: if_splits schedulerState.splits option.splits static_place.splits)

text \<open>The steps of the runner of handle \<open>i\<close> in a run.\<close>

definition runner_steps :: "nat \<Rightarrow> sched_action list \<Rightarrow> nat" where
  "runner_steps i as = length (filter (\<lambda>a. \<exists>c. a = ActDynamic i c) as)"

lemma sched_run_live:
  "system_inv s \<Longrightarrow> i < length (sy_handles s) \<Longrightarrow> sched_run as s = Some s' \<Longrightarrow> \<not> hd_cancelled (sy_handles s' ! i) \<Longrightarrow>
   \<not> hd_cancelled (sy_handles s ! i) \<and> hd_runs (sy_handles s ! i) \<le> hd_runs (sy_handles s' ! i) \<and>
   (hd_owed (sy_handles s ! i) \<longrightarrow> trigger_distance (hd_place (sy_handles s ! i)) \<le> runner_steps i as \<longrightarrow>
      hd_runs (sy_handles s ! i) < hd_runs (sy_handles s' ! i))"
proof (induction as arbitrary: s)
  case Nil
  then have "handle_inv (sy_handles s ! i)" by (simp add: system_inv_def list_all_length)
  then have "hd_owed (sy_handles s ! i) \<Longrightarrow> trigger_distance (hd_place (sy_handles s ! i)) \<noteq> 0"
    using Nil by (cases "hd_place (sy_handles s ! i)") (auto simp: handle_inv_def)
  then show ?case using Nil by (auto simp: runner_steps_def)
next
  case (Cons a as)
  obtain s1 where s1: "sched_act a s = Some s1" and rest: "sched_run as s1 = Some s'"
    using Cons.prems by (auto simp: bind_eq_Some_conv)
  have inv1: "system_inv s1" using Cons.prems(1) s1 by (rule system_inv_act)
  have len: "i < length (sy_handles s1)" using s1 Cons.prems(2) by (rule sched_act_length)
  note ih = Cons.IH[OF inv1 len rest Cons.prems(4)]
  have live1: "\<not> hd_cancelled (sy_handles s1 ! i)" using ih by simp
  note act = sched_act_handle[OF Cons.prems(1,2) s1 live1]
  have hinv: "handle_inv (sy_handles s ! i)" using Cons.prems by (simp add: system_inv_def list_all_length)
  show ?case
  proof (cases "\<exists>c. a = ActDynamic i c")
    case True
    then obtain c where c: "dyn_step c (sy_handles s ! i) = Some (sy_handles s1 ! i)" using act by auto
    have n: "runner_steps i (a # as) = Suc (runner_steps i as)" using True by (simp add: runner_steps_def)
    show ?thesis using trigger_step[OF hinv _ _ c] act ih runs_mono[OF c] unfolding n by auto
  next
    case False
    have n: "runner_steps i (a # as) = runner_steps i as" using False by (simp add: runner_steps_def)
    show ?thesis using act ih False unfolding n by auto
  qed
qed


text \<open>
  C22: a trigger that \<open>TriggerNow\<close> accepted is never lost. Whatever the other goroutines do meanwhile
  (other triggers, changes of the interval, other tasks, tasks that end), unless the task is stopped an
  invocation begins before the runner has made five steps; and until it does, the runner always has a
  step to make that does not wait for the timer.
\<close>

theorem trigger_not_lost:
  assumes r: "sched_reachable s" and i: "i < length (sy_handles s)"
    and accepted: "TriggerNow (sy_handles s ! i) = (h, Inr ())"
    and trig: "sched_act (ActTrigger i) s = Some s1" and run: "sched_run as s1 = Some s'"
    and live: "\<not> hd_cancelled (sy_handles s' ! i)"
  shows "(5 \<le> runner_steps i as \<longrightarrow> hd_runs (sy_handles s ! i) < hd_runs (sy_handles s' ! i)) \<and>
    (hd_owed (sy_handles s' ! i) \<longrightarrow> (\<exists>c s''. c \<noteq> TakeTimer \<and> sched_act (ActDynamic i c) s' = Some s''))"
proof
  have r1: "sched_reachable s1" using sched_reachable.act[OF r trig] .
  have len1: "i < length (sy_handles s1)" using trig i by (rule sched_act_length)
  have h: "sy_handles s1 ! i = h" "hd_owed h" "hd_runs h = hd_runs (sy_handles s ! i)"
    using trig i accepted by (auto simp: on_handle_def TriggerNow_def notify_def split: if_splits)
  have "trigger_distance (hd_place h) \<le> 5" by (cases "hd_place h") auto
  then show "5 \<le> runner_steps i as \<longrightarrow> hd_runs (sy_handles s ! i) < hd_runs (sy_handles s' ! i)"
    using sched_run_live[OF sched_reachable_inv[OF r1] len1 run live] h by auto
  show "hd_owed (sy_handles s' ! i) \<longrightarrow> (\<exists>c s''. c \<noteq> TakeTimer \<and> sched_act (ActDynamic i c) s' = Some s'')"
  proof
    assume owed: "hd_owed (sy_handles s' ! i)"
    have "i < length (sy_handles s')" using run len1 by (induction as arbitrary: s1) (auto simp: bind_eq_Some_conv dest: sched_act_length)
    moreover from this have "handle_inv (sy_handles s' ! i)"
      using sched_reachable_inv[OF sched_reachable_run[OF r1 run]] by (simp add: system_inv_def list_all_length)
    ultimately show "\<exists>c s''. c \<noteq> TakeTimer \<and> sched_act (ActDynamic i c) s' = Some s''"
      using trigger_not_blocked[OF _ owed live] by (fastforce simp: on_handle_def)
  qed
qed

definition one_task :: system where
  "one_task = the (sched_run [ActStart 0, ActStartTask ''beat'' 5 False, ActDynamic 0 TakeWake] (new_system False []))"

lemma sched_reachable_one_task: "sched_reachable one_task"
proof -
  have "sched_run [ActStart 0, ActStartTask ''beat'' 5 False, ActDynamic 0 TakeWake] (new_system False []) = Some one_task"
    unfolding one_task_def by code_simp
  then show ?thesis by (rule sched_reachable_run[OF sched_reachable.new])
qed

definition triggered_run :: "sched_action list" where
  "triggered_run = [ActDynamic 0 TakeWake, ActSetInterval 0 9, ActDynamic 0 TakeWake, ActDynamic 0 TakeWake,
     ActDynamic 0 TakeWake, ActTrigger 0, ActDynamic 0 TakeWake]"

theorem trigger_not_lost_witness:
  "hd_runs (sy_handles (the (sched_run triggered_run (the (sched_act (ActTrigger 0) one_task)))) ! 0) > 0"
proof -
  have *: "(0::nat) < length (sy_handles one_task)" "TriggerNow (sy_handles one_task ! 0) = (fst (TriggerNow (sy_handles one_task ! 0)), Inr ())"
    "sched_act (ActTrigger 0) one_task = Some (the (sched_act (ActTrigger 0) one_task))"
    "sched_run triggered_run (the (sched_act (ActTrigger 0) one_task)) = Some (the (sched_run triggered_run (the (sched_act (ActTrigger 0) one_task))))"
    "\<not> hd_cancelled (sy_handles (the (sched_run triggered_run (the (sched_act (ActTrigger 0) one_task)))) ! 0)"
    by code_simp+
  have "5 \<le> runner_steps 0 triggered_run" by (simp add: runner_steps_def triggered_run_def)
  then show ?thesis using trigger_not_lost[OF sched_reachable_one_task *] by linarith
qed




section \<open>Shutdown\<close>

text \<open>How far a runner is from its end once the scheduler is stopping.\<close>

fun dyn_rank :: "dyn_place \<Rightarrow> nat" where
  "dyn_rank DynGone = 0" | "dyn_rank DynDeferred = 1" | "dyn_rank (DynRead i r t) = 2" | "dyn_rank DynLaunch = 2"
| "dyn_rank DynTop = 3" | "dyn_rank DynRunning = 4" | "dyn_rank (DynFired r) = 4" | "dyn_rank (DynWaiting i r) = 5"

fun static_rank :: "static_place \<Rightarrow> nat" where
  "static_rank StaticExited = 0" | "static_rank StaticTop = 1" | "static_rank StaticFired = 1"
| "static_rank StaticRunning = 2" | "static_rank StaticWaiting = 2"

definition sched_rank :: "system \<Rightarrow> nat" where
  "sched_rank s = sum_list (map static_rank (sy_loops s)) + sum_list (map (dyn_rank \<circ> hd_place) (sy_handles s)) +
     (if sy_state s = schedulerStopping then 1 else 0)"

text \<open>The actions of the scheduler's own goroutines, as opposed to the calls of its clients.\<close>

fun runner_action :: "sched_action \<Rightarrow> bool" where
  "runner_action (ActDynamic i c) = True" | "runner_action (ActDeferred i) = True"
| "runner_action (ActStatic k n t) = True" | "runner_action ActFinish = True" | "runner_action _ = False"

lemma sum_list_update_less:
  fixes f :: "'a \<Rightarrow> nat"
  assumes "i < length xs" "f y < f (xs ! i)"
  shows "sum_list (map f (xs[i := y])) < sum_list (map f xs)"
proof -
  have "sum_list (map f (xs[i := y])) = sum_list (map f xs) + f y - f (xs ! i)"
    using assms by (simp add: map_update sum_list_update)
  moreover have "f (xs ! i) \<le> sum_list (map f xs)" using assms by (simp add: member_le_sum_list)
  ultimately show ?thesis using assms by linarith
qed

lemma dyn_step_rank: "hd_cancelled h \<Longrightarrow> dyn_step c h = Some h' \<Longrightarrow> dyn_rank (hd_place h') < dyn_rank (hd_place h)"
  by (cases "hd_place h"; cases c) (auto simp: dyn_step_def drainWake_def split: if_splits)

lemma dyn_step_enabled: "hd_place h \<noteq> DynGone \<Longrightarrow> hd_place h \<noteq> DynDeferred \<Longrightarrow> dyn_step TakeTimer h \<noteq> None"
  by (cases "hd_place h") (auto simp: dyn_step_def)

lemma cancelled_ops: "hd_cancelled h \<Longrightarrow> HandleStop h = h"
  "hd_cancelled h \<Longrightarrow> fst (SetInterval d h) = h" "hd_cancelled h \<Longrightarrow> fst (TriggerNow h) = h"
  by (simp_all add: HandleStop_def SetInterval_def TriggerNow_def)

lemma static_step_rank:
  assumes "sy_stopping s" "static_step k n t s = Some s'"
  shows "k < length (sy_loops s) \<and> (\<exists>p. static_rank p < static_rank (sy_loops s ! k) \<and> s' = s\<lparr>sy_loops := (sy_loops s)[k := p]\<rparr>)"
  using assms
  by (cases "sy_loops s ! k")
     (auto simp: static_step_def split: if_splits intro: exI[of _ StaticExited] exI[of _ StaticFired] exI[of _ StaticTop])

lemma system_inv_stopping: "system_inv s \<Longrightarrow> sy_state s = schedulerStopping \<Longrightarrow> sy_stopping s"
  by (simp add: system_inv_def)

lemma stopping_client_action:
  assumes inv: "system_inv s" and st: "sy_state s = schedulerStopping" and act: "sched_act a s = Some s'" and client: "\<not> runner_action a"
  shows "s' = s"
proof -
  have canc: "i < length (sy_handles s) \<Longrightarrow> hd_cancelled (sy_handles s ! i)" for i
    using inv st by (simp add: system_inv_def list_all_length)
  show ?thesis
    using act client st canc
    by (cases a) (auto simp: on_handle_def cancelled_ops SchedulerStart_def StartTask_def SchedulerShutdown_def Let_def split: if_splits)
qed

lemma stopping_runner_action:
  assumes inv: "system_inv s" and st: "sy_state s = schedulerStopping" and act: "sched_act a s = Some s'" and run: "runner_action a"
  shows "sched_rank s' < sched_rank s \<and> sy_state s' \<in> {schedulerStopping, schedulerStopped}"
proof (cases a)
  case (ActDynamic i c)
  then obtain h' where h': "dyn_step c (sy_handles s ! i) = Some h'" and i: "i < length (sy_handles s)"
    and s': "s' = s\<lparr>sy_handles := (sy_handles s)[i := h']\<rparr>"
    using act by (auto simp: on_handle_def split: if_splits)
  have "hd_cancelled (sy_handles s ! i)" using inv st i by (simp add: system_inv_def list_all_length)
  from dyn_step_rank[OF this h'] show ?thesis
    using st sum_list_update_less[of i "sy_handles s" "dyn_rank \<circ> hd_place" h', OF i] by (simp add: s' sched_rank_def)
next
  case (ActDeferred i)
  then have i: "i < length (sy_handles s)" "hd_place (sy_handles s ! i) = DynDeferred"
    using act by (auto simp: dyn_deferred_def split: if_splits)
  have "handle_inv (sy_handles s ! i)" using inv i by (simp add: system_inv_def list_all_length)
  then have "\<not> hd_done (sy_handles s ! i)" using i by (simp add: handle_inv_def)
  then show ?thesis
    using act ActDeferred st i sum_list_update_less[of i "sy_handles s" "dyn_rank \<circ> hd_place", OF i(1)]
    by (auto simp: dyn_deferred_def sched_rank_def Let_def)
next
  case (ActStatic k n t)
  then obtain p where k: "k < length (sy_loops s)" and p: "static_rank p < static_rank (sy_loops s ! k)"
    and s': "s' = s\<lparr>sy_loops := (sy_loops s)[k := p]\<rparr>"
    using act static_step_rank[of s k n t s'] system_inv_stopping[OF inv st] by auto
  then show ?thesis
    using st sum_list_update_less[of k "sy_loops s" static_rank p, OF k p] by (simp add: sched_rank_def)
next
  case ActFinish
  then show ?thesis using act st inv
    by (auto simp: scheduler_finishShutdown_def sched_rank_def system_inv_def split: if_splits)
qed (use run in auto)

lemma stopping_not_stuck:
  assumes inv: "system_inv s" and st: "sy_state s = schedulerStopping"
  shows "\<exists>a s'. runner_action a \<and> sched_act a s = Some s'"
proof (cases "runners_done s")
  case True
  then have "\<exists>s'. sched_act ActFinish s = Some s'" using inv st by (simp add: scheduler_finishShutdown_def system_inv_def)
  then show ?thesis using runner_action.simps(4) by blast
next
  case False
  then consider (loop) k where "k < length (sy_loops s)" "sy_loops s ! k \<noteq> StaticExited"
    | (handle) i where "i < length (sy_handles s)" "hd_place (sy_handles s ! i) \<noteq> DynGone"
    by (auto simp: runners_done_def list_all_length)
  then show ?thesis
  proof cases
    case loop
    then have "\<exists>s'. sched_act (ActStatic k True False) s = Some s'" by (auto simp: static_step_def split: static_place.splits)
    then show ?thesis using runner_action.simps(3) by blast
  next
    case handle
    show ?thesis
    proof (cases "hd_place (sy_handles s ! i) = DynDeferred")
      case True
      then have "\<exists>s'. sched_act (ActDeferred i) s = Some s'" using handle by (simp add: dyn_deferred_def Let_def)
      then show ?thesis using runner_action.simps(2) by blast
    next
      case False
      then have "\<exists>s'. sched_act (ActDynamic i TakeTimer) s = Some s'"
        using dyn_step_enabled[OF handle(2)] handle by (auto simp: on_handle_def)
      then show ?thesis using runner_action.simps(1) by blast
    qed
  qed
qed


text \<open>A stopped scheduler stays as it is.\<close>

lemma stopped_action:
  assumes inv: "system_inv s" and st: "sy_state s = schedulerStopped" and act: "sched_act a s = Some s'"
  shows "s' = s \<and> \<not> runner_action a"
proof -
  have canc: "i < length (sy_handles s) \<Longrightarrow> hd_cancelled (sy_handles s ! i) \<and> hd_place (sy_handles s ! i) = DynGone" for i
    using system_inv_stopped[OF inv st] inv st by (simp add: system_inv_def list_all_length runners_done_def)
  have loops: "k < length (sy_loops s) \<Longrightarrow> sy_loops s ! k = StaticExited" for k
    using system_inv_stopped[OF inv st] by (simp add: list_all_length runners_done_def)
  have fin: "\<not> sy_finishing s" using inv st by (simp add: system_inv_def)
  have gone_step: "hd_place h = DynGone \<Longrightarrow> dyn_step c h = None" for h c by (simp add: dyn_step_def)
  show ?thesis
    using act st fin
    by (cases a) (auto simp: on_handle_def cancelled_ops canc loops gone_step SchedulerStart_def StartTask_def SchedulerShutdown_def
        dyn_deferred_def static_step_def scheduler_finishShutdown_def Let_def split: if_splits)
qed

lemma stopping_run:
  "system_inv s \<Longrightarrow> sy_state s \<in> {schedulerStopping, schedulerStopped} \<Longrightarrow> sched_run as s = Some s' \<Longrightarrow>
   sy_state s' \<in> {schedulerStopping, schedulerStopped} \<and> length (filter runner_action as) + sched_rank s' \<le> sched_rank s"
proof (induction as arbitrary: s)
  case (Cons a as)
  obtain s1 where s1: "sched_act a s = Some s1" and rest: "sched_run as s1 = Some s'"
    using Cons.prems by (auto simp: bind_eq_Some_conv)
  have inv1: "system_inv s1" using Cons.prems(1) s1 by (rule system_inv_act)
  show ?case
  proof (cases "sy_state s = schedulerStopping")
    case True
    then show ?thesis
      using stopping_client_action[OF Cons.prems(1) True s1] stopping_runner_action[OF Cons.prems(1) True s1]
        Cons.IH[OF inv1 _ rest] by (cases "runner_action a") auto
  next
    case False
    then have stopped: "sy_state s = schedulerStopped" using Cons.prems by simp
    then have "s1 = s \<and> \<not> runner_action a" using stopped_action[OF Cons.prems(1) _ s1] by simp
    then show ?thesis using Cons.IH[OF inv1 _ rest] stopped by simp
  qed
qed simp

text \<open>
  C24: \<open>Shutdown\<close> completes, provided the invocations of tasks return. Once the scheduler is stopping,
  the calls of clients change nothing, its goroutines make at most \<open>sched_rank\<close> more steps whatever
  the interleaving, and as long as it is not stopped one of them can make a step.
\<close>

theorem scheduler_shutdown_completes:
  assumes "sched_reachable s" "sy_state s = schedulerStopping" "sched_run as s = Some s'"
  shows "length (filter runner_action as) \<le> sched_rank s \<and>
    (SchedulerStopped (Some s') \<or> (\<exists>a s''. runner_action a \<and> sched_act a s' = Some s''))"
proof -
  have inv: "system_inv s" using assms(1) by (rule sched_reachable_inv)
  have inv': "system_inv s'" using sched_reachable_run[OF assms(1,3)] by (rule sched_reachable_inv)
  show ?thesis
    using stopping_run[OF inv _ assms(3)] assms(2) stopping_not_stuck[OF inv'] by (auto simp: SchedulerStopped_def)
qed

definition stopping_task :: system where
  "stopping_task = the (sched_run [ActShutdown LiveContext] one_task)"

lemma stopping_task_reachable: "sched_reachable stopping_task" "sy_state stopping_task = schedulerStopping"
proof -
  have "sched_run [ActShutdown LiveContext] one_task = Some stopping_task" unfolding stopping_task_def by code_simp
  then show "sched_reachable stopping_task" by (rule sched_reachable_run[OF sched_reachable_one_task])
  show "sy_state stopping_task = schedulerStopping" by code_simp
qed

theorem scheduler_shutdown_completes_witness:
  "SchedulerStopped (sched_run [ActDynamic 0 TakeTimer, ActDeferred 0, ActFinish] stopping_task) \<and> 3 \<le> sched_rank stopping_task"
proof -
  let ?as = "[ActDynamic 0 TakeTimer, ActDeferred 0, ActFinish]"
  have run: "sched_run ?as stopping_task = Some (the (sched_run ?as stopping_task))" by code_simp
  have "SchedulerStopped (sched_run ?as stopping_task)" by code_simp
  then show ?thesis using scheduler_shutdown_completes[OF stopping_task_reachable run] by simp
qed

text \<open>
  C25: the scheduler's goroutines never close a closed channel, and when the scheduler is stopped, no
  runner and no invocation is left, \<open>Done\<close> of every handle is closed, and no action changes it any more.
\<close>

theorem stopped_scheduler_is_quiet:
  assumes "sched_reachable s"
  shows "\<not> sy_panicked s \<and>
    (SchedulerStopped (Some s) \<longrightarrow> (\<forall>h \<in> set (sy_handles s). hd_done h \<and> hd_place h = DynGone) \<and>
       (\<forall>p \<in> set (sy_loops s). p = StaticExited) \<and> (\<forall>a s'. sched_act a s = Some s' \<longrightarrow> s' = s))"
proof -
  have inv: "system_inv s" using assms by (rule sched_reachable_inv)
  have "handle_inv h" if "h \<in> set (sy_handles s)" for h using system_inv_handles[OF inv] that by (simp add: list_all_iff)
  then have "hd_done h" if "h \<in> set (sy_handles s)" "hd_place h = DynGone" for h using that by (auto simp: handle_inv_def)
  moreover have "\<not> sy_panicked s" using inv by (simp add: system_inv_def)
  ultimately show ?thesis
    using system_inv_stopped[OF inv] stopped_action[OF inv] by (simp add: SchedulerStopped_def runners_done_def list_all_iff)
qed

theorem stopped_scheduler_is_quiet_witness:
  "\<not> sy_panicked (the (sched_run [ActDynamic 0 TakeTimer, ActDeferred 0, ActFinish] stopping_task))"
proof -
  let ?as = "[ActDynamic 0 TakeTimer, ActDeferred 0, ActFinish]"
  have run: "sched_run ?as stopping_task = Some (the (sched_run ?as stopping_task))" by code_simp
  then have "sched_reachable (the (sched_run ?as stopping_task))" by (rule sched_reachable_run[OF stopping_task_reachable(1)])
  then show ?thesis using stopped_scheduler_is_quiet by blast
qed

end
