(* ===== verification/GoTime.thy ===== *)
theory GoTime
  imports Prelude
begin

text \<open>
  The parts of Go's \<open>time\<close> package that cron schedules use: the Gregorian calendar counted in days
  from Go's zero time, time zones as lists of transitions, \<open>time.Date\<close> with its rule for local times
  that do not exist, and the clock fields of an instant. The lemmas say that the calendar is a
  bijection between days and dates, which \<open>Cron\<close> uses for its search.
\<close>

section \<open>The calendar\<close>

definition leap_year :: "int \<Rightarrow> bool" where
  "leap_year y = (4 dvd y \<and> (\<not> 100 dvd y \<or> 400 dvd y))"

definition year_length :: "int \<Rightarrow> int" where
  "year_length y = (if leap_year y then 366 else 365)"

definition month_length :: "int \<Rightarrow> int \<Rightarrow> int" where
  "month_length y m = (if m = 2 then (if leap_year y then 29 else 28) else if m \<in> {4, 6, 9, 11} then 30 else 31)"

text \<open>Days from 1 January of year 1 to 1 January of year \<open>y\<close>, and from there to the first of month \<open>m\<close>.\<close>

definition days_before_year :: "int \<Rightarrow> int" where
  "days_before_year y = 365 * (y - 1) + (y - 1) div 4 - (y - 1) div 100 + (y - 1) div 400"

fun days_before_month :: "int \<Rightarrow> nat \<Rightarrow> int" where
  "days_before_month y 0 = 0"
| "days_before_month y (Suc k) = days_before_month y k + month_length y (int k + 1)"

text \<open>The day of a date; months outside 1--12 carry into the year, days may be out of range, as in \<open>time.Date\<close>.\<close>

definition day_of_date :: "int \<Rightarrow> int \<Rightarrow> int \<Rightarrow> int" where
  "day_of_date y m d =
     (let y' = y + (m - 1) div 12; m' = (m - 1) mod 12
      in days_before_year y' + days_before_month y' (nat m') + (d - 1))"

text \<open>The year of a day and the day within it, by cycles of 400, 100, 4 and 1 years.\<close>

definition year_of_day :: "int \<Rightarrow> int \<times> int" where
  "year_of_day n =
     (let a = n div 146097; r = n mod 146097;
          b = min 3 (r div 36524); r = r - 36524 * b;
          c = r div 1461; r = r - 1461 * c;
          e = min 3 (r div 365); r = r - 365 * e
      in (400 * a + 100 * b + 4 * c + e + 1, r))"

fun month_from :: "nat \<Rightarrow> int \<Rightarrow> int \<Rightarrow> int \<Rightarrow> int \<times> int" where
  "month_from 0 y m k = (m, k + 1)"
| "month_from (Suc n) y m k = (if k < month_length y m then (m, k + 1) else month_from n y (m + 1) (k - month_length y m))"

definition date_of_day :: "int \<Rightarrow> int \<times> int \<times> int" where
  "date_of_day n = (case year_of_day n of (y, k) \<Rightarrow> (y, month_from 11 y 1 k))"

definition weekday_of_day :: "int \<Rightarrow> int" where
  "weekday_of_day n = (n + 1) mod 7"

lemma month_length_bounds: "28 \<le> month_length y m" "month_length y m \<le> 31"
  by (auto simp: month_length_def)

lemma days_before_month_year: "days_before_month y 12 = year_length y"
  by (simp add: eval_nat_numeral month_length_def year_length_def)

lemma month_lengths:
  "month_length y 1 = 31" "month_length y 2 = (if leap_year y then 29 else 28)" "month_length y 3 = 31" "month_length y 4 = 30"
  "month_length y 5 = 31" "month_length y 6 = 30" "month_length y 7 = 31" "month_length y 8 = 31" "month_length y 9 = 30"
  "month_length y 10 = 31" "month_length y 11 = 30" "month_length y 12 = 31"
  by (simp_all add: month_length_def)

lemma month_from_days:
  "j \<le> n \<Longrightarrow> 0 \<le> k \<Longrightarrow> k < month_length y (m + int j) \<Longrightarrow>
   month_from n y m ((\<Sum>i<j. month_length y (m + int i)) + k) = (m + int j, k + 1)"
proof (induction j arbitrary: n m)
  case 0
  then show ?case by (cases n) auto
next
  case (Suc j)
  then obtain n' where n: "n = Suc n'" "j \<le> n'" by (cases n) auto
  have split: "(\<Sum>i<Suc j. month_length y (m + int i)) = month_length y m + (\<Sum>i<j. month_length y (m + 1 + int i))"
    unfolding sum.lessThan_Suc_shift by (simp add: add_ac)
  have "0 \<le> (\<Sum>i<j. month_length y (m + 1 + int i))" using month_length_bounds by (intro sum_nonneg) (metis order_trans zero_le_numeral)
  then have "\<not> (\<Sum>i<Suc j. month_length y (m + int i)) + k < month_length y m" unfolding split using Suc.prems by simp
  moreover have "month_from n' y (m + 1) ((\<Sum>i<j. month_length y (m + 1 + int i)) + k) = (m + 1 + int j, k + 1)"
    using Suc.prems n by (intro Suc.IH) (auto simp: add_ac)
  ultimately show ?case using n split by (simp add: add_ac)
qed

lemma days_before_month_sum: "days_before_month y j = (\<Sum>i<j. month_length y (1 + int i))"
  by (induction j) (auto simp: add_ac)

text \<open>Writing a year as cycles, the sums of \<open>days_before_year\<close> come apart.\<close>

lemma days_before_year_cycles:
  assumes "0 \<le> b" "b \<le> 3" "0 \<le> c" "c \<le> 24" "0 \<le> e" "e \<le> 3"
  shows "days_before_year (400 * a + 100 * b + 4 * c + e + 1) = 146097 * a + 36524 * b + 1461 * c + 365 * e"
proof -
  have "(400 * a + 100 * b + 4 * c + e) div 4 = 100 * a + 25 * b + c"
    using assms by (intro int_div_pos_eq[where r = e]) auto
  moreover have "(400 * a + 100 * b + 4 * c + e) div 100 = 4 * a + b"
    using assms by (intro int_div_pos_eq[where r = "4 * c + e"]) auto
  moreover have "(400 * a + 100 * b + 4 * c + e) div 400 = a"
    using assms by (intro int_div_pos_eq[where r = "100 * b + 4 * c + e"]) auto
  ultimately show ?thesis by (simp add: days_before_year_def)
qed

lemma year_cycles:
  fixes y :: int
  obtains a b c e where "y = 400 * a + 100 * b + 4 * c + e + 1" "0 \<le> b" "b \<le> 3" "0 \<le> c" "c \<le> 24" "0 \<le> e" "e \<le> 3"
proof
  let ?z = "y - 1"
  let ?r = "?z mod 400"
  let ?s = "?r mod 100"
  show "y = 400 * (?z div 400) + 100 * (?r div 100) + 4 * (?s div 4) + ?s mod 4 + 1"
    using mult_div_mod_eq[of 400 ?z] mult_div_mod_eq[of 100 ?r] mult_div_mod_eq[of 4 ?s] by linarith
  have r: "0 \<le> ?r" "?r < 400" and s: "0 \<le> ?s" "?s < 100" by simp_all
  show "0 \<le> ?r div 100" "?r div 100 \<le> 3" using r by linarith+
  show "0 \<le> ?s div 4" "?s div 4 \<le> 24" using s by linarith+
  show "0 \<le> ?s mod 4" "?s mod 4 \<le> 3" using pos_mod_bound[of 4 ?s] by simp_all
qed

lemma leap_cycles:
  assumes "0 \<le> b" "b \<le> 3" "0 \<le> c" "c \<le> 24" "0 \<le> e" "e \<le> (3::int)"
  shows "leap_year (400 * a + 100 * b + 4 * c + e + 1) \<longleftrightarrow> e = 3 \<and> (c \<noteq> 24 \<or> b = 3)"
proof -
  have dvd: "(k::int) dvd k * q + r \<longleftrightarrow> r = k" if "0 < r" "r \<le> k" for k q r
  proof -
    have "k dvd k * q + r \<longleftrightarrow> k dvd r" by (rule dvd_add_right_iff) simp
    then show ?thesis using that zdvd_not_zless[of r k] by (auto simp: le_less)
  qed
  have "400 * a + 100 * b + 4 * c + e + 1 = 4 * (100 * a + 25 * b + c) + (e + 1)" by simp
  then have "4 dvd (400 * a + 100 * b + 4 * c + e + 1) \<longleftrightarrow> e = 3"
    using dvd[of "e + 1" 4 "100 * a + 25 * b + c"] assms by (simp add: add.assoc)
  moreover have "400 * a + 100 * b + 4 * c + e + 1 = 100 * (4 * a + b) + (4 * c + e + 1)" by simp
  then have "100 dvd (400 * a + 100 * b + 4 * c + e + 1) \<longleftrightarrow> 4 * c + e + 1 = 100"
    using dvd[of "4 * c + e + 1" 100 "4 * a + b"] assms by (simp add: add.assoc)
  moreover have "400 dvd (400 * a + 100 * b + 4 * c + e + 1) \<longleftrightarrow> 100 * b + 4 * c + e + 1 = 400"
    using dvd[of "100 * b + 4 * c + e + 1" 400 a] assms by (simp add: add.assoc)
  moreover have "4 * c + e + 1 = 100 \<longleftrightarrow> e = 3 \<and> c = 24" using assms by presburger
  moreover have "100 * b + 4 * c + e + 1 = 400 \<longleftrightarrow> e = 3 \<and> c = 24 \<and> b = 3" using assms by presburger
  ultimately show ?thesis unfolding leap_year_def by blast
qed


lemma year_of_day_days:
  assumes "0 \<le> k" "k < year_length y"
  shows "year_of_day (days_before_year y + k) = (y, k)"
proof -
  obtain a b c e where y: "y = 400 * a + 100 * b + 4 * c + e + 1"
    and r: "0 \<le> b" "b \<le> 3" "0 \<le> c" "c \<le> 24" "0 \<le> e" "e \<le> 3"
    by (rule year_cycles)
  let ?n = "days_before_year y + k"
  have n: "?n = 146097 * a + (36524 * b + 1461 * c + 365 * e + k)"
    using days_before_year_cycles[OF r, of a] by (simp add: y)
  have k: "k < 365 \<or> k = 365 \<and> e = 3 \<and> (c \<noteq> 24 \<or> b = 3)"
    using assms(2) leap_cycles[OF r, of a] by (auto simp: year_length_def y split: if_splits)
  have d1: "?n div 146097 = a"
    using r k assms(1) by (intro int_div_pos_eq[OF n]) auto
  then have m1: "?n mod 146097 = 36524 * b + 1461 * c + 365 * e + k"
    using n mult_div_mod_eq[of 146097 ?n] by linarith
  have b1: "min 3 ((36524 * b + 1461 * c + 365 * e + k) div 36524) = b"
  proof (cases "b = 3")
    case True
    then have "3 \<le> (36524 * b + 1461 * c + 365 * e + k) div 36524" using r assms(1) by linarith
    then show ?thesis using True by simp
  next
    case False
    then have "(36524 * b + 1461 * c + 365 * e + k) div 36524 = b"
      using r k assms(1) by (intro int_div_pos_eq[where r = "1461 * c + 365 * e + k"]) auto
    then show ?thesis using r by simp
  qed
  have c1: "(1461 * c + 365 * e + k) div 1461 = c"
    using r k assms(1) by (intro int_div_pos_eq[where r = "365 * e + k"]) auto
  have e1: "min 3 ((365 * e + k) div 365) = e"
  proof (cases "e = 3")
    case True
    then show ?thesis using r assms(1) by simp
  next
    case False
    then have "(365 * e + k) div 365 = e" using k assms(1) by (intro int_div_pos_eq[where r = k]) auto
    then show ?thesis using r by simp
  qed
  have subs: "36524 * b + 1461 * c + 365 * e + k - 36524 * b = 1461 * c + 365 * e + k"
    "1461 * c + 365 * e + k - 1461 * c = 365 * e + k" "365 * e + k - 365 * e = k" by simp_all
  show ?thesis unfolding year_of_day_def Let_def d1 m1 b1 subs c1 e1 by (simp only: y)
qed


lemma days_before_year_Suc: "days_before_year (y + 1) = days_before_year y + year_length y"
proof -
  obtain a b c e where y: "y = 400 * a + 100 * b + 4 * c + e + 1"
    and r: "0 \<le> b" "b \<le> 3" "0 \<le> c" "c \<le> 24" "0 \<le> e" "e \<le> 3"
    by (rule year_cycles)
  have step: "days_before_year (400 * a' + 100 * b' + 4 * c' + e' + 1) = 146097 * a' + 36524 * b' + 1461 * c' + 365 * e'"
    if "0 \<le> b'" "b' \<le> 3" "0 \<le> c'" "c' \<le> 24" "0 \<le> e'" "e' \<le> 3" for a' b' c' e' :: int
    using that by (rule days_before_year_cycles)
  note len = leap_cycles[OF r, of a]
  consider "e < 3" | "e = 3" "c < 24" | "e = 3" "c = 24" "b < 3" | "e = 3" "c = 24" "b = 3"
    using r by (cases "e < 3"; cases "c < 24"; cases "b < 3") auto
  then show ?thesis
  proof cases
    case 1
    then show ?thesis using step[of b c "e + 1" a] step[OF r, of a] r len by (simp add: y year_length_def)
  next
    case 2
    then show ?thesis using step[of b "c + 1" 0 a] step[OF r, of a] r len by (simp add: y year_length_def)
  next
    case 3
    then show ?thesis using step[of "b + 1" 0 0 a] step[OF r, of a] r len by (simp add: y year_length_def)
  next
    case 4
    then show ?thesis using step[of 0 0 0 "a + 1"] step[OF r, of a] r len by (simp add: y year_length_def)
  qed
qed

lemma days_before_month_less: "1 \<le> m \<Longrightarrow> m \<le> 12 \<Longrightarrow> days_before_month y (nat (m - 1)) + month_length y m \<le> year_length y"
proof -
  assume m: "1 \<le> m" "m \<le> 12"
  then have "nat (m - 1) \<in> {0..11}" by auto
  then have "days_before_month y (Suc (nat (m - 1))) \<le> days_before_month y 12"
    unfolding days_before_month_sum using month_length_bounds
    by (intro sum_mono2) (auto intro: order_trans[OF zero_le_numeral])
  then show ?thesis using m by (simp add: days_before_month_year)
qed

lemma days_before_month_nonneg: "0 \<le> days_before_month y j"
  unfolding days_before_month_sum using month_length_bounds by (intro sum_nonneg) (metis order_trans zero_le_numeral)

text \<open>The days of a month are consecutive, and the month that follows, of the next year after December, starts after them.\<close>

lemma date_of_day_of_date:
  assumes "1 \<le> m" "m \<le> 12" "1 \<le> d" "d \<le> month_length y m"
  shows "date_of_day (day_of_date y m d) = (y, m, d)"
proof -
  let ?k = "days_before_month y (nat (m - 1)) + (d - 1)"
  have day: "day_of_date y m d = days_before_year y + ?k"
    using assms by (simp add: day_of_date_def Let_def)
  have "year_of_day (days_before_year y + ?k) = (y, ?k)"
    using assms days_before_month_less[OF assms(1,2), of y] days_before_month_nonneg[of y] by (intro year_of_day_days) (auto intro: add_nonneg_nonneg)
  moreover have "month_from 11 y 1 ?k = (1 + int (nat (m - 1)), d - 1 + 1)"
    unfolding days_before_month_sum using assms by (intro month_from_days) auto
  ultimately show ?thesis using assms unfolding day by (simp add: date_of_day_def)
qed

lemma day_of_date_add: "day_of_date y m (d + k) = day_of_date y m d + k"
  by (simp add: day_of_date_def Let_def)

lemma day_of_date_next_month:
  assumes "1 \<le> m" "m \<le> 12"
  shows "day_of_date y (m + 1) 1 = day_of_date y m 1 + month_length y m"
proof (cases "m = 12")
  case True
  then show ?thesis
    by (simp add: day_of_date_def Let_def days_before_year_Suc flip: days_before_month_year) (simp add: eval_nat_numeral)
next
  case False
  then have "nat m = Suc (nat (m - 1))" "m div 12 = 0" "(m - 1) div 12 = 0" "m mod 12 = m" "(m - 1) mod 12 = m - 1" using assms by auto
  then show ?thesis using assms by (simp add: day_of_date_def Let_def)
qed


lemma year_of_day_valid:
  obtains y k where "n = days_before_year y + k" "0 \<le> k" "k < year_length y"
proof -
  define a r where "a = n div 146097" and "r = n mod 146097"
  then have n: "n = 146097 * a + r" and r: "0 \<le> r" "r < 146097" by simp_all
  define b where "b = min 3 (r div 36524)"
  define r1 where "r1 = r - 36524 * b"
  have b: "0 \<le> b" "b \<le> 3" and r1: "0 \<le> r1" "r1 < 36525" "b < 3 \<longrightarrow> r1 < 36524"
    unfolding r1_def b_def using r by linarith+
  define c where "c = r1 div 1461"
  define r2 where "r2 = r1 - 1461 * c"
  have c: "0 \<le> c" "c \<le> 24" and r2: "0 \<le> r2" "r2 < 1461" "b < 3 \<longrightarrow> c = 24 \<longrightarrow> r2 < 1460"
    unfolding r2_def c_def using r1 by linarith+
  define e where "e = min 3 (r2 div 365)"
  define k where "k = r2 - 365 * e"
  have e: "0 \<le> e" "e \<le> 3" and k: "0 \<le> k" "k < 366" "e < 3 \<longrightarrow> k < 365" "b < 3 \<longrightarrow> c = 24 \<longrightarrow> k < 365"
    unfolding k_def e_def using r2 by linarith+
  let ?y = "400 * a + 100 * b + 4 * c + e + 1"
  have "n = days_before_year ?y + k"
    using days_before_year_cycles[OF b c e, of a] unfolding n k_def r2_def r1_def by simp
  moreover have "k < year_length ?y"
    using k leap_cycles[OF b c e, of a] b e unfolding year_length_def by (auto simp: le_less)
  ultimately show ?thesis using k(1) that by blast
qed

lemma month_split:
  assumes "0 \<le> k" "k < days_before_month y n"
  obtains j d where "j < n" "k = days_before_month y j + d" "0 \<le> d" "d < month_length y (int j + 1)"
  using assms
proof (induction n arbitrary: thesis)
  case (Suc n)
  show ?case
  proof (cases "k < days_before_month y n")
    case True
    then show ?thesis using Suc.IH Suc.prems by (metis less_SucI)
  next
    case False
    then show ?thesis using Suc.prems(1)[of n "k - days_before_month y n"] Suc.prems(3) by simp
  qed
qed simp

text \<open>Every day is a date.\<close>

lemma day_has_date:
  obtains y m d where "n = day_of_date y m d" "1 \<le> m" "m \<le> 12" "1 \<le> d" "d \<le> month_length y m"
proof -
  obtain y k where n: "n = days_before_year y + k" and k: "0 \<le> k" "k < year_length y"
    by (rule year_of_day_valid)
  have "k < days_before_month y 12" using k by (simp only: days_before_month_year)
  from month_split[OF k(1) this] obtain j d where j: "j < 12" "k = days_before_month y j + d" "0 \<le> d" "d < month_length y (int j + 1)"
    by blast
  have "n = day_of_date y (int j + 1) (d + 1)" using j by (simp add: n day_of_date_def Let_def)
  then show ?thesis using that[of y "int j + 1" "d + 1"] j by simp
qed

section \<open>Time zones\<close>

text \<open>
  A location is the offset from UTC, in seconds, before its first transition, and its transitions in
  order: the second at which each begins and the offset from then on. \<open>lookup\<close> finds the offset in
  force at a second and the bounds of its period (\<open>None\<close> for unbounded).
\<close>

type_synonym location = "int \<times> (int \<times> int) list"

fun lookup_from :: "int \<Rightarrow> int option \<Rightarrow> (int \<times> int) list \<Rightarrow> int \<Rightarrow> int \<times> int option \<times> int option" where
  "lookup_from off start [] sec = (off, start, None)"
| "lookup_from off start ((t, o') # ts) sec = (if sec < t then (off, start, Some t) else lookup_from o' (Some t) ts sec)"

definition zone_lookup :: "location \<Rightarrow> int \<Rightarrow> int \<times> int option \<times> int option" where
  "zone_lookup loc sec = lookup_from (fst loc) None (snd loc) sec"

definition nanosecond :: int where "nanosecond = 10 ^ 9"

definition minute :: duration where "minute = 60 * nanosecond"

definition local_second :: "location \<Rightarrow> instant \<Rightarrow> int" where
  "local_second loc t = t div nanosecond + fst (zone_lookup loc (t div nanosecond))"

text \<open>
  \<open>time.Date\<close> for a clock within its ranges: the offset is looked up for the local time read as UTC, and
  again for the resulting instant when that lies outside the period found.
\<close>

definition go_date :: "location \<Rightarrow> int \<Rightarrow> int \<Rightarrow> int \<Rightarrow> int \<Rightarrow> int \<Rightarrow> int \<Rightarrow> int \<Rightarrow> instant" where
  "go_date loc y m d hr mn sec nsec =
     (let unix = 86400 * day_of_date y m d + 3600 * hr + 60 * mn + sec;
          (off, start, stop) = zone_lookup loc unix;
          utc = unix - off;
          outside = (case start of Some a \<Rightarrow> utc < a | None \<Rightarrow> False) \<or> (case stop of Some b \<Rightarrow> b \<le> utc | None \<Rightarrow> False);
          off' = (if off \<noteq> 0 \<and> outside then fst (zone_lookup loc utc) else off)
      in nanosecond * (unix - off') + nsec)"

definition local_date :: "location \<Rightarrow> instant \<Rightarrow> int \<times> int \<times> int" where
  "local_date loc t = date_of_day (local_second loc t div 86400)"

definition year_of :: "location \<Rightarrow> instant \<Rightarrow> int" where "year_of loc t = fst (local_date loc t)"
definition month_of :: "location \<Rightarrow> instant \<Rightarrow> int" where "month_of loc t = fst (snd (local_date loc t))"
definition day_of :: "location \<Rightarrow> instant \<Rightarrow> int" where "day_of loc t = snd (snd (local_date loc t))"
definition weekday_of :: "location \<Rightarrow> instant \<Rightarrow> int" where "weekday_of loc t = weekday_of_day (local_second loc t div 86400)"
definition hour_of :: "location \<Rightarrow> instant \<Rightarrow> int" where "hour_of loc t = local_second loc t mod 86400 div 3600"
definition minute_of :: "location \<Rightarrow> instant \<Rightarrow> int" where "minute_of loc t = local_second loc t mod 3600 div 60"
definition second_of :: "location \<Rightarrow> instant \<Rightarrow> int" where "second_of loc t = local_second loc t mod 60"

text \<open>\<open>AddDate(years, 0, 0)\<close> keeps the clock and carries an impossible date over.\<close>

definition add_years :: "location \<Rightarrow> int \<Rightarrow> instant \<Rightarrow> instant" where
  "add_years loc years t =
     go_date loc (year_of loc t + years) (month_of loc t) (day_of loc t) (hour_of loc t) (minute_of loc t) (second_of loc t)
       (t mod nanosecond)"

definition truncate_time :: "duration \<Rightarrow> instant \<Rightarrow> instant" where
  "truncate_time d t = t - t mod d"

lemma month_of_range: "1 \<le> month_of loc t" "month_of loc t \<le> 12"
  and day_of_range: "1 \<le> day_of loc t" "day_of loc t \<le> 31"
proof -
  obtain y m d where n: "local_second loc t div 86400 = day_of_date y m d" "1 \<le> m" "m \<le> 12" "1 \<le> d" "d \<le> month_length y m"
    by (rule day_has_date)
  then show "1 \<le> month_of loc t" "month_of loc t \<le> 12" "1 \<le> day_of loc t" "day_of loc t \<le> 31"
    using month_length_bounds(2)[of y m] by (simp_all add: month_of_def day_of_def local_date_def date_of_day_of_date)
qed

lemma weekday_of_range: "0 \<le> weekday_of loc t" "weekday_of loc t \<le> 6"
  using pos_mod_bound[of 7 "local_second loc t div 86400 + 1"] by (simp_all add: weekday_of_def weekday_of_day_def)

lemma hour_of_range: "0 \<le> hour_of loc t" "hour_of loc t \<le> 23"
  and minute_of_range: "0 \<le> minute_of loc t" "minute_of loc t \<le> 59"
proof -
  have "0 \<le> local_second loc t mod 86400" "local_second loc t mod 86400 < 86400"
    "0 \<le> local_second loc t mod 3600" "local_second loc t mod 3600 < 3600" by simp_all
  then show "0 \<le> hour_of loc t" "hour_of loc t \<le> 23" "0 \<le> minute_of loc t" "minute_of loc t \<le> 59"
    unfolding hour_of_def minute_of_def by linarith+
qed


section \<open>Fixed offsets\<close>

definition fixed_zone :: "int \<Rightarrow> location" where
  "fixed_zone off = (off, [])"

lemma fixed_zone_simps:
  "zone_lookup (fixed_zone off) sec = (off, None, None)"
  "local_second (fixed_zone off) t = t div nanosecond + off"
  "go_date (fixed_zone off) y m d hr mn sec nsec =
     nanosecond * (86400 * day_of_date y m d + 3600 * hr + 60 * mn + sec - off) + nsec"
  by (simp_all add: fixed_zone_def zone_lookup_def local_second_def go_date_def)

end
