(* ===== verification/Cron.thy ===== *)
theory Cron
  imports GoTime GoStrings Scheduler
begin

text \<open>
  Cron schedules: \<open>src/backend/framework/scheduler_cron.go\<close>. The parser is total except that Go's
  \<open>int\<close> wraps around in the loop that marks the values of an item, which can end in an index out of
  range (\<open>Panics\<close>). The search for the next run is a loop with no bound of its own, a
  \<open>partial_function\<close> whose value \<open>None\<close> is a search that never returns.
\<close>

section \<open>Expressions\<close>

definition cronSearchYears :: int where "cronSearchYears = 8"

definition cronMonthNames :: "(string, int) gomap" where
  "cronMonthNames =
     [(''JAN'', 1), (''FEB'', 2), (''MAR'', 3), (''APR'', 4), (''MAY'', 5), (''JUN'', 6), (''JUL'', 7), (''AUG'', 8),
      (''SEP'', 9), (''OCT'', 10), (''NOV'', 11), (''DEC'', 12)]"

definition cronWeekdayNames :: "(string, int) gomap" where
  "cronWeekdayNames = [(''SUN'', 0), (''MON'', 1), (''TUE'', 2), (''WED'', 3), (''THU'', 4), (''FRI'', 5), (''SAT'', 6)]"

type_synonym cronField = "bool list"

record cronExpression =
  ce_minutes :: cronField
  ce_hours :: cronField
  ce_daysOfMonth :: cronField
  ce_months :: cronField
  ce_weekdays :: cronField
  ce_dayWildcard :: bool
  ce_weekdayWildcard :: bool

datatype cron_error =
    CronFieldCount
  | CronEmptyItem
  | CronInvalidStep string
  | CronInvalidRange string
  | CronReversedRange string
  | CronOutside string int int
  | CronIn string cron_error

text \<open>A call returns, panics, or never ends.\<close>

datatype 'a go_call = Returns 'a | Panics | Hangs

section \<open>The parser\<close>

definition parseCronStep :: "string \<Rightarrow> cron_error + (string \<times> int \<times> bool)" where
  "parseCronStep text =
     (let parts = split_on CHR ''/'' text in
      if 2 < length parts \<or> hd parts = [] then Inl (CronInvalidStep text)
      else if length parts = 1 then Inr (hd parts, 1, False)
      else case atoi (parts ! 1) of
        None \<Rightarrow> Inl (CronInvalidStep (parts ! 1))
      | Some step \<Rightarrow> if step \<le> 0 then Inl (CronInvalidStep (parts ! 1)) else Inr (hd parts, step, True))"

definition parseCronValue :: "string \<Rightarrow> int \<Rightarrow> int \<Rightarrow> (string, int) gomap \<Rightarrow> cron_error + int" where
  "parseCronValue text minimum maximum names =
     (case map_of names text of
        Some named \<Rightarrow> Inr named
      | None \<Rightarrow>
          (case atoi text of
             None \<Rightarrow> Inl (CronOutside text minimum maximum)
           | Some parsed \<Rightarrow>
               if parsed < minimum \<or> maximum < parsed then Inl (CronOutside text minimum maximum) else Inr parsed))"

text \<open>
  The loop \<open>for current := start; current <= end; current += step\<close>. The addition wraps around, an
  index outside the slice panics, and a step of zero would repeat for ever.
\<close>

function cron_mark :: "int \<Rightarrow> int \<Rightarrow> int \<Rightarrow> cronField \<Rightarrow> cronField go_call" where
  "cron_mark current last_value step allowed =
     (if last_value < current then Returns allowed
      else if current < 0 \<or> min (int (length allowed)) (2 ^ 63) \<le> current then Panics
      else if wrap64 step = 0 then Hangs
      else cron_mark (wrap64 (current + step)) last_value step (allowed[nat current := True]))"
  by pat_completeness auto

lemma wrap64_add_cases:
  assumes "0 \<le> c" "c < 2 ^ 63"
  shows "wrap64 (c + s) = c + wrap64 s \<or> wrap64 (c + s) < 0"
proof -
  have "wrap64 (c + s) = wrap64 (c + wrap64 s)"
    using mod_add_right_eq[of c "s + 2 ^ 63" "2 ^ 64"] by (simp add: wrap64_def add.assoc)
  moreover have "wrap64 (c + w) = c + w \<or> wrap64 (c + w) < 0" if w: "- (2 ^ 63) \<le> w" "w < 2 ^ 63" for w
  proof (cases "c + w < 2 ^ 63")
    case True
    then show ?thesis using w assms by (simp add: wrap64_id)
  next
    case False
    then have "(c + w + 2 ^ 63) mod 2 ^ 64 = c + w + 2 ^ 63 - 2 ^ 64"
      using w assms by (intro int_mod_pos_eq[where q = 1]) auto
    then show ?thesis using w assms by (simp add: wrap64_def)
  qed
  ultimately show ?thesis using wrap64_range[of s] by metis
qed

termination cron_mark
proof (relation "measure (\<lambda>(c, e, s, xs). if c < 0 \<or> min (int (length xs)) (2 ^ 63) \<le> c then 0
    else if 0 < wrap64 s then nat (int (length xs) - c) else nat (c + 1))", goal_cases)
  case (2 c e s xs)
  then show ?case using wrap64_add_cases[of c s] by auto
qed simp

declare cron_mark.simps [simp del]

text \<open>The bounds of an item, from the text before its step.\<close>

definition cron_bounds :: "string \<Rightarrow> bool \<Rightarrow> int \<Rightarrow> int \<Rightarrow> (string, int) gomap \<Rightarrow> cron_error + (int \<times> int)" where
  "cron_bounds base hasStep minimum maximum names =
     (if base = ''*'' then Inr (minimum, maximum)
      else if CHR ''-'' \<in> set base then
        (let bounds = split_on CHR ''-'' base in
         if length bounds \<noteq> 2 \<or> bounds ! 0 = [] \<or> bounds ! 1 = [] then Inl (CronInvalidRange base)
         else case parseCronValue (bounds ! 0) minimum maximum names of
           Inl e \<Rightarrow> Inl e
         | Inr start \<Rightarrow>
             (case parseCronValue (bounds ! 1) minimum maximum names of
                Inl e \<Rightarrow> Inl e
              | Inr stop \<Rightarrow> if stop < start then Inl (CronReversedRange base) else Inr (start, stop)))
      else case parseCronValue base minimum maximum names of
        Inl e \<Rightarrow> Inl e
      | Inr start \<Rightarrow> Inr (start, if hasStep then maximum else start))"

fun parse_items :: "string list \<Rightarrow> int \<Rightarrow> int \<Rightarrow> (string, int) gomap \<Rightarrow> cronField \<Rightarrow> (cron_error + cronField) go_call" where
  "parse_items [] minimum maximum names allowed = Returns (Inr allowed)"
| "parse_items (item # items) minimum maximum names allowed =
     (if item = [] then Returns (Inl CronEmptyItem)
      else case parseCronStep item of
        Inl e \<Rightarrow> Returns (Inl e)
      | Inr (base, step, hasStep) \<Rightarrow>
          (case cron_bounds base hasStep minimum maximum names of
             Inl e \<Rightarrow> Returns (Inl e)
           | Inr (start, stop) \<Rightarrow>
               (case cron_mark start stop step allowed of
                  Returns allowed' \<Rightarrow> parse_items items minimum maximum names allowed'
                | Panics \<Rightarrow> Panics
                | Hangs \<Rightarrow> Hangs)))"

text \<open>\<open>upper\<close> maps the strings that are not ASCII (\<open>GoStrings.to_upper\<close>).\<close>

definition parseCronField ::
  "(string \<Rightarrow> string) \<Rightarrow> string \<Rightarrow> int \<Rightarrow> int \<Rightarrow> (string, int) gomap \<Rightarrow> (cron_error + cronField) go_call" where
  "parseCronField upper text minimum maximum names =
     parse_items (split_on CHR '','' (to_upper upper text)) minimum maximum names (replicate (nat (maximum + 1)) False)"

definition allowsEvery :: "cronField \<Rightarrow> nat \<Rightarrow> nat \<Rightarrow> bool" where
  "allowsEvery field minimum maximum = list_all (\<lambda>i. field ! i) [minimum..<Suc maximum]"

text \<open>The fields in order; the first error, with the name of its field, ends the parse.\<close>

fun parse_fields ::
  "(string \<Rightarrow> string) \<Rightarrow> (string \<times> string \<times> int \<times> int \<times> (string, int) gomap) list \<Rightarrow> (cron_error + cronField list) go_call" where
  "parse_fields upper [] = Returns (Inr [])"
| "parse_fields upper ((label, text, minimum, maximum, names) # rest) =
     (case parseCronField upper text minimum maximum names of
        Panics \<Rightarrow> Panics
      | Hangs \<Rightarrow> Hangs
      | Returns (Inl e) \<Rightarrow> Returns (Inl (CronIn label e))
      | Returns (Inr field) \<Rightarrow>
          (case parse_fields upper rest of
             Returns (Inr fs) \<Rightarrow> Returns (Inr (field # fs))
           | r \<Rightarrow> r))"

definition build_expression :: "cronField list \<Rightarrow> cronExpression" where
  "build_expression fs =
     (let weekdays = take 7 ((fs ! 4)[0 := fs ! 4 ! 0 \<or> fs ! 4 ! 7]) in
      \<lparr>ce_minutes = fs ! 0, ce_hours = fs ! 1, ce_daysOfMonth = fs ! 2, ce_months = fs ! 3,
       ce_weekdays = weekdays, ce_dayWildcard = allowsEvery (fs ! 2) 1 31, ce_weekdayWildcard = allowsEvery weekdays 0 6\<rparr>)"

definition parseCronExpression :: "(string \<Rightarrow> string) \<Rightarrow> string \<Rightarrow> (cron_error + cronExpression) go_call" where
  "parseCronExpression upper text =
     (let parts = go_fields text in
      if length parts \<noteq> 5 then Returns (Inl CronFieldCount)
      else case parse_fields upper
          [(''minute'', parts ! 0, 0, 59, []), (''hour'', parts ! 1, 0, 23, []), (''day of month'', parts ! 2, 1, 31, []),
           (''month'', parts ! 3, 1, 12, cronMonthNames), (''day of week'', parts ! 4, 0, 7, cronWeekdayNames)] of
        Panics \<Rightarrow> Panics
      | Hangs \<Rightarrow> Hangs
      | Returns (Inl e) \<Rightarrow> Returns (Inl e)
      | Returns (Inr fs) \<Rightarrow> Returns (Inr (build_expression fs)))"

section \<open>The search for the next run\<close>

definition matchesDay :: "cronExpression \<Rightarrow> location \<Rightarrow> instant \<Rightarrow> bool" where
  "matchesDay ex loc t =
     (let dayMatches = ce_daysOfMonth ex ! nat (day_of loc t);
          weekdayMatches = ce_weekdays ex ! nat (weekday_of loc t)
      in if ce_dayWildcard ex then weekdayMatches
         else if ce_weekdayWildcard ex then dayMatches
         else dayMatches \<or> weekdayMatches)"

partial_function (option) cron_search :: "cronExpression \<Rightarrow> location \<Rightarrow> instant \<Rightarrow> instant \<Rightarrow> instant option option" where
  "cron_search ex loc limit candidate =
     (if limit < candidate then Some None
      else if \<not> ce_months ex ! nat (month_of loc candidate) then
        cron_search ex loc limit (go_date loc (year_of loc candidate) (month_of loc candidate + 1) 1 0 0 0 0)
      else if \<not> matchesDay ex loc candidate then
        cron_search ex loc limit (go_date loc (year_of loc candidate) (month_of loc candidate) (day_of loc candidate + 1) 0 0 0 0)
      else if \<not> ce_hours ex ! nat (hour_of loc candidate) then
        cron_search ex loc limit (candidate + (60 - minute_of loc candidate) * minute)
      else if \<not> ce_minutes ex ! nat (minute_of loc candidate) then
        cron_search ex loc limit (candidate + minute)
      else Some (Some candidate))"

declare cron_search.simps [code]

definition cron_next :: "cronExpression \<Rightarrow> instant \<Rightarrow> location \<Rightarrow> instant option option" where
  "cron_next ex after loc =
     (let candidate = truncate_time minute after + minute
      in cron_search ex loc (add_years loc cronSearchYears candidate) candidate)"

definition cron_nextDelay :: "cronExpression \<Rightarrow> location \<Rightarrow> instant \<Rightarrow> duration option option" where
  "cron_nextDelay ex loc now = map_option (map_option (\<lambda>t. t - now)) (cron_next ex now loc)"

text \<open>
  \<open>ScheduleCronTask\<close> in the location of the scheduler's options. A registered schedule whose search
  never returned would be \<open>None\<close> for the runner, which then makes no further run.
\<close>

definition ScheduleCronTask ::
  "(string \<Rightarrow> string) \<Rightarrow> location \<Rightarrow> instant \<Rightarrow> string \<Rightarrow> string \<Rightarrow> (nat \<Rightarrow> task_outcome) option \<Rightarrow> Scheduler option \<Rightarrow>
   (Scheduler option \<times> (sched_error + unit)) go_call" where
  "ScheduleCronTask upper loc now name expression task sched =
     (case sched of
        None \<Rightarrow> Returns (None, Inl ErrSchedulerUnavailable)
      | Some s \<Rightarrow>
          (case task of
             None \<Rightarrow> Returns (Some s, Inl ErrInvalidScheduledTask)
           | Some run \<Rightarrow>
               if trim_space name = [] then Returns (Some s, Inl ErrInvalidScheduledTask)
               else (case parseCronExpression upper expression of
                   Panics \<Rightarrow> Panics
                 | Hangs \<Rightarrow> Hangs
                 | Returns (Inl e) \<Rightarrow> Returns (Some s, Inl ErrInvalidCronExpression)
                 | Returns (Inr parsed) \<Rightarrow>
                     (case cron_nextDelay parsed loc now of
                        None \<Rightarrow> Hangs
                      | Some None \<Rightarrow> Returns (Some s, Inl ErrInvalidCronExpression)
                      | Some (Some delay) \<Rightarrow>
                          (case registerTask \<lparr>te_name = trim_space name,
                                              te_schedule = (\<lambda>t. Option.bind (cron_nextDelay parsed loc t) id), te_run = run\<rparr> s of
                             (s', r) \<Rightarrow> Returns (Some s', r))))))"


section \<open>Marking the values of an item\<close>

lemma cron_mark_marks:
  assumes "0 \<le> c" "e < int (length xs)" "0 < s" "e + s < 2 ^ 63"
  shows "\<exists>ys. cron_mark c e s xs = Returns ys \<and> length ys = length xs \<and>
    (\<forall>v < length xs. ys ! v \<longleftrightarrow> xs ! v \<or> (c \<le> int v \<and> int v \<le> e \<and> s dvd int v - c))"
  using assms
proof (induction c e s xs rule: cron_mark.induct)
  case (1 c e s xs)
  show ?case
  proof (cases "e < c")
    case True
    then show ?thesis by (subst cron_mark.simps) auto
  next
    case False
    let ?xs = "xs[nat c := True]"
    have c: "c \<le> e" "c < int (length xs)" "c < 2 ^ 63" "c + s < 2 ^ 63" using False "1.prems" by linarith+
    have s: "wrap64 s = s" "wrap64 (c + s) = c + s" using c "1.prems" by (auto intro: wrap64_id)
    have guard: "\<not> (c < 0 \<or> min (int (length xs)) (2 ^ 63) \<le> c)" "wrap64 s \<noteq> 0" using c s "1.prems" by auto
    have rec: "cron_mark c e s xs = cron_mark (c + s) e s ?xs"
      using False guard s by (subst cron_mark.simps) simp
    obtain ys where ys: "cron_mark (c + s) e s ?xs = Returns ys" "length ys = length xs"
      "\<And>v. v < length xs \<Longrightarrow> ys ! v \<longleftrightarrow> ?xs ! v \<or> (c + s \<le> int v \<and> int v \<le> e \<and> s dvd int v - (c + s))"
      using "1.IH"[OF False guard] "1.prems" s by auto
    have "ys ! v \<longleftrightarrow> xs ! v \<or> (c \<le> int v \<and> int v \<le> e \<and> s dvd int v - c)" if v: "v < length xs" for v
    proof -
      have dvd: "s dvd int v - (c + s) \<longleftrightarrow> s dvd int v - c" 
        using dvd_diff_left_iff[of s s "int v - c"] by (simp add: algebra_simps)
      have "c + s \<le> int v" if "c \<le> int v" "s dvd int v - c" "int v \<noteq> c"
        using zdvd_imp_le[OF that(2)] that by linarith
      then show ?thesis
        using ys(3)[OF v] dvd v c "1.prems"(1,3) by (cases "int v = c") (auto simp: nth_list_update nat_eq_iff2)
    qed
    then show ?thesis using rec ys by auto
  qed
qed

lemma cron_mark_overflow:
  assumes "0 \<le> c" "c \<le> e" "e < int (length xs)" "0 < s" "s < 2 ^ 63" "2 ^ 63 \<le> c + s" "e < 2 ^ 63"
  shows "cron_mark c e s xs = Panics"
proof -
  have s: "wrap64 s = s" using assms by (intro wrap64_id) auto
  have w: "wrap64 (c + s) < 0" using wrap64_add_cases[of c s] wrap64_range(2)[of "c + s"] assms s by linarith
  have "cron_mark c e s xs = cron_mark (wrap64 (c + s)) e s (xs[nat c := True])"
    using assms s by (subst cron_mark.simps) auto
  also have "\<dots> = Panics" using w assms by (subst cron_mark.simps) auto
  finally show ?thesis .
qed

section \<open>Printing fields\<close>

text \<open>The items of a field with numbers, what each prints as and the values it stands for.\<close>

datatype cron_item = Every | EveryNth int | Single int | From int int | Span int int | SpanNth int int int

fun print_item :: "cron_item \<Rightarrow> string" where
  "print_item Every = ''*''"
| "print_item (EveryNth n) = ''*/'' @ decimal (nat n)"
| "print_item (Single a) = decimal (nat a)"
| "print_item (From a n) = decimal (nat a) @ ''/'' @ decimal (nat n)"
| "print_item (Span a b) = decimal (nat a) @ ''-'' @ decimal (nat b)"
| "print_item (SpanNth a b n) = decimal (nat a) @ ''-'' @ decimal (nat b) @ ''/'' @ decimal (nat n)"

fun item_from :: "int \<Rightarrow> cron_item \<Rightarrow> int" where
  "item_from minimum Every = minimum" | "item_from minimum (EveryNth n) = minimum" | "item_from minimum (Single a) = a"
| "item_from minimum (From a n) = a" | "item_from minimum (Span a b) = a" | "item_from minimum (SpanNth a b n) = a"

fun item_upto :: "int \<Rightarrow> cron_item \<Rightarrow> int" where
  "item_upto maximum Every = maximum" | "item_upto maximum (EveryNth n) = maximum" | "item_upto maximum (Single a) = a"
| "item_upto maximum (From a n) = maximum" | "item_upto maximum (Span a b) = b" | "item_upto maximum (SpanNth a b n) = b"

fun item_step :: "cron_item \<Rightarrow> int" where
  "item_step (EveryNth n) = n" | "item_step (From a n) = n" | "item_step (SpanNth a b n) = n" | "item_step _ = 1"

definition item_allows :: "int \<Rightarrow> int \<Rightarrow> cron_item \<Rightarrow> int \<Rightarrow> bool" where
  "item_allows minimum maximum it v =
     (item_from minimum it \<le> v \<and> v \<le> item_upto maximum it \<and> item_step it dvd v - item_from minimum it)"

definition item_valid :: "int \<Rightarrow> int \<Rightarrow> cron_item \<Rightarrow> bool" where
  "item_valid minimum maximum it =
     (minimum \<le> item_from minimum it \<and> item_from minimum it \<le> item_upto maximum it \<and> item_upto maximum it \<le> maximum \<and>
      0 < item_step it \<and> item_step it < 2 ^ 63)"

fun print_items :: "cron_item list \<Rightarrow> string" where
  "print_items [] = []"
| "print_items [it] = print_item it"
| "print_items (it # its) = print_item it @ '','' @ print_items its"

lemma decimal_seps [simp]: "CHR ''/'' \<notin> set (decimal n)" "CHR ''-'' \<notin> set (decimal n)" "CHR '','' \<notin> set (decimal n)"
  by (auto intro!: decimal_not_in)

lemma decimal_not_star [simp]: "decimal n \<noteq> CHR ''*'' # t"
proof
  assume "decimal n = CHR ''*'' # t"
  then have "CHR ''*'' \<in> set (decimal n)" by simp
  then show False using decimal_clean[of "CHR ''*''" n] by simp
qed

text \<open>Names that do not start with a digit do not hide numbers.\<close>

definition names_ok :: "(string, int) gomap \<Rightarrow> bool" where
  "names_ok names = list_all (\<lambda>(k, v). k \<noteq> [] \<and> \<not> is_digit (hd k)) names"

lemma names_ok_decimal: "names_ok names \<Longrightarrow> map_of names (decimal n) = None"
proof (rule ccontr)
  assume ok: "names_ok names" and "map_of names (decimal n) \<noteq> None"
  then obtain v where "(decimal n, v) \<in> set names" by (auto dest: map_of_SomeD)
  then have "\<not> is_digit (hd (decimal n))" using ok by (auto simp: names_ok_def list_all_iff)
  moreover have "is_digit (hd (decimal n))" using decimal_digits[of n] by (simp add: list_all_iff)
  ultimately show False by simp
qed

lemma parseCronValue_decimal:
  assumes "names_ok names" "0 \<le> v" "minimum \<le> v" "v \<le> maximum" "maximum < 2 ^ 63"
  shows "parseCronValue (decimal (nat v)) minimum maximum names = Inr v"
  using assms atoi_decimal[of "nat v"] by (simp add: parseCronValue_def names_ok_decimal)

lemma parseCronStep_plain: "CHR ''/'' \<notin> set base \<Longrightarrow> base \<noteq> [] \<Longrightarrow> parseCronStep base = Inr (base, 1, False)"
  by (simp add: parseCronStep_def Let_def split_on_absent)

lemma parseCronStep_step:
  assumes "CHR ''/'' \<notin> set base" "base \<noteq> []" "0 < n" "n < 2 ^ 63"
  shows "parseCronStep (base @ CHR ''/'' # decimal (nat n)) = Inr (base, n, True)"
  using assms atoi_decimal[of "nat n"] by (simp add: parseCronStep_def Let_def split_on_append split_on_absent)

lemma cron_bounds_range:
  assumes "names_ok names" "0 \<le> minimum" "minimum \<le> a" "a \<le> b" "b \<le> maximum" "maximum < 2 ^ 63"
  shows "cron_bounds (decimal (nat a) @ CHR ''-'' # decimal (nat b)) st minimum maximum names = Inr (a, b)"
proof -
  have "decimal (nat a) @ CHR ''-'' # decimal (nat b) \<noteq> ''*''" by (cases "decimal (nat a)") auto
  moreover have "parseCronValue (decimal (nat a)) minimum maximum names = Inr a" "parseCronValue (decimal (nat b)) minimum maximum names = Inr b"
    using assms by (auto intro!: parseCronValue_decimal)
  ultimately show ?thesis using assms by (simp add: cron_bounds_def Let_def split_on_append split_on_absent)
qed

lemma cron_bounds_value:
  assumes "names_ok names" "0 \<le> minimum" "minimum \<le> a" "a \<le> maximum" "maximum < 2 ^ 63"
  shows "cron_bounds (decimal (nat a)) st minimum maximum names = Inr (a, if st then maximum else a)"
  using assms parseCronValue_decimal[of names a minimum maximum] by (simp add: cron_bounds_def)

text \<open>One item is read as it was printed.\<close>

lemma parse_printed_item:
  assumes ok: "names_ok names" and m: "0 \<le> minimum" "maximum < 2 ^ 63" and it: "item_valid minimum maximum it"
  shows "print_item it \<noteq> []" "\<exists>base st. parseCronStep (print_item it) = Inr (base, item_step it, st) \<and>
    cron_bounds base st minimum maximum names = Inr (item_from minimum it, item_upto maximum it)"
proof -
  show "print_item it \<noteq> []" by (cases it) auto
  have star: "cron_bounds ''*'' st minimum maximum names = Inr (minimum, maximum)" for st by (simp add: cron_bounds_def)
  show "\<exists>base st. parseCronStep (print_item it) = Inr (base, item_step it, st) \<and>
    cron_bounds base st minimum maximum names = Inr (item_from minimum it, item_upto maximum it)"
  proof (cases it)
    case Every
    then show ?thesis using star parseCronStep_plain[of "''*''"] by auto
  next
    case (EveryNth n)
    then show ?thesis using star parseCronStep_step[of "''*''" n] it by (auto simp: item_valid_def)
  next
    case (Single a)
    then show ?thesis using parseCronStep_plain[of "decimal (nat a)"] cron_bounds_value[OF ok m(1), of a maximum False] it m
      by (auto simp: item_valid_def)
  next
    case (From a n)
    then show ?thesis using parseCronStep_step[of "decimal (nat a)" n] cron_bounds_value[OF ok m(1), of a maximum True] it m
      by (auto simp: item_valid_def)
  next
    case (Span a b)
    then show ?thesis using parseCronStep_plain[of "decimal (nat a) @ ''-'' @ decimal (nat b)"] cron_bounds_range[OF ok m(1), of a b maximum False] it m
      by (auto simp: item_valid_def)
  next
    case (SpanNth a b n)
    then show ?thesis using parseCronStep_step[of "decimal (nat a) @ ''-'' @ decimal (nat b)" n] cron_bounds_range[OF ok m(1), of a b maximum True] it m
      by (auto simp: item_valid_def)
  qed
qed

lemma parse_printed_items:
  assumes ok: "names_ok names" and m: "0 \<le> minimum" "maximum < 2 ^ 63"
    and "\<forall>it \<in> set its. item_valid minimum maximum it \<and> maximum + item_step it < 2 ^ 63" "int (length xs) = maximum + 1"
  shows "\<exists>ys. parse_items (map print_item its) minimum maximum names xs = Returns (Inr ys) \<and> length ys = length xs \<and>
    (\<forall>v < length xs. ys ! v \<longleftrightarrow> xs ! v \<or> (\<exists>it \<in> set its. item_allows minimum maximum it (int v)))"
  using assms(4,5)
proof (induction its arbitrary: xs)
  case (Cons it its)
  have it: "item_valid minimum maximum it" "maximum + item_step it < 2 ^ 63" using Cons.prems by auto
  obtain base st where p: "parseCronStep (print_item it) = Inr (base, item_step it, st)"
    "cron_bounds base st minimum maximum names = Inr (item_from minimum it, item_upto maximum it)"
    using parse_printed_item(2)[OF ok m it(1)] by blast
  obtain ys where ys: "cron_mark (item_from minimum it) (item_upto maximum it) (item_step it) xs = Returns ys" "length ys = length xs"
    "\<forall>v < length xs. ys ! v \<longleftrightarrow> xs ! v \<or> item_allows minimum maximum it (int v)"
    using cron_mark_marks[of "item_from minimum it" "item_upto maximum it" xs "item_step it"] it m Cons.prems
    by (auto simp: item_valid_def item_allows_def)
  have "print_item it \<noteq> []" using parse_printed_item(1)[OF ok m it(1)] .
  then show ?case using Cons.IH[of ys] Cons.prems p ys by auto
qed simp

lemma print_item_no_comma: "CHR '','' \<notin> set (print_item it)"
  by (cases it) auto

lemma split_print_items: "its \<noteq> [] \<Longrightarrow> split_on CHR '','' (print_items its) = map print_item its"
  by (induction its rule: print_items.induct) (auto simp: split_on_absent split_on_append print_item_no_comma)

lemma decimal_upper: "map upper_byte (decimal n) = decimal n"
  by (rule map_idI) (auto simp: upper_byte_def dest: decimal_clean)

lemma decimal_ascii: "list_all (\<lambda>c. byte c < 128) (decimal n)"
  by (auto simp: list_all_iff dest: decimal_clean)

lemma upper_seps: "upper_byte CHR '','' = CHR '',''" "upper_byte CHR ''*'' = CHR ''*''" "upper_byte CHR ''/'' = CHR ''/''" "upper_byte CHR ''-'' = CHR ''-''"
  by (simp_all add: upper_byte_def)

lemma print_item_upper: "map upper_byte (print_item it) = print_item it" "list_all (\<lambda>c. byte c < 128) (print_item it)"
  by (cases it; simp add: decimal_upper decimal_ascii upper_seps)+

lemma print_items_upper: "to_upper upper (print_items its) = print_items its"
proof -
  have "map upper_byte (print_items its) = print_items its \<and> list_all (\<lambda>c. byte c < 128) (print_items its)"
    by (induction its rule: print_items.induct) (auto simp: print_item_upper upper_seps)
  then show ?thesis by (simp add: to_upper_def is_ascii_def)
qed


text \<open>
  C26: the parser reads a field as it is written: for any list of items (\<open>*\<close>, values, ranges, each
  with or without a step) within the field's bounds, and steps that leave room below \<open>2 ^ 63\<close>, parsing
  the printed list succeeds and allows exactly the values that some item stands for.
\<close>

theorem parse_printed_field:
  assumes "names_ok names" "0 \<le> minimum" "minimum \<le> maximum" "its \<noteq> []"
    "\<forall>it \<in> set its. item_valid minimum maximum it \<and> maximum + item_step it < 2 ^ 63"
  shows "\<exists>field. parseCronField upper (print_items its) minimum maximum names = Returns (Inr field) \<and>
    length field = nat (maximum + 1) \<and>
    (\<forall>v < nat (maximum + 1). field ! v \<longleftrightarrow> (\<exists>it \<in> set its. item_allows minimum maximum it (int v)))"
proof -
  have max: "maximum < 2 ^ 63" using assms(4,5) by (cases its) (auto simp: item_valid_def)
  have len: "int (length (replicate (nat (maximum + 1)) False)) = maximum + 1" using assms by simp
  show ?thesis
    using parse_printed_items[OF assms(1,2) max assms(5) len] assms(4)
    by (simp add: parseCronField_def print_items_upper split_print_items)
qed

theorem parse_printed_field_witness:
  "\<exists>field. parseCronField id (print_items [Span 1 5, EveryNth 20]) 0 59 [] = Returns (Inr field) \<and> length field = 60 \<and>
     field ! 3 \<and> field ! 40 \<and> \<not> field ! 7"
  using parse_printed_field[of "[]" 0 59 "[Span 1 5, EveryNth 20]" id]
  by (auto simp: names_ok_def item_valid_def item_allows_def)

text \<open>
  A value with a step so large that their sum is \<open>2 ^ 63\<close> or more makes the parser panic instead of
  reporting an invalid expression: the loop variable wraps around to a negative index.
\<close>

theorem large_step_panics:
  assumes "names_ok names" "0 \<le> minimum" "minimum \<le> a" "a \<le> maximum" "maximum < 2 ^ 63" "0 < n" "n < 2 ^ 63" "2 ^ 63 \<le> a + n"
  shows "parseCronField upper (print_items [From a n]) minimum maximum names = Panics"
proof -
  have "item_valid minimum maximum (From a n)" using assms by (simp add: item_valid_def)
  then obtain base st where p: "parseCronStep (print_item (From a n)) = Inr (base, n, st)"
    "cron_bounds base st minimum maximum names = Inr (a, maximum)" "print_item (From a n) \<noteq> []"
    using parse_printed_item[OF assms(1,2,5), of "From a n"] by auto
  have "cron_mark a maximum n (replicate (nat (maximum + 1)) False) = Panics"
    using assms by (intro cron_mark_overflow) auto
  then show ?thesis using p split_print_items[of "[From a n]"]
    by (simp only: parseCronField_def print_items_upper) simp
qed

theorem large_step_panics_witness: "parseCronField id (print_items [From 1 9223372036854775807]) 1 31 [] = Panics"
  using large_step_panics[of "[]" 1 1 31 9223372036854775807 id] by (simp add: names_ok_def)

end
