(* ===== verification/CronSearch.thy ===== *)
theory CronSearch
  imports Cron
begin

text \<open>
  The search for the next run of a cron expression. In a zone with a fixed offset it always returns, and
  what it returns is the first minute after the given time that matches; in any zone a time it returns
  matches; in a zone whose clocks skip midnight the search can run for ever.
\<close>

section \<open>What a matching time is\<close>

definition cron_matches :: "cronExpression \<Rightarrow> location \<Rightarrow> instant \<Rightarrow> bool" where
  "cron_matches ex loc t =
     (ce_months ex ! nat (month_of loc t) \<and> matchesDay ex loc t \<and> ce_hours ex ! nat (hour_of loc t) \<and>
      ce_minutes ex ! nat (minute_of loc t))"

lemma cron_search_sound:
  assumes "cron_search ex loc limit c = Some r"
  shows "\<forall>t. r = Some t \<longrightarrow> cron_matches ex loc t \<and> t \<le> limit"
proof (rule cron_search.raw_induct[where P = "\<lambda>ex loc limit c r. \<forall>t. r = Some t \<longrightarrow> cron_matches ex loc t \<and> t \<le> limit", OF _ assms], goal_cases)
  case (1 search ex' loc' limit' c' r')
  show ?case using 1(1)[of ex' loc' limit'] 1(2) by (auto simp: cron_matches_def split: if_splits)
qed

section \<open>Fixed offsets\<close>

text \<open>Local seconds of whole minutes, and what they determine.\<close>

lemma nanosecond_pos: "0 < nanosecond" by (simp add: nanosecond_def)

lemma minute_second: "(minute * q) div nanosecond = 60 * q"
  by (simp add: minute_def nanosecond_def)

lemma local_minute: "local_second (fixed_zone (60 * k)) (minute * q) = 60 * q + 60 * k"
  by (simp add: fixed_zone_simps minute_second)

lemma matchesDay_cong:
  assumes "local_second loc t div 86400 = local_second loc u div 86400"
  shows "matchesDay ex loc t = matchesDay ex loc u"
  using assms by (simp add: matchesDay_def day_of_def weekday_of_def local_date_def)

lemma hour_of_eq: "hour_of loc t = local_second loc t div 3600 mod 24"
proof -
  have "local_second loc t mod (3600 * 24) div 3600 = local_second loc t div 3600 mod 24"
    using div_mult2_eq zmod_zmult2_eq[of 24 "local_second loc t" 3600] by simp
  then show ?thesis by (simp add: hour_of_def)
qed

text \<open>One turn of the loop at the whole minute \<open>q\<close>: where it goes on, and that it skips no matching minute.\<close>

definition skips_to :: "cronExpression \<Rightarrow> int \<Rightarrow> int \<Rightarrow> int \<Rightarrow> bool" where
  "skips_to ex k q q' = (q < q' \<and> (\<forall>p. q \<le> p \<and> p < q' \<longrightarrow> \<not> cron_matches ex (fixed_zone (60 * k)) (minute * p)))"

lemma month_turn:
  fixes k q :: int
  defines "loc \<equiv> fixed_zone (60 * k)"
  assumes no: "\<not> ce_months ex ! nat (month_of loc (minute * q))"
  shows "\<exists>q'. go_date loc (year_of loc (minute * q)) (month_of loc (minute * q) + 1) 1 0 0 0 0 = minute * q' \<and> skips_to ex k q q'"
proof -
  let ?n = "(60 * q + 60 * k) div 86400"
  obtain y m d where n: "?n = day_of_date y m d" and r: "1 \<le> m" "m \<le> 12" "1 \<le> d" "d \<le> month_length y m"
    by (rule day_has_date)
  have date: "date_of_day ?n = (y, m, d)" unfolding n by (rule date_of_day_of_date[OF r])
  have ym: "year_of loc (minute * q) = y" "month_of loc (minute * q) = m"
    unfolding loc_def by (simp_all add: year_of_def month_of_def local_date_def local_minute date)
  let ?e = "day_of_date y (m + 1) 1"
  have e: "?e = day_of_date y m 1 + month_length y m" by (rule day_of_date_next_month[OF r(1,2)])
  have n1: "?n = day_of_date y m 1 + (d - 1)" using day_of_date_add[of y m 1 "d - 1"] n by simp
  have go: "go_date loc y (m + 1) 1 0 0 0 0 = minute * (1440 * ?e - k)"
    unfolding loc_def by (simp add: fixed_zone_simps minute_def algebra_simps)
  have "skips_to ex k q (1440 * ?e - k)"
    unfolding skips_to_def
  proof (intro conjI allI impI)
    have "?n < ?e" using e n1 r by linarith
    then show "q < 1440 * ?e - k" by linarith
    fix p assume p: "q \<le> p \<and> p < 1440 * ?e - k"
    let ?np = "(60 * p + 60 * k) div 86400"
    have "?n \<le> ?np" using p by (intro zdiv_mono1) auto
    moreover have "?np < ?e" using p by linarith
    ultimately obtain j where j: "?np = day_of_date y m j" "1 \<le> j" "j \<le> month_length y m"
      using day_of_date_add[of y m 1 "?np - day_of_date y m 1"] e n1 r(3)
      by (intro that[of "1 + (?np - day_of_date y m 1)"]) auto
    then have "date_of_day ?np = (y, m, j)" using date_of_day_of_date[OF r(1,2)] by simp
    then have "month_of loc (minute * p) = m" unfolding loc_def by (simp add: month_of_def local_date_def local_minute)
    then show "\<not> cron_matches ex (fixed_zone (60 * k)) (minute * p)" using no ym by (simp add: cron_matches_def loc_def)
  qed
  then show ?thesis using go ym by auto
qed

lemma before_next_day: "x < 86400 * (x div 86400 + 1)" for x :: int
proof -
  obtain d r where "x div 86400 = d" "x = 86400 * d + r" "r < 86400"
    using mult_div_mod_eq[of 86400 x] pos_mod_bound[of 86400 x] by (metis zero_less_numeral)
  then show ?thesis by simp
qed

lemma same_day: "x \<le> y \<Longrightarrow> y < 86400 * (x div 86400 + 1) \<Longrightarrow> y div 86400 = x div 86400" for x y :: int
proof -
  assume xy: "x \<le> y" "y < 86400 * (x div 86400 + 1)"
  have "x mod 86400 \<ge> 0" by simp
  then show ?thesis
    using xy mult_div_mod_eq[of 86400 x] by (intro int_div_pos_eq[where r = "y - 86400 * (x div 86400)"]) auto
qed

lemma day_turn:
  fixes k q :: int
  defines "loc \<equiv> fixed_zone (60 * k)"
  assumes no: "\<not> matchesDay ex loc (minute * q)"
  shows "\<exists>q'. go_date loc (year_of loc (minute * q)) (month_of loc (minute * q)) (day_of loc (minute * q) + 1) 0 0 0 0 = minute * q' \<and>
    skips_to ex k q q'"
proof -
  let ?n = "(60 * q + 60 * k) div 86400"
  obtain y m d where n: "?n = day_of_date y m d" and r: "1 \<le> m" "m \<le> 12" "1 \<le> d" "d \<le> month_length y m"
    by (rule day_has_date)
  have date: "date_of_day ?n = (y, m, d)" unfolding n by (rule date_of_day_of_date[OF r])
  have ymd: "year_of loc (minute * q) = y" "month_of loc (minute * q) = m" "day_of loc (minute * q) = d"
    unfolding loc_def by (simp_all add: year_of_def month_of_def day_of_def local_date_def local_minute date)
  have go: "go_date loc y m (d + 1) 0 0 0 0 = minute * (1440 * (?n + 1) - k)"
    unfolding loc_def fixed_zone_simps day_of_date_add n by (simp add: minute_def algebra_simps)
  have "skips_to ex k q (1440 * (?n + 1) - k)"
    unfolding skips_to_def
  proof (intro conjI allI impI)
    have "60 * q + 60 * k < 86400 * (?n + 1)" by (rule before_next_day)
    then show "q < 1440 * (?n + 1) - k" by linarith
    fix p assume p: "q \<le> p \<and> p < 1440 * (?n + 1) - k"
    have "(60 * p + 60 * k) div 86400 = ?n" using p by (intro same_day) auto
    then have "matchesDay ex loc (minute * p) = matchesDay ex loc (minute * q)"
      unfolding loc_def by (intro matchesDay_cong) (simp add: local_minute)
    then show "\<not> cron_matches ex (fixed_zone (60 * k)) (minute * p)" using no by (simp add: cron_matches_def loc_def)
  qed
  then show ?thesis using go ymd by auto
qed

lemma hour_turn:
  fixes k q :: int
  defines "loc \<equiv> fixed_zone (60 * k)"
  assumes no: "\<not> ce_hours ex ! nat (hour_of loc (minute * q))"
  shows "\<exists>q'. minute * q + (60 - minute_of loc (minute * q)) * minute = minute * q' \<and> skips_to ex k q q'"
proof -
  have mn: "minute_of loc (minute * q) = (q + k) mod 60"
  proof -
    have "(60 * (q + k)) mod (60 * 60) = 60 * ((q + k) mod 60)" by (simp only: mod_mult_mult1)
    then show ?thesis by (simp add: loc_def minute_of_def local_minute)
  qed
  let ?q' = "q + (60 - (q + k) mod 60)"
  have "skips_to ex k q ?q'"
    unfolding skips_to_def
  proof (intro conjI allI impI)
    show "q < ?q'" using pos_mod_bound[of 60 "q + k"] by simp
    fix p assume p: "q \<le> p \<and> p < ?q'"
    have "(p + k) div 60 = (q + k) div 60"
      using p mult_div_mod_eq[of 60 "q + k"] pos_mod_sign[of 60 "q + k"]
      by (intro int_div_pos_eq[where r = "p - q + (q + k) mod 60"]) auto
    moreover have "(60 * x) div (60 * 60) = x div 60" for x :: int by (simp only: div_mult_mult1)
    from this[of "p + k"] this[of "q + k"] have "(60 * p + 60 * k) div 3600 = (p + k) div 60" "(60 * q + 60 * k) div 3600 = (q + k) div 60"
      by simp_all
    ultimately have "(60 * p + 60 * k) div 3600 = (60 * q + 60 * k) div 3600" by simp
    then have "hour_of loc (minute * p) = hour_of loc (minute * q)" unfolding hour_of_eq loc_def local_minute by simp
    then show "\<not> cron_matches ex (fixed_zone (60 * k)) (minute * p)" using no by (simp add: cron_matches_def loc_def)
  qed
  moreover have "minute * q + (60 - minute_of loc (minute * q)) * minute = minute * ?q'"
    unfolding mn by (simp add: algebra_simps)
  ultimately show ?thesis by blast
qed

lemma minute_turn:
  assumes "\<not> ce_minutes ex ! nat (minute_of (fixed_zone (60 * k)) (minute * q))"
  shows "skips_to ex k q (q + 1)"
  using assms by (auto simp: skips_to_def cron_matches_def)


text \<open>So the search returns, and skips nothing on the way.\<close>

lemma cron_search_fixed:
  fixes k :: int
  defines "loc \<equiv> fixed_zone (60 * k)"
  shows "\<exists>r. cron_search ex loc limit (minute * q) = Some r \<and>
    (case r of
       Some t \<Rightarrow> \<exists>q'. t = minute * q' \<and> q \<le> q' \<and> (\<forall>p. q \<le> p \<and> p < q' \<longrightarrow> \<not> cron_matches ex loc (minute * p))
     | None \<Rightarrow> \<forall>p. q \<le> p \<and> minute * p \<le> limit \<longrightarrow> \<not> cron_matches ex loc (minute * p))"
    (is "\<exists>r. ?S q r \<and> ?P q r")
proof (induction "nat (limit div minute + 1 - q)" arbitrary: q rule: less_induct)
  case less
  have pos: "0 < minute" by (simp add: minute_def nanosecond_def)
  show ?case
  proof (cases "limit < minute * q")
    case True
    have "limit < minute * p" if "q \<le> p" for p using True that pos by (meson le_less_trans less_le_trans mult_left_mono order_less_imp_le)
    then show ?thesis using True by (subst cron_search.simps) (auto simp: not_less[symmetric])
  next
    case False
    then have "q \<le> limit div minute" using zdiv_mono1[of "minute * q" limit minute] pos by simp
    then have smaller: "nat (limit div minute + 1 - q') < nat (limit div minute + 1 - q)" if "q < q'" for q' using that by simp
    have go_on: ?thesis if sk: "skips_to ex k q q'" and eq: "cron_search ex loc limit (minute * q) = cron_search ex loc limit (minute * q')" for q'
    proof -
      have lt: "q < q'" and no: "\<And>p. q \<le> p \<Longrightarrow> p < q' \<Longrightarrow> \<not> cron_matches ex loc (minute * p)"
        using sk by (auto simp: skips_to_def loc_def)
      obtain r where r: "?S q' r" "?P q' r" using less.hyps[OF smaller[OF lt]] by blast
      have "?P q r"
      proof (cases r)
        case None
        then show ?thesis using r no by (auto simp: not_less) (meson not_less)
      next
        case (Some t)
        with r(2) obtain q2 where "t = minute * q2" "q' \<le> q2" "\<forall>p. q' \<le> p \<and> p < q2 \<longrightarrow> \<not> cron_matches ex loc (minute * p)" by auto
        then have "t = minute * q2 \<and> q \<le> q2 \<and> (\<forall>p. q \<le> p \<and> p < q2 \<longrightarrow> \<not> cron_matches ex loc (minute * p))"
          using no lt by (meson less_imp_le not_less order_trans)
        then show ?thesis using Some by auto
      qed
      then show ?thesis using r(1) eq by auto
    qed
    show ?thesis
    proof (cases "cron_matches ex loc (minute * q)")
      case True
      then have "cron_search ex loc limit (minute * q) = Some (Some (minute * q))"
        using False by (subst cron_search.simps) (simp add: cron_matches_def)
      then show ?thesis by auto
    next
      case nomatch: False
      consider (month) "\<not> ce_months ex ! nat (month_of loc (minute * q))"
        | (day) "ce_months ex ! nat (month_of loc (minute * q))" "\<not> matchesDay ex loc (minute * q)"
        | (hour) "ce_months ex ! nat (month_of loc (minute * q))" "matchesDay ex loc (minute * q)" "\<not> ce_hours ex ! nat (hour_of loc (minute * q))"
        | (minute) "ce_months ex ! nat (month_of loc (minute * q))" "matchesDay ex loc (minute * q)" "ce_hours ex ! nat (hour_of loc (minute * q))"
            "\<not> ce_minutes ex ! nat (minute_of loc (minute * q))"
        using nomatch by (auto simp: cron_matches_def)
      then show ?thesis
      proof cases
        case month
        then show ?thesis using month_turn[of ex k q] go_on False
          by (metis (no_types, lifting) loc_def cron_search.simps)
      next
        case day
        then show ?thesis using day_turn[of ex k q] go_on False
          by (metis (no_types, lifting) loc_def cron_search.simps)
      next
        case hour
        then show ?thesis using hour_turn[of ex k q] go_on False
          by (metis (no_types, lifting) loc_def cron_search.simps)
      next
        case minute
        have "cron_search ex loc limit (minute * q) = cron_search ex loc limit (minute * (q + 1))"
          using minute False by (subst cron_search.simps) (simp add: distrib_left)
        then show ?thesis using minute_turn[of ex k q] minute go_on[of "q + 1"] by (simp add: loc_def)
      qed
    qed
  qed
qed


lemma truncate_minute: "truncate_time minute t + minute = minute * (t div minute + 1)"
  by (simp add: truncate_time_def minus_mod_eq_mult_div algebra_simps)

lemma minute_after: "t < minute * p \<longleftrightarrow> t div minute + 1 \<le> p"
proof -
  have pos: "0 < minute" by (simp add: minute_def nanosecond_def)
  have t: "t = minute * (t div minute) + t mod minute" "0 \<le> t mod minute" "t mod minute < minute" using pos by simp_all
  show ?thesis
  proof
    assume "t < minute * p"
    then have "minute * (t div minute) < minute * p" using t by linarith
    then show "t div minute + 1 \<le> p" using pos by simp
  next
    assume "t div minute + 1 \<le> p"
    then have "minute * (t div minute + 1) \<le> minute * p" using pos by simp
    then have "minute * (t div minute) + minute \<le> minute * p" by (simp add: distrib_left)
    then show "t < minute * p" using t by linarith
  qed
qed

text \<open>
  C28: in a zone with a fixed offset of whole minutes the search always returns. A time it returns is the
  first whole minute after the given time that matches the expression; when it gives up, no whole
  minute up to its limit, eight years on, matches.
\<close>

theorem cron_next_earliest:
  fixes k :: int
  defines "loc \<equiv> fixed_zone (60 * k)"
  shows "\<exists>r. cron_next ex t0 loc = Some r \<and>
    (case r of
       Some t \<Rightarrow> t0 < t \<and> minute dvd t \<and> cron_matches ex loc t \<and> (\<forall>u. t0 < u \<and> u < t \<and> minute dvd u \<longrightarrow> \<not> cron_matches ex loc u)
     | None \<Rightarrow> \<forall>u. t0 < u \<and> u \<le> add_years loc cronSearchYears (truncate_time minute t0 + minute) \<and> minute dvd u \<longrightarrow> \<not> cron_matches ex loc u)"
proof -
  let ?q = "t0 div minute + 1" and ?limit = "add_years loc cronSearchYears (truncate_time minute t0 + minute)"
  have pos: "0 < minute" by (simp add: minute_def nanosecond_def)
  obtain r where r: "cron_search ex loc ?limit (minute * ?q) = Some r"
    "case r of
       Some t \<Rightarrow> \<exists>q'. t = minute * q' \<and> ?q \<le> q' \<and> (\<forall>p. ?q \<le> p \<and> p < q' \<longrightarrow> \<not> cron_matches ex loc (minute * p))
     | None \<Rightarrow> \<forall>p. ?q \<le> p \<and> minute * p \<le> ?limit \<longrightarrow> \<not> cron_matches ex loc (minute * p)"
    unfolding loc_def using cron_search_fixed[of ex k] by blast
  have found: "cron_next ex t0 loc = Some r" using r(1) by (simp add: cron_next_def Let_def truncate_minute)
  show ?thesis
  proof (cases r)
    case None
    then show ?thesis using found r(2) by (auto simp: minute_after elim!: dvdE)
  next
    case (Some t)
    then obtain q' where q': "t = minute * q'" "?q \<le> q'" "\<And>p. ?q \<le> p \<Longrightarrow> p < q' \<Longrightarrow> \<not> cron_matches ex loc (minute * p)"
      using r(2) by auto
    have "cron_matches ex loc t" using cron_search_sound[OF r(1)] Some by simp
    moreover have "\<not> cron_matches ex loc u" if u: "t0 < u" "u < t" "minute dvd u" for u
    proof -
      obtain p where p: "u = minute * p" using u(3) by (auto elim: dvdE)
      then have "p < q'" using u(2) q'(1) pos by simp
      then show ?thesis using q'(3)[of p] u(1) p by (simp add: minute_after)
    qed
    ultimately show ?thesis using found Some q' by (auto simp: minute_after)
  qed
qed

text \<open>Sundays at nine, and the Saturday before 8 September 2024.\<close>

definition sundays :: cronExpression where
  "sundays = (case parseCronExpression id ''0 9 * * sun'' of Returns (Inr ex) \<Rightarrow> ex)"

definition saturday :: instant where
  "saturday = go_date (fixed_zone 0) 2024 9 7 12 0 0 0"

theorem cron_next_earliest_witness:
  "cron_next sundays saturday (fixed_zone (60 * 0)) = Some (Some (go_date (fixed_zone 0) 2024 9 8 9 0 0 0)) \<and>
   saturday < go_date (fixed_zone 0) 2024 9 8 9 0 0 0"
proof -
  have "cron_next sundays saturday (fixed_zone (60 * 0)) = Some (Some (go_date (fixed_zone 0) 2024 9 8 9 0 0 0))"
    by code_simp
  then show ?thesis using cron_next_earliest[of sundays saturday 0] by auto
qed

text \<open>
  In every zone, whatever its transitions, a time the search returns matches the expression and is
  within the limit.
\<close>

theorem cron_next_matches:
  assumes "cron_next ex t0 loc = Some (Some t)"
  shows "cron_matches ex loc t \<and> t \<le> add_years loc cronSearchYears (truncate_time minute t0 + minute)"
  using cron_search_sound assms unfolding cron_next_def Let_def by blast

text \<open>Chile before and after the change of 8 September 2024, when the clocks went from midnight to one.\<close>

definition santiago :: location where
  "santiago = (- 14400, [(86400 * day_of_date 2024 9 8 + 14400, - 10800)])"

theorem cron_next_matches_witness:
  "cron_matches sundays santiago (go_date santiago 2024 9 15 9 0 0 0)"
proof -
  have "cron_next sundays (go_date santiago 2024 9 9 9 0 0 0) santiago = Some (Some (go_date santiago 2024 9 15 9 0 0 0))" by code_simp
  then show ?thesis using cron_next_matches by blast
qed

section \<open>A search that never ends\<close>

text \<open>
  \<open>time.Date\<close> may choose an hour before a gap for a time within it. When the clocks skip midnight west of
  Greenwich, the midnight that starts the next day is then the last hour of the same day, and the loop
  returns to where it was.
\<close>

lemma cron_search_stuck:
  assumes "go_date loc (year_of loc c) (month_of loc c) (day_of loc c + 1) 0 0 0 0 = c"
    "c \<le> limit" "ce_months ex ! nat (month_of loc c)" "\<not> matchesDay ex loc c"
  shows "cron_search ex loc limit c = None"
proof (cases "cron_search ex loc limit c")
  case (Some r)
  let ?P = "\<lambda>ex' loc' limit' c' r'. (ex', loc', limit', c') \<noteq> (ex, loc, limit, c)"
  have "?P ex loc limit c r"
  proof (rule cron_search.raw_induct[where P = ?P, OF _ Some], goal_cases)
    case (1 search ex' loc' limit' c' r')
    show ?case using 1(1)[of ex' loc' limit' "go_date loc' (year_of loc' c') (month_of loc' c') (day_of loc' c' + 1) 0 0 0 0"] 1(2) assms
      by (auto split: if_splits)
  qed
  then show ?thesis by simp
qed

text \<open>Eleven in the evening of that Saturday, which \<open>time.Date\<close> takes for the midnight that does not exist.\<close>

definition last_hour :: instant where
  "last_hour = go_date santiago 2024 9 7 23 0 0 0"

definition first_candidate :: instant where
  "first_candidate = truncate_time minute saturday + minute"

definition search_limit :: instant where
  "search_limit = add_years santiago cronSearchYears first_candidate"

text \<open>
  C30: scheduling a task for Sundays in such a zone on the Saturday before never returns: the call hangs,
  whatever the scheduler, instead of registering the task or reporting an error.
\<close>

theorem ScheduleCronTask_hangs:
  "ScheduleCronTask id santiago saturday ''report'' ''0 9 * * sun'' (Some run) (Some s) = Hangs"
proof -
  have "case parseCronExpression id ''0 9 * * sun'' of Returns (Inr ex) \<Rightarrow> True | _ \<Rightarrow> False" by code_simp
  then have parsed: "parseCronExpression id ''0 9 * * sun'' = Returns (Inr sundays)"
    unfolding sundays_def by (auto split: go_call.splits sum.splits)
  have "go_date santiago (year_of santiago last_hour) (month_of santiago last_hour) (day_of santiago last_hour + 1) 0 0 0 0 = last_hour" by code_simp
  moreover have "last_hour \<le> search_limit" by code_simp
  moreover have "ce_months sundays ! nat (month_of santiago last_hour)" by code_simp
  moreover have "\<not> matchesDay sundays santiago last_hour" by code_simp
  ultimately have "cron_search sundays santiago search_limit last_hour = None" by (rule cron_search_stuck)
  moreover have "\<not> search_limit < first_candidate" "ce_months sundays ! nat (month_of santiago first_candidate)" "\<not> matchesDay sundays santiago first_candidate"
    "go_date santiago (year_of santiago first_candidate) (month_of santiago first_candidate) (day_of santiago first_candidate + 1) 0 0 0 0 = last_hour" by code_simp+
  then have "cron_search sundays santiago search_limit first_candidate = cron_search sundays santiago search_limit last_hour"
    by (subst cron_search.simps) simp
  ultimately have "cron_nextDelay sundays santiago saturday = None" by (simp add: cron_nextDelay_def cron_next_def Let_def search_limit_def first_candidate_def)
  moreover have "trim_space ''report'' \<noteq> []" by code_simp
  ultimately show ?thesis using parsed by (simp add: ScheduleCronTask_def)
qed

end
