(* ===== verification/SubscriptionBuffer.thy ===== *)
theory SubscriptionBuffer
  imports GoStrings
begin

text \<open>
  The replay buffer of a subscription: \<open>src/backend/framework/subscription_buffer.go\<close>. Readers follow it
  by cursors, an epoch and a sequence number. The lemmas relate the buffer to the list of all values
  published since it was created: the buffer holds the last ones, and a reader that follows its
  cursors receives the published values one after the other or is told that it has fallen behind.

  \<open>ProduceSubscription\<close> of \<open>subscription.go\<close> is the loop that reads such a source for one client; the last
  section composes the two.

  The channel \<open>changed\<close> is a number, its generation: a reader that has to wait waits for the generation it
  saw to pass or for the buffer to be closed.
\<close>

section \<open>The buffer\<close>

definition MaxRequestBytes :: int where "MaxRequestBytes = 4 * 1024 * 1024"

record SubscriptionBufferOptions =
  so_Capacity :: int
  so_MaxEventBytes :: int

record subscriptionRecord =
  sr_sequence :: "64 word"
  sr_value :: string

record SubscriptionBuffer =
  sb_epoch :: string
  sb_capacity :: int
  sb_maxEventBytes :: int
  sb_sequence :: "64 word"
  sb_records :: "subscriptionRecord list"
  sb_generation :: nat
  sb_closed :: bool

datatype sub_error =
    SubOptionsInvalid | SubEpochFailed | SubEncodeFailed | SubEventTooLarge | ErrSubscriptionClosed | SubSequenceExhausted
  | SubCursorInvalid | SubCursorExpired | SubContext ctx_error | SubDecodeFailed | SubEOF

text \<open>\<open>epoch\<close> is what \<open>rand.Read\<close> yields, \<open>None\<close> when it fails.\<close>

definition NewSubscriptionBuffer :: "SubscriptionBufferOptions \<Rightarrow> string option \<Rightarrow> sub_error + SubscriptionBuffer" where
  "NewSubscriptionBuffer options epoch =
     (let capacity = (if so_Capacity options = 0 then 256 else so_Capacity options);
          maxEventBytes = (if so_MaxEventBytes options = 0 then 64 * 1024 else so_MaxEventBytes options)
      in if capacity < 1 \<or> 4096 < capacity \<or> maxEventBytes < 1 \<or> MaxRequestBytes < maxEventBytes then Inl SubOptionsInvalid
         else case epoch of
           None \<Rightarrow> Inl SubEpochFailed
         | Some bs \<Rightarrow>
             Inr \<lparr>sb_epoch = hex_encode bs, sb_capacity = capacity, sb_maxEventBytes = maxEventBytes, sb_sequence = 0,
                  sb_records = [], sb_generation = 0, sb_closed = False\<rparr>)"

definition buffer_cursor :: "SubscriptionBuffer \<Rightarrow> 64 word \<Rightarrow> string" where
  "buffer_cursor b sequence = sb_epoch b @ '':'' @ decimal (unat sequence)"

text \<open>\<open>encoded\<close> is the value as \<open>json.Marshal\<close> encodes it, \<open>None\<close> when it cannot.\<close>

definition Publish :: "string option \<Rightarrow> SubscriptionBuffer \<Rightarrow> SubscriptionBuffer \<times> (sub_error + string)" where
  [op_defs]: "Publish encoded b =
     (case encoded of
        None \<Rightarrow> (b, Inl SubEncodeFailed)
      | Some enc \<Rightarrow>
          if int (length enc) > sb_maxEventBytes b then (b, Inl SubEventTooLarge)
          else if sb_closed b then (b, Inl ErrSubscriptionClosed)
          else if sb_sequence b = - 1 then (b, Inl SubSequenceExhausted)
          else
            let sequence = sb_sequence b + 1;
                record = \<lparr>sr_sequence = sequence, sr_value = enc\<rparr>;
                records = (if int (length (sb_records b)) = sb_capacity b then tl (sb_records b) @ [record]
                           else sb_records b @ [record])
            in (b\<lparr>sb_sequence := sequence, sb_records := records, sb_generation := sb_generation b + 1\<rparr>,
                Inr (buffer_cursor b sequence)))"

definition BufferCursor :: "SubscriptionBuffer \<Rightarrow> string" where
  "BufferCursor b = buffer_cursor b (sb_sequence b)"

definition CloseBuffer :: "SubscriptionBuffer \<Rightarrow> SubscriptionBuffer" where
  [op_defs]: "CloseBuffer b = (if sb_closed b then b else b\<lparr>sb_closed := True\<rparr>)"

text \<open>
  \<open>Next\<close>: reading the cursor, and one turn of its loop. A turn ends the call, or waits for a generation
  after the one it saw.
\<close>

definition next_cursor :: "string \<Rightarrow> SubscriptionBuffer \<Rightarrow> sub_error + 64 word option" where
  "next_cursor after b =
     (if after = [] then Inr None
      else case cut_at CHR '':'' after of (epoch, suffix, ok) \<Rightarrow>
        (case parse_uint suffix of
           None \<Rightarrow> Inl SubCursorInvalid
         | Some parsed \<Rightarrow>
             if \<not> ok \<or> decimal (nat parsed) \<noteq> suffix then Inl SubCursorInvalid
             else if epoch \<noteq> sb_epoch b then Inl SubCursorExpired
             else Inr (Some (word_of_int parsed))))"

datatype 'v next_turn = NextReturns "sub_error + string \<times> 'v" | NextWaits nat

definition next_turn :: "(string \<Rightarrow> 'v option) \<Rightarrow> go_context \<Rightarrow> 64 word option \<Rightarrow> SubscriptionBuffer \<Rightarrow> 'v next_turn" where
  "next_turn decode ctx sequence b =
     (case ctx_err ctx of
        Some e \<Rightarrow> NextReturns (Inl (SubContext e))
      | None \<Rightarrow>
          (case sequence of
             Some s \<Rightarrow>
               if s > sb_sequence b then NextReturns (Inl SubCursorInvalid)
               else if sb_records b \<noteq> [] \<and> s < sr_sequence (hd (sb_records b)) - 1 then NextReturns (Inl SubCursorExpired)
               else (case filter (\<lambda>r. sr_sequence r > s) (sb_records b) of
                       r # _ \<Rightarrow>
                         (case decode (sr_value r) of
                            None \<Rightarrow> NextReturns (Inl SubDecodeFailed)
                          | Some v \<Rightarrow> NextReturns (Inr (buffer_cursor b (sr_sequence r), v)))
                     | [] \<Rightarrow> if sb_closed b then NextReturns (Inl SubEOF) else NextWaits (sb_generation b))
           | None \<Rightarrow>
               (case sb_records b of
                  r # _ \<Rightarrow>
                    (case decode (sr_value r) of
                       None \<Rightarrow> NextReturns (Inl SubDecodeFailed)
                     | Some v \<Rightarrow> NextReturns (Inr (buffer_cursor b (sr_sequence r), v)))
                | [] \<Rightarrow> if sb_closed b then NextReturns (Inl SubEOF) else NextWaits (sb_generation b))))"

definition Next :: "(string \<Rightarrow> 'v option) \<Rightarrow> go_context \<Rightarrow> string \<Rightarrow> SubscriptionBuffer \<Rightarrow> 'v next_turn" where
  "Next decode ctx after b =
     (case next_cursor after b of Inl e \<Rightarrow> NextReturns (Inl e) | Inr sequence \<Rightarrow> next_turn decode ctx sequence b)"

text \<open>A waiting reader is woken by the next publication and by closing.\<close>

definition woken :: "nat \<Rightarrow> SubscriptionBuffer \<Rightarrow> bool" where
  "woken generation b = (generation < sb_generation b \<or> sb_closed b)"

section \<open>The published values\<close>

text \<open>The buffers that publishing and closing lead to, with the encoded values published so far.\<close>

inductive published :: "SubscriptionBuffer \<Rightarrow> string list \<Rightarrow> bool" where
  new: "NewSubscriptionBuffer options epoch = Inr b \<Longrightarrow> published b []"
| publish: "published b vs \<Longrightarrow> Publish (Some v) b = (b', Inr c) \<Longrightarrow> published b' (vs @ [v])"
| refused: "published b vs \<Longrightarrow> Publish v b = (b', Inl e) \<Longrightarrow> published b' vs"
| close: "published b vs \<Longrightarrow> published (CloseBuffer b) vs"

definition retained :: "SubscriptionBuffer \<Rightarrow> string list \<Rightarrow> nat" where
  "retained b vs = min (length vs) (nat (sb_capacity b))"

text \<open>The records are the last values with their numbers, counted from one.\<close>

definition record_at :: "string list \<Rightarrow> nat \<Rightarrow> subscriptionRecord" where
  "record_at vs i = \<lparr>sr_sequence = of_nat (i + 1), sr_value = vs ! i\<rparr>"

definition buffer_inv :: "SubscriptionBuffer \<Rightarrow> string list \<Rightarrow> bool" where
  "buffer_inv b vs =
     (1 \<le> sb_capacity b \<and> sb_capacity b \<le> 4096 \<and> length vs < 2 ^ 64 \<and> sb_sequence b = of_nat (length vs) \<and>
      CHR '':'' \<notin> set (sb_epoch b) \<and> list_all (\<lambda>v. int (length v) \<le> sb_maxEventBytes b) vs \<and>
      sb_records b = map (record_at vs) [length vs - retained b vs..<length vs])"


lemma colon_not_hex: "CHR '':'' \<notin> set (hex_encode s)"
proof
  assume "CHR '':'' \<in> set (hex_encode s)"
  then have "is_hex_digit CHR '':''" using hex_encode_digits[of s] by (auto simp: list_all_iff)
  then show False by (simp add: is_hex_digit_def)
qed

lemma record_at_append: "i < length vs \<Longrightarrow> record_at (vs @ ws) i = record_at vs i"
  by (simp add: record_at_def nth_append)

lemma tl_map_upt: "m < n \<Longrightarrow> tl (map f [m..<n]) = map f [Suc m..<n]"
  by (simp add: upt_rec)

lemma sequence_not_max:
  assumes "n < 2 ^ 64" "(of_nat n :: 64 word) \<noteq> - 1"
  shows "Suc n < 2 ^ 64"
proof (rule ccontr)
  assume "\<not> Suc n < 2 ^ 64"
  then have n: "n = 2 ^ 64 - 1" using assms(1) by simp
  have "(of_nat n :: 64 word) = word_of_nat (2 ^ 64 - 1)" unfolding n ..
  also have "\<dots> = - 1" by simp
  finally show False using assms(2) by simp
qed

lemma buffer_inv_publish:
  assumes inv: "buffer_inv b vs" and p: "Publish (Some v) b = (b', Inr c)"
  shows "buffer_inv b' (vs @ [v])"
proof -
  let ?n = "length vs" and ?r = "retained b vs"
  let ?new = "\<lparr>sr_sequence = sb_sequence b + 1, sr_value = v\<rparr>"
  have ok: "int (length v) \<le> sb_maxEventBytes b" "sb_sequence b \<noteq> - 1"
    and b': "b' = b\<lparr>sb_sequence := sb_sequence b + 1,
      sb_records := (if int (length (sb_records b)) = sb_capacity b then tl (sb_records b) @ [?new] else sb_records b @ [?new]),
      sb_generation := sb_generation b + 1\<rparr>"
    using p by (auto simp: Publish_def Let_def split: if_splits)
  have n: "Suc ?n < 2 ^ 64" using inv ok sequence_not_max[of ?n] by (simp add: buffer_inv_def)
  have recs: "sb_records b = map (record_at vs) [?n - ?r..<?n]" and cap: "1 \<le> sb_capacity b"
    using inv by (simp_all add: buffer_inv_def)
  have len: "length (sb_records b) = ?r" unfolding recs by (simp add: retained_def)
  have last: "record_at (vs @ [v]) ?n = ?new" using inv by (simp add: record_at_def buffer_inv_def add.commute)
  have old: "map (record_at (vs @ [v])) [i..<?n] = map (record_at vs) [i..<?n]" for i by (simp add: record_at_append)
  have upto: "map (record_at (vs @ [v])) [i..<Suc ?n] = map (record_at vs) [i..<?n] @ [?new]" if "i \<le> ?n" for i
    using that last old by simp
  have "sb_records b' = map (record_at (vs @ [v])) [Suc ?n - retained b' (vs @ [v])..<Suc ?n]"
  proof (cases "int ?r = sb_capacity b")
    case True
    then have "0 < ?r" "?r \<le> ?n" "retained b' (vs @ [v]) = ?r" using cap b' by (auto simp: retained_def)
    then show ?thesis using True len upto[of "Suc ?n - ?r"] unfolding b' by (simp add: recs tl_map_upt Suc_diff_le)
  next
    case False
    then have "?r = ?n" "retained b' (vs @ [v]) = Suc ?n" using cap b' by (auto simp: retained_def min_def split: if_splits)
    then show ?thesis using False len upto[of 0] unfolding b' by (simp add: recs)
  qed
  then show ?thesis using inv ok n unfolding buffer_inv_def b' by (simp add: add.commute)
qed

lemma buffer_inv_new: "NewSubscriptionBuffer options epoch = Inr b \<Longrightarrow> buffer_inv b []"
  by (auto simp: NewSubscriptionBuffer_def Let_def buffer_inv_def retained_def colon_not_hex split: if_splits option.splits)

lemma Publish_refused: "Publish v b = (b', Inl e) \<Longrightarrow> b' = b"
  by (auto simp: Publish_def Let_def split: option.splits if_splits)

lemma published_inv: "published b vs \<Longrightarrow> buffer_inv b vs"
proof (induction rule: published.induct)
  case (close b vs)
  then show ?case by (auto simp: CloseBuffer_def buffer_inv_def retained_def)
qed (auto intro: buffer_inv_new buffer_inv_publish dest: Publish_refused)

section \<open>Following the cursors\<close>

lemma buffer_cursor_read:
  assumes "buffer_inv b vs"
  shows "next_cursor (buffer_cursor b s) b = Inr (Some s)"
proof -
  have cut: "cut_at CHR '':'' (sb_epoch b @ CHR '':'' # decimal (unat s)) = (sb_epoch b, decimal (unat s), True)"
    using assms by (simp add: cut_at_found buffer_inv_def)
  have "int (unat s) < 2 ^ 64" using unsigned_less[of s] by simp
  then show ?thesis using cut by (simp add: next_cursor_def buffer_cursor_def parse_uint_decimal)
qed


lemma unat_small: "k < 2 ^ 64 \<Longrightarrow> unat (of_nat k :: 64 word) = k"
  by (simp add: unsigned_of_nat take_bit_nat_eq_self)

lemma of_nat_word_less: "j < 2 ^ 64 \<Longrightarrow> k < 2 ^ 64 \<Longrightarrow> (of_nat j :: 64 word) < of_nat k \<longleftrightarrow> j < k"
  by (simp add: word_less_nat_alt unat_small)

lemma filter_upt_ge: "filter (\<lambda>i. k \<le> i) [m..<n] = [max m k..<n]"
  by (induction n) auto

lemma newer_records:
  assumes "n < 2 ^ 64" "k < 2 ^ 64" "n = length vs" "m \<le> k"
  shows "filter (\<lambda>r. sr_sequence r > (of_nat k :: 64 word)) (map (record_at vs) [m..<n]) = map (record_at vs) [k..<n]"
proof -
  have "filter (\<lambda>r. sr_sequence r > (of_nat k :: 64 word)) (map (record_at vs) [m..<n]) =
      map (record_at vs) (filter (\<lambda>i. sr_sequence (record_at vs i) > of_nat k) [m..<n])" by (simp add: filter_map o_def)
  also have "filter (\<lambda>i. sr_sequence (record_at vs i) > (of_nat k :: 64 word)) [m..<n] = filter (\<lambda>i. k \<le> i) [m..<n]"
  proof (rule filter_cong)
    fix i assume "i \<in> set [m..<n]"
    then have "Suc i < 2 ^ 64" using assms(1) by simp
    then have "(of_nat k :: 64 word) < of_nat (Suc i) \<longleftrightarrow> k < Suc i" using assms(2) by (intro of_nat_word_less) auto
    then show "(sr_sequence (record_at vs i) > of_nat k) = (k \<le> i)" by (simp add: record_at_def add.commute less_Suc_eq_le)
  qed simp
  finally show ?thesis using assms(4) by (simp add: filter_upt_ge max_absorb2)
qed

text \<open>
  C31: \<open>Next\<close> after the cursor of any position answers from the list of all values ever published: the value
  at that position with the cursor of the next one while it is retained, an expired cursor once it is not,
  an invalid cursor when nothing has been published there, and at the end it waits, or reports the end of
  a closed buffer. No value is skipped or repeated silently, although only the last ones are kept.
\<close>

theorem next_replays_published:
  assumes "published b vs" "k < 2 ^ 64"
  shows "Next decode LiveContext (buffer_cursor b (of_nat k)) b =
    (if length vs < k then NextReturns (Inl SubCursorInvalid)
     else if k < length vs - retained b vs then NextReturns (Inl SubCursorExpired)
     else if k < length vs then
       NextReturns (case decode (vs ! k) of None \<Rightarrow> Inl SubDecodeFailed | Some v \<Rightarrow> Inr (buffer_cursor b (of_nat (k + 1)), v))
     else if sb_closed b then NextReturns (Inl SubEOF) else NextWaits (sb_generation b))"
proof -
  let ?n = "length vs" and ?m = "length vs - retained b vs"
  have inv: "buffer_inv b vs" using assms(1) by (rule published_inv)
  have n: "?n < 2 ^ 64" and seq: "sb_sequence b = of_nat ?n" and recs: "sb_records b = map (record_at vs) [?m..<?n]"
    and cap: "1 \<le> sb_capacity b"
    using inv by (simp_all add: buffer_inv_def)
  have newer: "(of_nat k :: 64 word) > sb_sequence b \<longleftrightarrow> ?n < k" unfolding seq using n assms(2) by (intro of_nat_word_less) auto
  have empty: "sb_records b = [] \<longleftrightarrow> ?n = 0" unfolding recs using cap by (auto simp: retained_def min_def split: if_splits)
  have older: "sb_records b \<noteq> [] \<and> (of_nat k :: 64 word) < sr_sequence (hd (sb_records b)) - 1 \<longleftrightarrow> k < ?m"
  proof (cases "?n = 0")
    case False
    then have lt: "?m < ?n" using cap by (auto simp: retained_def)
    then have "hd (sb_records b) = record_at vs ?m" unfolding recs by (simp add: upt_rec)
    then have "sr_sequence (hd (sb_records b)) - 1 = of_nat ?m" by (simp add: record_at_def)
    moreover have "(of_nat k :: 64 word) < of_nat ?m \<longleftrightarrow> k < ?m" using assms(2) n by (intro of_nat_word_less) auto
    ultimately show ?thesis using False empty by simp
  qed (use empty in simp)
  have turn: "Next decode LiveContext (buffer_cursor b (of_nat k)) b = next_turn decode LiveContext (Some (of_nat k)) b"
    by (simp add: Next_def buffer_cursor_read[OF inv])
  have filt: "\<not> k < ?m \<Longrightarrow> filter (\<lambda>r. sr_sequence r > (of_nat k :: 64 word)) (sb_records b) = map (record_at vs) [k..<?n]"
    unfolding recs using n assms(2) by (intro newer_records) auto
  have rec_k: "sr_value (record_at vs k) = vs ! k" "sr_sequence (record_at vs k) = of_nat (k + 1)" by (simp_all add: record_at_def)
  consider "?n < k" | "k < ?m" "\<not> ?n < k" | "\<not> k < ?m" "k < ?n" | "\<not> k < ?m" "\<not> k < ?n" "\<not> ?n < k" by linarith
  then show ?thesis
  proof cases
    case 3
    then have "map (record_at vs) [k..<?n] = record_at vs k # map (record_at vs) [Suc k..<?n]" by (simp add: upt_rec)
    then show ?thesis using 3 newer older filt rec_k unfolding turn next_turn_def by (simp split: option.split)
  next
    case 4
    then have "map (record_at vs) [k..<?n] = []" by simp
    then have "filter (\<lambda>r. sr_sequence r > (of_nat k :: 64 word)) (sb_records b) = []" using filt 4 by simp
    then show ?thesis using 4(1,2) newer older unfolding turn next_turn_def by (auto simp: not_less)
  qed (use newer older in \<open>simp_all add: turn next_turn_def\<close>)
qed

definition tiny_buffer :: SubscriptionBuffer where
  "tiny_buffer = projr (NewSubscriptionBuffer \<lparr>so_Capacity = 2, so_MaxEventBytes = 4\<rparr> (Some ''ab''))"

definition tiny_after :: "string list \<Rightarrow> SubscriptionBuffer" where
  "tiny_after vs = foldl (\<lambda>b v. fst (Publish (Some v) b)) tiny_buffer vs"

lemma published_tiny: "published (tiny_after [''1'', ''2'', ''3'']) [''1'', ''2'', ''3'']"
proof -
  have "NewSubscriptionBuffer \<lparr>so_Capacity = 2, so_MaxEventBytes = 4\<rparr> (Some ''ab'') = Inr tiny_buffer"
    unfolding tiny_buffer_def by code_simp
  then have "published (tiny_after []) []" unfolding tiny_after_def by (simp add: published.new)
  moreover have step: "published (tiny_after vs) vs \<Longrightarrow> is_ok (snd (Publish (Some v) (tiny_after vs))) \<Longrightarrow>
      published (tiny_after (vs @ [v])) (vs @ [v])" for vs v
    using published.publish[of "tiny_after vs" vs v] by (auto simp: tiny_after_def is_ok_iff prod_eq_iff)
  moreover have "is_ok (snd (Publish (Some ''1'') (tiny_after [])))" "is_ok (snd (Publish (Some ''2'') (tiny_after [''1''])))"
    "is_ok (snd (Publish (Some ''3'') (tiny_after [''1'', ''2''])))" by code_simp+
  ultimately show ?thesis using step[of "[]"] step[of "[''1'']"] step[of "[''1'', ''2'']"] by simp
qed

theorem next_replays_published_witness:
  "Next Some LiveContext (buffer_cursor (tiny_after [''1'', ''2'', ''3'']) 0) (tiny_after [''1'', ''2'', ''3'']) = NextReturns (Inl SubCursorExpired) \<and>
   Next Some LiveContext (buffer_cursor (tiny_after [''1'', ''2'', ''3'']) 1) (tiny_after [''1'', ''2'', ''3'']) =
     NextReturns (Inr (buffer_cursor (tiny_after [''1'', ''2'', ''3'']) 2, ''2''))"
proof -
  have "retained (tiny_after [''1'', ''2'', ''3'']) [''1'', ''2'', ''3''] = 2" by code_simp
  then show ?thesis
    using next_replays_published[OF published_tiny, of 0 Some] next_replays_published[OF published_tiny, of 1 Some] by simp
qed

section \<open>The producer of a subscription\<close>

datatype 'v sub_frame = DataFrame string 'v | HeartbeatFrame string

datatype produce_end = ProduceDone | ProduceContext ctx_error | ProduceFailed sub_error | ProduceSendFailed

datatype 'v produce_step = ProduceEnds produce_end | ProduceContinues string "'v sub_frame"

text \<open>
  One turn of \<open>ProduceSubscription\<close> with what the source returned; \<open>timedOut\<close> tells whether the read's own
  deadline passed, \<open>stream\<close> the error of the stream's context, \<open>sent\<close> whether sending the frame succeeds.
\<close>

definition produce_turn :: "sub_error + (string \<times> 'v) \<Rightarrow> bool \<Rightarrow> ctx_error option \<Rightarrow> bool \<Rightarrow> string \<Rightarrow> 'v produce_step" where
  "produce_turn result timedOut stream sent cursor =
     (case stream of
        Some e \<Rightarrow> ProduceEnds (ProduceContext e)
      | None \<Rightarrow>
          (case result of
             Inl e \<Rightarrow>
               if e = SubEOF then ProduceEnds ProduceDone
               else if e = SubContext DeadlineExceeded \<and> timedOut then
                 (if sent then ProduceContinues cursor (HeartbeatFrame cursor) else ProduceEnds ProduceSendFailed)
               else ProduceEnds (ProduceFailed e)
           | Inr (c, v) \<Rightarrow>
               if c = [] \<or> c = cursor \<or> 4096 < length c then ProduceEnds (ProduceFailed SubCursorInvalid)
               else if sent then ProduceContinues c (DataFrame c v) else ProduceEnds ProduceSendFailed))"

text \<open>
  A client that follows a buffer while others publish to it and close it: the buffer, the values published
  so far, the client's cursor and the values it has received.
\<close>

inductive follows :: "(string \<Rightarrow> 'v option) \<Rightarrow> SubscriptionBuffer \<Rightarrow> string list \<Rightarrow> nat \<Rightarrow> string \<Rightarrow> 'v list \<Rightarrow> bool" for decode where
  start: "published b vs \<Longrightarrow> k \<le> length vs \<Longrightarrow> follows decode b vs k (buffer_cursor b (of_nat k)) []"
| publish: "follows decode b vs k c ws \<Longrightarrow> Publish (Some v) b = (b', Inr c') \<Longrightarrow> follows decode b' (vs @ [v]) k c ws"
| close: "follows decode b vs k c ws \<Longrightarrow> follows decode (CloseBuffer b) vs k c ws"
| read: "follows decode b vs k c ws \<Longrightarrow> Next decode ctx c b = NextReturns r \<Longrightarrow>
    produce_turn r timedOut None True c = ProduceContinues c' (DataFrame d v) \<Longrightarrow> follows decode b vs k c' (ws @ [v])"
| heartbeat: "follows decode b vs k c ws \<Longrightarrow> produce_turn (r :: sub_error + string \<times> 'v) timedOut None True c = ProduceContinues c' (HeartbeatFrame d) \<Longrightarrow>
    follows decode b vs k c' ws"

lemma buffer_cursor_epoch: "sb_epoch b' = sb_epoch b \<Longrightarrow> buffer_cursor b' s = buffer_cursor b s"
  by (simp add: buffer_cursor_def)

lemma Publish_epoch: "Publish v b = (b', r) \<Longrightarrow> sb_epoch b' = sb_epoch b"
  by (auto simp: Publish_def Let_def split: option.splits if_splits)

lemma next_turn_live: "ctx_err ctx = None \<Longrightarrow> next_turn decode ctx s b = next_turn decode LiveContext s b"
  by (simp add: next_turn_def)

lemma follows_inv:
  "follows decode b vs k c ws \<Longrightarrow> published b vs \<and> k + length ws \<le> length vs \<and>
     c = buffer_cursor b (of_nat (k + length ws)) \<and> map Some ws = map decode (take (length ws) (drop k vs))"
proof (induction rule: follows.induct)
  case (publish b vs k c ws v b' c')
  then have eq: "buffer_cursor b' s = buffer_cursor b s" for s using Publish_epoch buffer_cursor_epoch by metis
  show ?case using publish published.publish[of b vs v b' c'] by (simp add: eq)
next
  case (close b vs k c ws)
  then show ?case using published.close[of b vs] by (auto simp: CloseBuffer_def buffer_cursor_def)
next
  case (read b vs k c ws ctx r timedOut c' d v)
  let ?j = "k + length ws"
  have pub: "published b vs" and c: "c = buffer_cursor b (of_nat ?j)" and j: "?j \<le> length vs" using read.IH by simp_all
  have lt: "?j < 2 ^ 64" using published_inv[OF pub] j by (simp add: buffer_inv_def)
  have r: "r = Inr (c', v)" using read.hyps(3) by (auto simp: produce_turn_def split: sum.splits if_splits)
  have live: "ctx_err ctx = None" using read.hyps(2) r unfolding c Next_def buffer_cursor_read[OF published_inv[OF pub]]
    by (auto simp: next_turn_def split: option.splits)
  have "Next decode LiveContext c b = NextReturns (Inr (c', v))"
    using read.hyps(2) next_turn_live[OF live, of decode] unfolding r Next_def by (auto split: sum.splits)
  then have "?j < length vs" "decode (vs ! ?j) = Some v" "c' = buffer_cursor b (of_nat (?j + 1))"
    using next_replays_published[OF pub lt, of decode] unfolding c by (auto split: if_splits option.splits)
  moreover have "map Some ws = map decode (take (length ws) (drop k vs))" using read.IH by simp
  ultimately show ?case using pub by (simp add: take_Suc_conv_app_nth)
next
  case (heartbeat b vs k c ws r timedOut c' d)
  then show ?case by (auto simp: produce_turn_def split: sum.splits if_splits)
qed simp

text \<open>
  C32: a client that follows a buffer through \<open>ProduceSubscription\<close> from the cursor of position \<open>k\<close> receives
  the published values from there on in order, each exactly once: what it has received is always a
  run of consecutive values starting at \<open>k\<close>, whatever is published, and however often heartbeats intervene.
\<close>

theorem subscription_delivers_in_order:
  assumes "follows decode b vs k c ws"
  shows "map Some ws = map decode (take (length ws) (drop k vs)) \<and> k + length ws \<le> length vs \<and>
    c = buffer_cursor b (of_nat (k + length ws))"
  using follows_inv[OF assms] by simp

theorem subscription_delivers_in_order_witness:
  "\<exists>c. follows Some (tiny_after [''1'', ''2'', ''3'']) [''1'', ''2'', ''3''] 1 c [''2''] \<and>
     c = buffer_cursor (tiny_after [''1'', ''2'', ''3'']) (of_nat 2)"
proof -
  let ?b = "tiny_after [''1'', ''2'', ''3'']" and ?c = "buffer_cursor (tiny_after [''1'', ''2'', ''3'']) 2"
  have "follows Some ?b [''1'', ''2'', ''3''] 1 (buffer_cursor ?b (of_nat 1)) []" using follows.start[OF published_tiny, of 1] by simp
  moreover have "Next Some LiveContext (buffer_cursor ?b (of_nat 1)) ?b = NextReturns (Inr (?c, ''2''))" by code_simp
  moreover have "produce_turn (Inr (?c, ''2'')) False None True (buffer_cursor ?b (of_nat 1)) = ProduceContinues ?c (DataFrame ?c ''2'')"
    by code_simp
  ultimately have "follows Some ?b [''1'', ''2'', ''3''] 1 ?c [''2'']" using follows.read by fastforce
  then show ?thesis using subscription_delivers_in_order by fastforce
qed

end
