(* ===== verification/FileTransfer.thy ===== *)
theory FileTransfer
  imports GoStrings
begin

text \<open>
  The store of file transfers: \<open>src/backend/framework/file_transfer.go\<close>. A store keeps its entries in
  memory and their bytes in files of its directory. The digest \<open>sha256\<close>, hexadecimal, and the parsing of
  media types (\<open>mime\<close>, \<open>None\<close> for an error) are arguments, as are the clock, the random bytes of
  identifiers, the bytes that sources yield and the outcomes of system calls. Paths are the joins of the
  store's directory and identifiers, by the rules of Unix.

  An operation that lets other calls run between its critical sections is modelled in phases, and
  as their sequence: \<open>Stage\<close> and \<open>AppendUpload\<close>. Downloads are handles that stay open between calls.
\<close>

section \<open>Data\<close>

definition defaultFileTransferTTL :: duration where
  "defaultFileTransferTTL = 15 * 60 * 10 ^ 9"

definition defaultFileTransferMaxBytes :: int where
  "defaultFileTransferMaxBytes = 2147483648"

definition fileTransferIDBytes :: nat where
  "fileTransferIDBytes = 32"

definition emptyFileSHA256 :: string where
  "emptyFileSHA256 = ''e3b0c44298fc1c149afbf4c8996fb92427ae41e4649b934ca495991b7852b855''"

datatype transfer_error =
    ErrFileTransferClosed | ErrFileTransferExpired | ErrFileTransferBusy | ErrFileTransferChecksum | ErrFileTransferIncomplete
  | ErrFileTransferInvalid | ErrFileTransferNotFound | ErrFileTransferOffset | ErrFileTransferTooLarge
  | ErrInvalidFileTransferOpts | TransferIO string

record FileReference =
  fr_ID :: string
  fr_Name :: string
  fr_MediaType :: string
  fr_Size :: int
  fr_SHA256 :: string
  fr_ExpiresAt :: instant
  fr_LocalPath :: string

record FileTransferOptions =
  fo_RootDir :: string
  fo_TTL :: duration
  fo_MaxBytes :: int
  fo_ExposeLocalPath :: bool

definition DefaultFileTransferOptions :: FileTransferOptions where
  "DefaultFileTransferOptions =
     \<lparr>fo_RootDir = [], fo_TTL = defaultFileTransferTTL, fo_MaxBytes = defaultFileTransferMaxBytes, fo_ExposeLocalPath = False\<rparr>"

record fileTransferEntry =
  fe_reference :: FileReference
  fe_path :: string
  fe_offset :: int
  fe_upload :: bool
  fe_complete :: bool
  fe_busy :: bool

record FileUploadStatus =
  us_Reference :: FileReference
  us_Offset :: int
  us_Complete :: bool

record FileTransferStore =
  fx_root :: string
  fx_ownsRoot :: bool
  fx_ttl :: duration
  fx_maxBytes :: int
  fx_exposeLocalPath :: bool
  fx_entries :: "(string, fileTransferEntry) gomap"
  fx_closed :: bool
  fx_active :: int
  fx_files :: "(string, string) gomap"

definition zero_reference :: FileReference where
  "zero_reference = \<lparr>fr_ID = [], fr_Name = [], fr_MediaType = [], fr_Size = 0, fr_SHA256 = [], fr_ExpiresAt = 0, fr_LocalPath = []\<rparr>"

definition zero_entry :: fileTransferEntry where
  "zero_entry = \<lparr>fe_reference = zero_reference, fe_path = [], fe_offset = 0, fe_upload = False, fe_complete = False, fe_busy = False\<rparr>"

definition zero_status :: FileUploadStatus where
  "zero_status = \<lparr>us_Reference = zero_reference, us_Offset = 0, us_Complete = False\<rparr>"

definition uploadStatus :: "fileTransferEntry \<Rightarrow> FileUploadStatus" where
  "uploadStatus e = \<lparr>us_Reference = (fe_reference e)\<lparr>fr_LocalPath := []\<rparr>, us_Offset = fe_offset e, us_Complete = fe_complete e\<rparr>"

text \<open>
  \<open>root\<close> is the directory made: the temporary one, or the absolute path of \<open>RootDir\<close>; \<open>None\<close> when
  making it failed.
\<close>

definition NewFileTransferStore :: "FileTransferOptions \<Rightarrow> string option \<Rightarrow> transfer_error + FileTransferStore" where
  "NewFileTransferStore options root =
     (let ttl = (if fo_TTL options = 0 then defaultFileTransferTTL else fo_TTL options);
          maxBytes = (if fo_MaxBytes options = 0 then defaultFileTransferMaxBytes else fo_MaxBytes options)
      in if ttl < 0 \<or> maxBytes < 0 then Inl ErrInvalidFileTransferOpts
         else case root of
           None \<Rightarrow> Inl (TransferIO ''create file transfer directory'')
         | Some dir \<Rightarrow>
             Inr \<lparr>fx_root = dir, fx_ownsRoot = (fo_RootDir options = []), fx_ttl = ttl, fx_maxBytes = maxBytes,
                  fx_exposeLocalPath = fo_ExposeLocalPath options, fx_entries = [], fx_closed = False, fx_active = 0, fx_files = []\<rparr>)"

section \<open>Checks\<close>

fun has_control :: "string \<Rightarrow> bool" where
  "has_control [] = False"
| "has_control (a # s) =
     (byte a < 32 \<or> byte a = 127 \<or> (byte a = 194 \<and> (case s of b # _ \<Rightarrow> 128 \<le> byte b \<and> byte b < 160 | [] \<Rightarrow> False)) \<or> has_control s)"

definition validateFileTransferMetadata ::
  "(string \<Rightarrow> string option) \<Rightarrow> string \<Rightarrow> string \<Rightarrow> transfer_error + (string \<times> string)" where
  "validateFileTransferMetadata mime name mediaType =
     (if name = [] \<or> name = ''.'' \<or> name = ''..'' \<or> CHR ''/'' \<in> set name \<or> CHR 0x5C \<in> set name \<or> has_control name
      then Inl ErrFileTransferInvalid
      else case mime (if mediaType = [] then ''application/octet-stream'' else mediaType) of
        None \<Rightarrow> Inl ErrFileTransferInvalid
      | Some formatted \<Rightarrow> Inr (name, formatted))"

definition validFileTransferID :: "string \<Rightarrow> bool" where
  "validFileTransferID i = (length i = fileTransferIDBytes * 2 \<and> list_all is_hex_digit i)"

definition validFileTransferChecksum :: "string \<Rightarrow> bool" where
  "validFileTransferChecksum checksum = validFileTransferID checksum"

section \<open>Shared steps\<close>

definition transfer_begin :: "FileTransferStore \<Rightarrow> transfer_error + FileTransferStore" where
  "transfer_begin s = (if fx_closed s then Inl ErrFileTransferClosed else Inr (s\<lparr>fx_active := fx_active s + 1\<rparr>))"

definition transfer_done :: "FileTransferStore \<Rightarrow> FileTransferStore" where
  "transfer_done s = s\<lparr>fx_active := fx_active s - 1\<rparr>"

definition remove_file :: "string \<Rightarrow> FileTransferStore \<Rightarrow> FileTransferStore" where
  "remove_file path s = s\<lparr>fx_files := AList.delete path (fx_files s)\<rparr>"

definition expired :: "instant \<Rightarrow> fileTransferEntry \<Rightarrow> bool" where
  "expired now e = (\<not> now < fr_ExpiresAt (fe_reference e))"

definition pruneExpired :: "instant \<Rightarrow> FileTransferStore \<Rightarrow> FileTransferStore" where
  "pruneExpired now s =
     (let old = filter (\<lambda>(i, e). \<not> fe_busy e \<and> expired now e) (fx_entries s)
      in s\<lparr>fx_entries := filter (\<lambda>(i, e). \<not> (\<not> fe_busy e \<and> expired now e)) (fx_entries s),
           fx_files := fold (\<lambda>(i, e). AList.delete (fe_path e)) old (fx_files s)\<rparr>)"

text \<open>
  The attempts to create a file: no random bytes, another error than that the file exists, or the bytes drawn.
\<close>

datatype create_try = NoRandomBytes | CreateFails | DrawnBytes string

definition file_path :: "FileTransferStore \<Rightarrow> string \<Rightarrow> string" where
  "file_path s i = fx_root s @ ''/'' @ i"

fun createFile :: "nat \<Rightarrow> create_try list \<Rightarrow> FileTransferStore \<Rightarrow> FileTransferStore \<times> (transfer_error + (string \<times> string))" where
  "createFile 0 tries s = (s, Inl (TransferIO ''could not allocate a unique file transfer id''))"
| "createFile (Suc n) tries s =
     (case tries of
        [] \<Rightarrow> (s, Inl (TransferIO ''create file transfer id''))
      | NoRandomBytes # _ \<Rightarrow> (s, Inl (TransferIO ''create file transfer id''))
      | CreateFails # _ \<Rightarrow> (s, Inl (TransferIO ''create file transfer''))
      | DrawnBytes bs # rest \<Rightarrow>
          let i = hex_encode bs; path = file_path s i in
          if map_of (fx_files s) path = None then (s\<lparr>fx_files := AList.update path [] (fx_files s)\<rparr>, Inr (i, path))
          else createFile n rest s)"

section \<open>Staging\<close>

text \<open>A file being staged: its identifier, path, name and media type.\<close>

record staging =
  sg_id :: string
  sg_path :: string
  sg_name :: string
  sg_mediaType :: string

definition stage_begin ::
  "(string \<Rightarrow> string option) \<Rightarrow> go_context \<Rightarrow> bool \<Rightarrow> string \<Rightarrow> string \<Rightarrow> instant \<Rightarrow> create_try list \<Rightarrow> FileTransferStore
    \<Rightarrow> FileTransferStore \<times> (transfer_error + staging)" where
  [op_defs]: "stage_begin mime ctx nilSource name mediaType now tries s =
     (if ctx = NilContext \<or> nilSource then (s, Inl ErrFileTransferInvalid)
      else case validateFileTransferMetadata mime name mediaType of
        Inl e \<Rightarrow> (s, Inl e)
      | Inr (nm, mt) \<Rightarrow>
          (case transfer_begin s of
             Inl e \<Rightarrow> (s, Inl e)
           | Inr s1 \<Rightarrow>
               (case createFile 4 tries (pruneExpired now s1) of
                  (s2, Inl e) \<Rightarrow> (transfer_done s2, Inl e)
                | (s2, Inr (i, path)) \<Rightarrow> (s2, Inr \<lparr>sg_id = i, sg_path = path, sg_name = nm, sg_mediaType = mt\<rparr>))))"

text \<open>
  What \<open>io.Copy\<close> does: the bytes the source has, of which the limit lets a prefix through (none when the sum of the
  limit wraps around), and whether reading or writing failed; then the outcomes of \<open>Sync\<close> and \<open>Close\<close>.
\<close>

record copy_io =
  cp_data :: string
  cp_fails :: bool
  cp_syncFails :: bool
  cp_closeFails :: bool

definition stage_finish ::
  "(string \<Rightarrow> string) \<Rightarrow> copy_io \<Rightarrow> instant \<Rightarrow> staging \<Rightarrow> FileTransferStore \<Rightarrow> FileTransferStore \<times> (transfer_error + FileReference)" where
  [op_defs]: "stage_finish sha256 io now g s =
     (let written = take (nat (wrap64 (fx_maxBytes s + 1))) (cp_data io);
          s1 = s\<lparr>fx_files := AList.update (sg_path g) written (fx_files s)\<rparr>;
          give_up = transfer_done (remove_file (sg_path g) s1);
          ref = \<lparr>fr_ID = sg_id g, fr_Name = sg_name g, fr_MediaType = sg_mediaType g, fr_Size = int (length written),
                 fr_SHA256 = sha256 written, fr_ExpiresAt = now + fx_ttl s,
                 fr_LocalPath = (if fx_exposeLocalPath s then sg_path g else [])\<rparr>
      in if cp_fails io then (give_up, Inl (TransferIO ''stage file transfer''))
         else if int (length written) > fx_maxBytes s then (give_up, Inl ErrFileTransferTooLarge)
         else if cp_syncFails io then (give_up, Inl (TransferIO ''sync file transfer''))
         else if cp_closeFails io then (give_up, Inl (TransferIO ''close file transfer''))
         else if fx_closed s then (give_up, Inl ErrFileTransferClosed)
         else (transfer_done (s1\<lparr>fx_entries := AList.update (sg_id g)
                 \<lparr>fe_reference = ref, fe_path = sg_path g, fe_offset = int (length written), fe_upload = False,
                  fe_complete = True, fe_busy = False\<rparr> (fx_entries s1)\<rparr>), Inr ref))"

definition Stage ::
  "(string \<Rightarrow> string) \<Rightarrow> (string \<Rightarrow> string option) \<Rightarrow> go_context \<Rightarrow> bool \<Rightarrow> string \<Rightarrow> string \<Rightarrow> instant \<Rightarrow> create_try list \<Rightarrow> copy_io
    \<Rightarrow> instant \<Rightarrow> FileTransferStore \<Rightarrow> FileTransferStore \<times> (transfer_error + FileReference)" where
  "Stage sha256 mime ctx nilSource name mediaType now tries io later s =
     (case stage_begin mime ctx nilSource name mediaType now tries s of
        (s1, Inl e) \<Rightarrow> (s1, Inl e)
      | (s1, Inr g) \<Rightarrow> stage_finish sha256 io later g s1)"


section \<open>Uploads\<close>

definition BeginUpload ::
  "(string \<Rightarrow> string option) \<Rightarrow> string \<Rightarrow> string \<Rightarrow> int \<Rightarrow> string \<Rightarrow> instant \<Rightarrow> create_try list \<Rightarrow> bool \<Rightarrow> FileTransferStore
    \<Rightarrow> FileTransferStore \<times> (transfer_error + FileUploadStatus)" where
  [op_defs]: "BeginUpload mime name mediaType sz checksum now tries closeFails s =
     (case validateFileTransferMetadata mime name mediaType of
        Inl e \<Rightarrow> (s, Inl ErrFileTransferInvalid)
      | Inr (nm, mt) \<Rightarrow>
          if sz < 0 \<or> \<not> validFileTransferChecksum checksum then (s, Inl ErrFileTransferInvalid)
          else if sz > fx_maxBytes s then (s, Inl ErrFileTransferTooLarge)
          else case transfer_begin s of
            Inl e \<Rightarrow> (s, Inl e)
          | Inr s1 \<Rightarrow>
              (case createFile 4 tries (pruneExpired now s1) of
                 (s2, Inl e) \<Rightarrow> (transfer_done s2, Inl e)
               | (s2, Inr (i, path)) \<Rightarrow>
                   let give_up = transfer_done (remove_file path s2);
                       entry = \<lparr>fe_reference = \<lparr>fr_ID = i, fr_Name = nm, fr_MediaType = mt, fr_Size = sz, fr_SHA256 = checksum,
                                                fr_ExpiresAt = now + fx_ttl s, fr_LocalPath = []\<rparr>,
                                fe_path = path, fe_offset = 0, fe_upload = True, fe_complete = (sz = 0), fe_busy = False\<rparr>
                   in if closeFails then (give_up, Inl (TransferIO ''close file upload''))
                      else if fe_complete entry \<and> checksum \<noteq> emptyFileSHA256 then (give_up, Inl ErrFileTransferChecksum)
                      else if fx_closed s2 then (give_up, Inl ErrFileTransferClosed)
                      else (transfer_done (s2\<lparr>fx_entries := AList.update i entry (fx_entries s2)\<rparr>), Inr (uploadStatus entry))))"

definition UploadStatus :: "string \<Rightarrow> instant \<Rightarrow> FileTransferStore \<Rightarrow> FileTransferStore \<times> (transfer_error + FileUploadStatus)" where
  [op_defs]: "UploadStatus i now s =
     (if \<not> validFileTransferID i then (s, Inl ErrFileTransferNotFound)
      else if fx_closed s then (s, Inl ErrFileTransferClosed)
      else case map_of (fx_entries s) i of
        None \<Rightarrow> (s, Inl ErrFileTransferNotFound)
      | Some e \<Rightarrow>
          if \<not> fe_upload e then (s, Inl ErrFileTransferNotFound)
          else if expired now e then
            (remove_file (fe_path e) (s\<lparr>fx_entries := AList.delete i (fx_entries s)\<rparr>), Inl ErrFileTransferExpired)
          else (s, Inr (uploadStatus e)))"

definition releaseUpload :: "string \<Rightarrow> string \<Rightarrow> int \<Rightarrow> bool \<Rightarrow> instant \<Rightarrow> FileTransferStore \<Rightarrow> FileTransferStore \<times> FileUploadStatus" where
  [op_defs]: "releaseUpload i path offset remove now s =
     (let found = map_of (fx_entries s) i;
          mine = (case found of Some e \<Rightarrow> fe_path e = path | None \<Rightarrow> False);
          entry = (case found of
             None \<Rightarrow> zero_entry
           | Some e \<Rightarrow> if mine \<and> \<not> remove
               then e\<lparr>fe_offset := offset, fe_complete := (offset = fr_Size (fe_reference e)), fe_busy := False,
                      fe_reference := (fe_reference e)\<lparr>fr_ExpiresAt := now + fx_ttl s\<rparr>\<rparr>
               else e);
          s1 = (if mine then s\<lparr>fx_entries := (if remove then AList.delete i (fx_entries s) else AList.update i entry (fx_entries s))\<rparr> else s)
      in if remove then (remove_file path s1, zero_status) else (s1, uploadStatus entry))"

text \<open>An append between its critical sections: the entry as it was read.\<close>

record appending =
  ap_id :: string
  ap_entry :: fileTransferEntry
  ap_offset :: int

type_synonym append_result = "FileUploadStatus \<times> transfer_error option"

definition append_begin ::
  "go_context \<Rightarrow> bool \<Rightarrow> string \<Rightarrow> int \<Rightarrow> instant \<Rightarrow> FileTransferStore \<Rightarrow> FileTransferStore \<times> (append_result + appending)" where
  [op_defs]: "append_begin ctx nilSource i offset now s =
     (if ctx = NilContext \<or> nilSource \<or> offset < 0 \<or> \<not> validFileTransferID i then (s, Inl (zero_status, Some ErrFileTransferInvalid))
      else case transfer_begin s of
        Inl e \<Rightarrow> (s, Inl (zero_status, Some e))
      | Inr s1 \<Rightarrow>
          (case map_of (fx_entries s1) i of
             None \<Rightarrow> (s, Inl (zero_status, Some ErrFileTransferNotFound))
           | Some e \<Rightarrow>
               if \<not> fe_upload e then (s, Inl (zero_status, Some ErrFileTransferNotFound))
               else if expired now e then
                 (remove_file (fe_path e) (s\<lparr>fx_entries := AList.delete i (fx_entries s)\<rparr>), Inl (zero_status, Some ErrFileTransferExpired))
               else if fe_busy e then (s, Inl (uploadStatus e, Some ErrFileTransferBusy))
               else if offset \<noteq> fe_offset e then (s, Inl (uploadStatus e, Some ErrFileTransferOffset))
               else if fe_complete e then (s, Inl (uploadStatus e, None))
               else (s1\<lparr>fx_entries := AList.update i (e\<lparr>fe_busy := True\<rparr>) (fx_entries s1)\<rparr>,
                     Inr \<lparr>ap_id = i, ap_entry = e, ap_offset = offset\<rparr>)))"

definition write_at :: "nat \<Rightarrow> string \<Rightarrow> string \<Rightarrow> string" where
  "write_at off bs content =
     take off content @ replicate (off - length content) (CHR 0x00) @ bs @ drop (off + length bs) content"

record upload_io =
  ai_openFails :: bool
  ai_seekFails :: bool
  ai_copy :: copy_io
  ai_verifyFails :: bool

text \<open>Writing to the file: the number of bytes written, or \<open>None\<close> when it cannot be opened or positioned.\<close>

definition append_write :: "upload_io \<Rightarrow> appending \<Rightarrow> FileTransferStore \<Rightarrow> FileTransferStore \<times> int option" where
  [op_defs]: "append_write io a s =
     (case map_of (fx_files s) (fe_path (ap_entry a)) of
        None \<Rightarrow> (s, None)
      | Some content \<Rightarrow>
          if ai_openFails io \<or> ai_seekFails io then (s, None)
          else
            let remaining = fr_Size (fe_reference (ap_entry a)) - ap_offset a;
                bs = take (nat (wrap64 (remaining + 1))) (cp_data (ai_copy io))
            in (s\<lparr>fx_files := AList.update (fe_path (ap_entry a)) (write_at (nat (ap_offset a)) bs content) (fx_files s)\<rparr>,
                Some (int (length bs))))"

text \<open>\<open>fileSHA256\<close>: the digest of the file, or \<open>None\<close> when it cannot be read.\<close>

definition fileSHA256 :: "(string \<Rightarrow> string) \<Rightarrow> bool \<Rightarrow> string \<Rightarrow> FileTransferStore \<Rightarrow> string option" where
  "fileSHA256 sha256 readFails path s = (if readFails then None else map_option sha256 (map_of (fx_files s) path))"

definition append_finish ::
  "(string \<Rightarrow> string) \<Rightarrow> upload_io \<Rightarrow> instant \<Rightarrow> appending \<Rightarrow> int option \<Rightarrow> FileTransferStore \<Rightarrow> FileTransferStore \<times> append_result" where
  [op_defs]: "append_finish sha256 io now a written s =
     (let i = ap_id a; path = fe_path (ap_entry a); ref = fe_reference (ap_entry a);
          drop_it = (\<lambda>off err. (transfer_done (fst (releaseUpload i path off True now s)), zero_status, Some err))
      in case written of
        None \<Rightarrow> (transfer_done (fst (releaseUpload i path (fe_offset (ap_entry a)) False now s)), zero_status, Some (TransferIO ''open file upload''))
      | Some n \<Rightarrow>
          let newOffset = ap_offset a + n; complete = (newOffset = fr_Size ref) in
          if n > fr_Size ref - ap_offset a then drop_it newOffset ErrFileTransferTooLarge
          else if cp_syncFails (ai_copy io) \<or> cp_closeFails (ai_copy io) then drop_it newOffset (TransferIO ''persist file upload'')
          else if complete \<and> fileSHA256 sha256 (ai_verifyFails io) path s = None then drop_it newOffset (TransferIO ''verify file upload'')
          else if complete \<and> fileSHA256 sha256 (ai_verifyFails io) path s \<noteq> Some (fr_SHA256 ref) then drop_it newOffset ErrFileTransferChecksum
          else case releaseUpload i path newOffset False now s of
            (s1, status) \<Rightarrow> (transfer_done s1, status, if cp_fails (ai_copy io) then Some (TransferIO ''append file upload'') else None))"

definition AppendUpload ::
  "(string \<Rightarrow> string) \<Rightarrow> go_context \<Rightarrow> bool \<Rightarrow> string \<Rightarrow> int \<Rightarrow> instant \<Rightarrow> upload_io \<Rightarrow> instant \<Rightarrow> FileTransferStore
    \<Rightarrow> FileTransferStore \<times> append_result" where
  "AppendUpload sha256 ctx nilSource i offset now io later s =
     (case append_begin ctx nilSource i offset now s of
        (s1, Inl r) \<Rightarrow> (s1, r)
      | (s1, Inr a) \<Rightarrow>
          (case append_write io a s1 of (s2, written) \<Rightarrow> append_finish sha256 io later a written s2))"

definition discard :: "string \<Rightarrow> FileTransferStore \<Rightarrow> FileTransferStore" where
  "discard i s =
     (case map_of (fx_entries s) i of
        None \<Rightarrow> s
      | Some e \<Rightarrow> remove_file (fe_path e) (s\<lparr>fx_entries := AList.delete i (fx_entries s)\<rparr>))"

text \<open>\<open>ImportUpload\<close>: for an empty file one byte is read to see that there is none.\<close>

definition ImportUpload ::
  "(string \<Rightarrow> string) \<Rightarrow> (string \<Rightarrow> string option) \<Rightarrow> go_context \<Rightarrow> bool \<Rightarrow> string \<Rightarrow> string \<Rightarrow> int \<Rightarrow> string \<Rightarrow> instant \<Rightarrow> create_try list
    \<Rightarrow> bool \<Rightarrow> upload_io \<Rightarrow> instant \<Rightarrow> FileTransferStore \<Rightarrow> FileTransferStore \<times> (transfer_error + FileReference)" where
  [op_defs]: "ImportUpload sha256 mime ctx nilSource name mediaType sz checksum now tries closeFails io later s =
     (if ctx = NilContext \<or> nilSource then (s, Inl ErrFileTransferInvalid)
      else case BeginUpload mime name mediaType sz checksum now tries closeFails s of
        (s1, Inl e) \<Rightarrow> (s1, Inl e)
      | (s1, Inr status) \<Rightarrow>
          if sz = 0 then
            (if cp_data (ai_copy io) \<noteq> [] then (discard (fr_ID (us_Reference status)) s1, Inl ErrFileTransferTooLarge)
             else if cp_fails (ai_copy io) then (discard (fr_ID (us_Reference status)) s1, Inl (TransferIO ''import file upload''))
             else (s1, Inr (us_Reference status)))
          else case AppendUpload sha256 ctx nilSource (fr_ID (us_Reference status)) 0 now io later s1 of
            (s2, status', Some e) \<Rightarrow> (discard (fr_ID (us_Reference status')) s2, Inl e)
          | (s2, status', None) \<Rightarrow>
              if \<not> us_Complete status' then (discard (fr_ID (us_Reference status')) s2, Inl ErrFileTransferIncomplete)
              else (s2, Inr (us_Reference status')))"

section \<open>Downloads\<close>

text \<open>An open download; \<open>fd_bytes\<close> is what reading it yields.\<close>

record FileDownload =
  fd_Reference :: FileReference
  fd_bytes :: string
  fd_path :: string
  fd_store :: bool
  fd_id :: string
  fd_consume :: bool

definition Take :: "string \<Rightarrow> instant \<Rightarrow> bool \<Rightarrow> FileTransferStore \<Rightarrow> FileTransferStore \<times> (transfer_error + FileDownload)" where
  [op_defs]: "Take i now openFails s =
     (if \<not> validFileTransferID i then (s, Inl ErrFileTransferNotFound)
      else case transfer_begin s of
        Inl e \<Rightarrow> (s, Inl e)
      | Inr s1 \<Rightarrow>
          (case map_of (fx_entries s1) i of
             None \<Rightarrow> (s, Inl ErrFileTransferNotFound)
           | Some e \<Rightarrow>
               if \<not> fe_complete e then (s, Inl ErrFileTransferIncomplete)
               else if fe_busy e then (s, Inl ErrFileTransferBusy)
               else
                 let s2 = s1\<lparr>fx_entries := AList.delete i (fx_entries s1)\<rparr> in
                 if expired now e then (transfer_done (remove_file (fe_path e) s2), Inl ErrFileTransferExpired)
                 else case (if openFails then None else map_of (fx_files s2) (fe_path e)) of
                   None \<Rightarrow> (transfer_done (remove_file (fe_path e) s2), Inl (TransferIO ''open file transfer''))
                 | Some content \<Rightarrow>
                     (s2, Inr \<lparr>fd_Reference = (fe_reference e)\<lparr>fr_LocalPath := []\<rparr>, fd_bytes = content, fd_path = fe_path e,
                               fd_store = False, fd_id = [], fd_consume = True\<rparr>)))"

definition ConsumeUpload :: "FileReference \<Rightarrow> instant \<Rightarrow> bool \<Rightarrow> FileTransferStore \<Rightarrow> FileTransferStore \<times> (transfer_error + FileDownload)" where
  [op_defs]: "ConsumeUpload ref now openFails s =
     (if \<not> validFileTransferID (fr_ID ref) then (s, Inl ErrFileTransferNotFound)
      else case map_of (fx_entries s) (fr_ID ref) of
        None \<Rightarrow> (s, Inl ErrFileTransferInvalid)
      | Some e \<Rightarrow>
          if fe_upload e \<and> fe_complete e \<and> fr_Name (fe_reference e) = fr_Name ref \<and>
             fr_MediaType (fe_reference e) = fr_MediaType ref \<and> fr_Size (fe_reference e) = fr_Size ref \<and>
             fr_SHA256 (fe_reference e) = fr_SHA256 ref
          then Take (fr_ID ref) now openFails s
          else if \<not> fe_complete e then (s, Inl ErrFileTransferIncomplete)
          else (s, Inl ErrFileTransferInvalid))"

definition finishDownload :: "string \<Rightarrow> string \<Rightarrow> bool \<Rightarrow> FileTransferStore \<Rightarrow> FileTransferStore" where
  [op_defs]: "finishDownload i path consume s =
     (let s1 = (case map_of (fx_entries s) i of
                  None \<Rightarrow> s
                | Some e \<Rightarrow>
                    if fe_path e = path then
                      s\<lparr>fx_entries := (if consume then AList.delete i (fx_entries s)
                                      else AList.update i (e\<lparr>fe_busy := False\<rparr>) (fx_entries s))\<rparr>
                    else s)
      in if consume then remove_file path s1 else s1)"

definition OpenDownload ::
  "string \<Rightarrow> int \<Rightarrow> instant \<Rightarrow> bool \<Rightarrow> bool \<Rightarrow> FileTransferStore \<Rightarrow> FileTransferStore \<times> (transfer_error + FileDownload)" where
  [op_defs]: "OpenDownload i offset now openFails seekFails s =
     (if \<not> validFileTransferID i \<or> offset < 0 then (s, Inl ErrFileTransferNotFound)
      else case transfer_begin s of
        Inl e \<Rightarrow> (s, Inl e)
      | Inr s1 \<Rightarrow>
          (case map_of (fx_entries s1) i of
             None \<Rightarrow> (s, Inl ErrFileTransferNotFound)
           | Some e \<Rightarrow>
               if fe_upload e \<or> \<not> fe_complete e then (s, Inl ErrFileTransferNotFound)
               else if expired now e then
                 (remove_file (fe_path e) (s\<lparr>fx_entries := AList.delete i (fx_entries s)\<rparr>), Inl ErrFileTransferExpired)
               else if fe_busy e then (s, Inl ErrFileTransferBusy)
               else if offset > fr_Size (fe_reference e) then (s, Inl ErrFileTransferOffset)
               else
                 let s2 = s1\<lparr>fx_entries := AList.update i (e\<lparr>fe_busy := True\<rparr>) (fx_entries s1)\<rparr> in
                 case (if openFails \<or> seekFails then None else map_of (fx_files s2) (fe_path e)) of
                   None \<Rightarrow> (transfer_done (finishDownload i (fe_path e) False s2), Inl (TransferIO ''open file transfer''))
                 | Some content \<Rightarrow>
                     (s2, Inr \<lparr>fd_Reference = (fe_reference e)\<lparr>fr_LocalPath := []\<rparr>, fd_bytes = drop (nat offset) content,
                               fd_path = fe_path e, fd_store = True, fd_id = i, fd_consume = False\<rparr>)))"

text \<open>\<open>Close\<close> of a download, which \<open>once\<close> makes effective the first time only, and \<open>Commit\<close>.\<close>

definition DownloadClose :: "FileDownload \<Rightarrow> FileTransferStore \<Rightarrow> FileTransferStore" where
  [op_defs]: "DownloadClose d s =
     transfer_done (if fd_store d then finishDownload (fd_id d) (fd_path d) (fd_consume d) s
                    else if fd_consume d then remove_file (fd_path d) s else s)"

definition DownloadCommit :: "FileDownload \<Rightarrow> FileTransferStore \<Rightarrow> FileTransferStore" where
  "DownloadCommit d s = DownloadClose (d\<lparr>fd_consume := True\<rparr>) s"

section \<open>Closing the store\<close>

text \<open>\<open>Close\<close> first refuses new operations, then waits for the active ones, then removes what is left.\<close>

definition transfer_close_begin :: "FileTransferStore \<Rightarrow> FileTransferStore" where
  "transfer_close_begin s = s\<lparr>fx_closed := True\<rparr>"

definition transfer_close_finish :: "FileTransferStore \<Rightarrow> FileTransferStore option" where
  "transfer_close_finish s =
     (if fx_closed s \<and> fx_active s = 0 then
        Some (s\<lparr>fx_entries := [],
                fx_files := (if fx_ownsRoot s then [] else fold (\<lambda>(i, e). AList.delete (fe_path e)) (fx_entries s) (fx_files s))\<rparr>)
      else None)"

end
