(* ===== verification/FileTransferSafety.thy ===== *)
theory FileTransferSafety
  imports FileTransfer
begin

text \<open>
  What the file transfer store guarantees however its operations interleave: a file that is handed out is
  the one that was announced, byte for byte, no file outlives its entry, and closing the store leaves
  nothing behind. A system is a store with the calls in progress; identifiers are drawn at random from
  \<open>2 ^ 256\<close>, and the steps assume that none is drawn twice.

  The invariant is stated identifier by identifier (\<open>slot_inv\<close>): every operation changes one identifier's
  entry, file and calls, and pruning changes several independently.
\<close>

section \<open>Interleavings\<close>

text \<open>\<open>None\<close> in an append is one that has not written yet, \<open>Some w\<close> the outcome of writing.\<close>

record transfers =
  tx_store :: FileTransferStore
  tx_stagings :: "(string, staging) gomap"
  tx_appends :: "(string, appending \<times> int option option) gomap"
  tx_downloads :: "FileDownload list"
  tx_used :: "string list"

definition new_transfers :: "FileTransferStore \<Rightarrow> transfers" where
  "new_transfers s = \<lparr>tx_store = s, tx_stagings = [], tx_appends = [], tx_downloads = [], tx_used = []\<rparr>"

inductive transfer_step :: "(string \<Rightarrow> string) \<Rightarrow> (string \<Rightarrow> string option) \<Rightarrow> transfers \<Rightarrow> transfers \<Rightarrow> bool" for sha256 mime where
  stage_begins: "stage_begin mime ctx nilSource name mediaType now tries (tx_store S) = (s, Inr g) \<Longrightarrow> sg_id g \<notin> set (tx_used S) \<Longrightarrow>
    transfer_step sha256 mime S (S\<lparr>tx_store := s, tx_stagings := AList.update (sg_id g) g (tx_stagings S), tx_used := sg_id g # tx_used S\<rparr>)"
| stage_refused: "stage_begin mime ctx nilSource name mediaType now tries (tx_store S) = (s, Inl e) \<Longrightarrow>
    transfer_step sha256 mime S (S\<lparr>tx_store := s\<rparr>)"
| stage_finishes: "map_of (tx_stagings S) i = Some g \<Longrightarrow> stage_finish sha256 io now g (tx_store S) = (s, r) \<Longrightarrow>
    transfer_step sha256 mime S (S\<lparr>tx_store := s, tx_stagings := AList.delete i (tx_stagings S)\<rparr>)"
| upload_begins: "BeginUpload mime name mediaType sz checksum now tries closeFails (tx_store S) = (s, Inr status) \<Longrightarrow>
    fr_ID (us_Reference status) \<notin> set (tx_used S) \<Longrightarrow>
    transfer_step sha256 mime S (S\<lparr>tx_store := s, tx_used := fr_ID (us_Reference status) # tx_used S\<rparr>)"
| upload_refused: "BeginUpload mime name mediaType sz checksum now tries closeFails (tx_store S) = (s, Inl e) \<Longrightarrow>
    transfer_step sha256 mime S (S\<lparr>tx_store := s\<rparr>)"
| upload_status: "UploadStatus i now (tx_store S) = (s, r) \<Longrightarrow> transfer_step sha256 mime S (S\<lparr>tx_store := s\<rparr>)"
| append_begins: "append_begin ctx nilSource i offset now (tx_store S) = (s, Inr a) \<Longrightarrow>
    transfer_step sha256 mime S (S\<lparr>tx_store := s, tx_appends := AList.update i (a, None) (tx_appends S)\<rparr>)"
| append_refused: "append_begin ctx nilSource i offset now (tx_store S) = (s, Inl r) \<Longrightarrow> transfer_step sha256 mime S (S\<lparr>tx_store := s\<rparr>)"
| append_writes: "map_of (tx_appends S) i = Some (a, None) \<Longrightarrow> append_write io a (tx_store S) = (s, w) \<Longrightarrow>
    transfer_step sha256 mime S (S\<lparr>tx_store := s, tx_appends := AList.update i (a, Some w) (tx_appends S)\<rparr>)"
| append_finishes: "map_of (tx_appends S) i = Some (a, Some w) \<Longrightarrow> append_finish sha256 io now a w (tx_store S) = (s, r) \<Longrightarrow>
    transfer_step sha256 mime S (S\<lparr>tx_store := s, tx_appends := AList.delete i (tx_appends S)\<rparr>)"
| discards: "transfer_step sha256 mime S (S\<lparr>tx_store := discard i (tx_store S)\<rparr>)"
| takes: "Take i now openFails (tx_store S) = (s, Inr d) \<Longrightarrow>
    transfer_step sha256 mime S (S\<lparr>tx_store := s, tx_downloads := d # tx_downloads S\<rparr>)"
| take_refused: "Take i now openFails (tx_store S) = (s, Inl e) \<Longrightarrow> transfer_step sha256 mime S (S\<lparr>tx_store := s\<rparr>)"
| opens: "OpenDownload i offset now openFails seekFails (tx_store S) = (s, Inr d) \<Longrightarrow>
    transfer_step sha256 mime S (S\<lparr>tx_store := s, tx_downloads := d # tx_downloads S\<rparr>)"
| open_refused: "OpenDownload i offset now openFails seekFails (tx_store S) = (s, Inl e) \<Longrightarrow>
    transfer_step sha256 mime S (S\<lparr>tx_store := s\<rparr>)"
| closes: "tx_downloads S = ds @ d # ds' \<Longrightarrow>
    transfer_step sha256 mime S (S\<lparr>tx_store := DownloadClose d (tx_store S), tx_downloads := ds @ ds'\<rparr>)"
| commits: "tx_downloads S = ds @ d # ds' \<Longrightarrow>
    transfer_step sha256 mime S (S\<lparr>tx_store := DownloadCommit d (tx_store S), tx_downloads := ds @ ds'\<rparr>)"
| store_closes: "transfer_step sha256 mime S (S\<lparr>tx_store := transfer_close_begin (tx_store S)\<rparr>)"

inductive transfers_reach :: "(string \<Rightarrow> string) \<Rightarrow> (string \<Rightarrow> string option) \<Rightarrow> transfers \<Rightarrow> bool" for sha256 mime where
  start: "NewFileTransferStore options root = Inr s \<Longrightarrow> transfers_reach sha256 mime (new_transfers s)"
| step: "transfers_reach sha256 mime S \<Longrightarrow> transfer_step sha256 mime S S' \<Longrightarrow> transfers_reach sha256 mime S'"

section \<open>The invariant\<close>

definition slot_inv ::
  "(string \<Rightarrow> string) \<Rightarrow> int \<Rightarrow> string \<Rightarrow> string \<Rightarrow> fileTransferEntry option \<Rightarrow> string option \<Rightarrow> (appending \<times> int option option) option
    \<Rightarrow> bool \<Rightarrow> bool \<Rightarrow> bool \<Rightarrow> bool \<Rightarrow> bool" where
  "slot_inv sha256 maxBytes i path entry content pend staged taken opened used =
     ((entry \<noteq> None \<or> content \<noteq> None \<or> pend \<noteq> None \<or> staged \<or> taken \<or> opened \<longrightarrow> used) \<and>
      (staged \<longrightarrow> entry = None \<and> pend = None \<and> \<not> taken \<and> \<not> opened) \<and>
      (taken \<longrightarrow> entry = None \<and> pend = None) \<and>
      (content \<noteq> None \<longrightarrow> entry \<noteq> None \<or> staged \<or> taken) \<and>
      (case pend of None \<Rightarrow> True | Some (a, w) \<Rightarrow> ap_id a = i \<and> fe_path (ap_entry a) = path) \<and>
      (case entry of
         None \<Rightarrow> True
       | Some e \<Rightarrow>
           fe_path e = path \<and> fr_ID (fe_reference e) = i \<and> 0 \<le> fr_Size (fe_reference e) \<and> fr_Size (fe_reference e) \<le> maxBytes \<and>
           (opened \<longrightarrow> fe_complete e) \<and>
           (if fe_complete e then
              pend = None \<and> (\<exists>bs. content = Some bs \<and> int (length bs) = fr_Size (fe_reference e) \<and> sha256 bs = fr_SHA256 (fe_reference e))
            else
              fe_upload e \<and> 0 \<le> fe_offset e \<and> fe_offset e < fr_Size (fe_reference e) \<and> (fe_busy e \<longleftrightarrow> pend \<noteq> None) \<and>
              (\<exists>bs. content = Some bs \<and>
                 (case pend of
                    Some (a, w) \<Rightarrow>
                      ap_offset a = fe_offset e \<and> ap_entry a = e\<lparr>fe_busy := False\<rparr> \<and>
                      (case w of
                         Some (Some n) \<Rightarrow> 0 \<le> n \<and> n \<le> fr_Size (fe_reference e) - fe_offset e + 1 \<and> int (length bs) = fe_offset e + n
                       | _ \<Rightarrow> int (length bs) = fe_offset e)
                  | None \<Rightarrow> int (length bs) = fe_offset e)))))"

definition taken :: "transfers \<Rightarrow> string \<Rightarrow> bool" where
  "taken S i = (\<exists>d \<in> set (tx_downloads S). \<not> fd_store d \<and> fd_path d = file_path (tx_store S) i)"

definition opened :: "transfers \<Rightarrow> string \<Rightarrow> bool" where
  "opened S i = (\<exists>d \<in> set (tx_downloads S). fd_store d \<and> fd_id d = i)"

definition slot_ok :: "(string \<Rightarrow> string) \<Rightarrow> transfers \<Rightarrow> string \<Rightarrow> bool" where
  "slot_ok sha256 S i =
     slot_inv sha256 (fx_maxBytes (tx_store S)) i (file_path (tx_store S) i) (map_of (fx_entries (tx_store S)) i)
       (map_of (fx_files (tx_store S)) (file_path (tx_store S) i)) (map_of (tx_appends S) i)
       (map_of (tx_stagings S) i \<noteq> None) (taken S i) (opened S i) (i \<in> set (tx_used S))"

definition transfers_inv :: "(string \<Rightarrow> string) \<Rightarrow> transfers \<Rightarrow> bool" where
  "transfers_inv sha256 S =
     ((\<forall>i. slot_ok sha256 S i) \<and> 0 \<le> fx_maxBytes (tx_store S) \<and>
      gomap_wf (fx_entries (tx_store S)) \<and> gomap_wf (fx_files (tx_store S)) \<and> gomap_wf (tx_stagings S) \<and> gomap_wf (tx_appends S) \<and>
      (\<forall>p. map_of (fx_files (tx_store S)) p \<noteq> None \<longrightarrow> (\<exists>i. p = file_path (tx_store S) i)) \<and>
      (\<forall>i g. map_of (tx_stagings S) i = Some g \<longrightarrow> sg_id g = i \<and> sg_path g = file_path (tx_store S) i) \<and>
      (\<forall>d \<in> set (tx_downloads S). if fd_store d then fd_path d = file_path (tx_store S) (fd_id d)
         else fd_consume d \<and> (\<exists>i. fd_path d = file_path (tx_store S) i)) \<and>
      fx_active (tx_store S) = int (length (tx_stagings S) + length (tx_appends S) + length (tx_downloads S)))"

lemma opened_cong [simp]: "opened (S\<lparr>tx_store := s\<rparr>) = opened S" "opened (S\<lparr>tx_store := s, tx_stagings := g\<rparr>) = opened S"
  "opened (S\<lparr>tx_store := s, tx_appends := a\<rparr>) = opened S" "opened (S\<lparr>tx_store := s, tx_used := u\<rparr>) = opened S"
  "opened (S\<lparr>tx_store := s, tx_stagings := g, tx_used := u\<rparr>) = opened S"
  by (simp_all add: opened_def fun_eq_iff)

lemma file_path_inj [simp]: "file_path s i = file_path s j \<longleftrightarrow> i = j"
  by (simp add: file_path_def)

lemma file_path_root: "fx_root s' = fx_root s \<Longrightarrow> file_path s' i = file_path s i"
  by (simp add: file_path_def)

text \<open>A change of the store that concerns one identifier only.\<close>

definition only_at :: "string \<Rightarrow> FileTransferStore \<Rightarrow> FileTransferStore \<Rightarrow> bool" where
  "only_at i s s' =
     (fx_root s' = fx_root s \<and> fx_maxBytes s' = fx_maxBytes s \<and>
      (gomap_wf (fx_entries s) \<longrightarrow> gomap_wf (fx_entries s')) \<and> (gomap_wf (fx_files s) \<longrightarrow> gomap_wf (fx_files s')) \<and>
      (\<forall>j. j \<noteq> i \<longrightarrow> map_of (fx_entries s') j = map_of (fx_entries s) j) \<and>
      (\<forall>p. p \<noteq> file_path s i \<longrightarrow> map_of (fx_files s') p = map_of (fx_files s) p))"

lemma only_at_refl [simp]: "only_at i s s"
  by (simp add: only_at_def)

lemma only_at_trans:
  assumes a: "only_at i s s'" and b: "only_at i s' s''"
  shows "only_at i s s''"
proof -
  have "file_path s' i = file_path s i" using a by (simp add: only_at_def file_path_def)
  then show ?thesis using a b unfolding only_at_def by simp
qed

lemma only_at_entries: "only_at i s (s\<lparr>fx_entries := AList.update i e (fx_entries s)\<rparr>)" "only_at i s (s\<lparr>fx_entries := AList.delete i (fx_entries s)\<rparr>)"
  by (auto simp: only_at_def)

lemma only_at_files: "only_at i s (s\<lparr>fx_files := AList.update (file_path s i) c (fx_files s)\<rparr>)" "only_at i s (remove_file (file_path s i) s)"
  by (auto simp: only_at_def remove_file_def)

lemma only_at_active: "only_at i s s' \<Longrightarrow> only_at i s (s'\<lparr>fx_active := n\<rparr>)" "only_at i s s' \<Longrightarrow> only_at i (s\<lparr>fx_active := n\<rparr>) s'"
  by (auto simp: only_at_def file_path_def)

text \<open>
  The step from a system to the next one at identifier \<open>i\<close>: the calls of other identifiers stay, and what
  remains to be shown is the slot of \<open>i\<close> and the count of calls.
\<close>

lemma transfers_inv_at:
  assumes inv: "transfers_inv sha256 S" and only: "only_at i (tx_store S) (tx_store S')"
    and ok: "slot_ok sha256 S' i"
    and calls: "\<And>j. j \<noteq> i \<Longrightarrow> map_of (tx_appends S') j = map_of (tx_appends S) j" "\<And>j. j \<noteq> i \<Longrightarrow> map_of (tx_stagings S') j = map_of (tx_stagings S) j"
      "\<And>j. j \<noteq> i \<Longrightarrow> taken S' j = taken S j" "\<And>j. j \<noteq> i \<Longrightarrow> opened S' j = opened S j"
      "\<And>j. j \<noteq> i \<Longrightarrow> j \<in> set (tx_used S') \<longleftrightarrow> j \<in> set (tx_used S)"
    and wf: "gomap_wf (tx_stagings S')" "gomap_wf (tx_appends S')"
    and stag: "\<And>g. map_of (tx_stagings S') i = Some g \<Longrightarrow> sg_id g = i \<and> sg_path g = file_path (tx_store S) i"
    and downs: "\<And>d. d \<in> set (tx_downloads S') \<Longrightarrow> d \<in> set (tx_downloads S) \<or>
      (if fd_store d then fd_path d = file_path (tx_store S) (fd_id d) else fd_consume d \<and> (\<exists>i. fd_path d = file_path (tx_store S) i))"
    and active: "fx_active (tx_store S') = int (length (tx_stagings S') + length (tx_appends S') + length (tx_downloads S'))"
  shows "transfers_inv sha256 S'"
proof -
  have o: "fx_root (tx_store S') = fx_root (tx_store S)" "fx_maxBytes (tx_store S') = fx_maxBytes (tx_store S)"
    "gomap_wf (fx_entries (tx_store S'))" "gomap_wf (fx_files (tx_store S'))"
    "\<And>j. j \<noteq> i \<Longrightarrow> map_of (fx_entries (tx_store S')) j = map_of (fx_entries (tx_store S)) j"
    "\<And>p. p \<noteq> file_path (tx_store S) i \<Longrightarrow> map_of (fx_files (tx_store S')) p = map_of (fx_files (tx_store S)) p"
    using only inv by (auto simp: only_at_def transfers_inv_def)
  note path = file_path_root[OF o(1)]
  have old: "slot_ok sha256 S j" "map_of (tx_stagings S) j = Some g \<Longrightarrow> sg_id g = j \<and> sg_path g = file_path (tx_store S) j"
    "map_of (fx_files (tx_store S)) p \<noteq> None \<Longrightarrow> \<exists>k. p = file_path (tx_store S) k"
    "d \<in> set (tx_downloads S) \<Longrightarrow> if fd_store d then fd_path d = file_path (tx_store S) (fd_id d) else fd_consume d \<and> (\<exists>i. fd_path d = file_path (tx_store S) i)"
    "0 \<le> fx_maxBytes (tx_store S)" for j g p d
    using inv by (auto simp: transfers_inv_def)
  have "slot_ok sha256 S' j" for j
    using ok old(1)[of j] by (cases "j = i") (simp_all add: slot_ok_def path calls o(2,5,6))
  then have slots: "\<forall>j. slot_ok sha256 S' j" by blast
  have files: "\<exists>k. p = file_path (tx_store S) k" if "map_of (fx_files (tx_store S')) p \<noteq> None" for p
    using that old(3)[of p] o(6)[of p] by (cases "p = file_path (tx_store S) i") auto
  have stags: "sg_id g = j \<and> sg_path g = file_path (tx_store S) j" if "map_of (tx_stagings S') j = Some g" for j g
    using that stag old(2)[of j g] calls(2)[of j] by (cases "j = i") auto
  have downs': "\<forall>d \<in> set (tx_downloads S'). if fd_store d then fd_path d = file_path (tx_store S) (fd_id d) else fd_consume d \<and> (\<exists>i. fd_path d = file_path (tx_store S) i)"
    using downs old(4) by blast
  show ?thesis
    unfolding transfers_inv_def path
    by (intro conjI) (use slots files stags downs' old(5) wf active o(2-4) in simp_all)
qed


section \<open>Pruning\<close>

lemma map_of_filter_value:
  "gomap_wf m \<Longrightarrow> map_of (filter (\<lambda>(k, v). P v) m) k = (case map_of m k of Some v \<Rightarrow> if P v then Some v else None | None \<Rightarrow> None)"
proof (induction m)
  case (Cons kv m)
  then have "map_of m (fst kv) = None" by (auto simp: gomap_wf_def map_of_eq_None_iff)
  then show ?case using Cons by (cases kv) (auto simp: gomap_wf_def split: option.splits)
qed simp

lemma map_of_fold_delete: "map_of (fold (\<lambda>(i, e). AList.delete (f e)) es m) p = (if p \<in> (f \<circ> snd) ` set es then None else map_of m p)"
  by (induction es arbitrary: m) (auto simp: delete_conv' split: if_splits)

lemma gomap_wf_fold_delete: "gomap_wf m \<Longrightarrow> gomap_wf (fold (\<lambda>(i, e). AList.delete (f e)) es m)"
  by (induction es arbitrary: m) auto

lemma slot_inv_idle: "slot_inv sha256 mx i path (Some e) c a g t v u \<Longrightarrow> \<not> fe_busy e \<Longrightarrow> a = None"
  by (cases a) (auto simp: slot_inv_def split: if_splits)

lemma slot_inv_forgotten: "slot_inv sha256 mx i path e c None g t v u \<Longrightarrow> slot_inv sha256 mx i path None None None g t v u"
  by (auto simp: slot_inv_def)

lemma transfers_inv_pruned:
  assumes inv: "transfers_inv sha256 S"
  shows "transfers_inv sha256 (S\<lparr>tx_store := pruneExpired now (tx_store S)\<rparr>)" (is "transfers_inv sha256 ?S")
proof -
  let ?s = "tx_store S" and ?old = "\<lambda>e. \<not> fe_busy e \<and> expired now e"
  have wf: "gomap_wf (fx_entries ?s)" "gomap_wf (fx_files ?s)" and slot: "slot_ok sha256 S i" for i
    using inv by (simp_all add: transfers_inv_def)
  have paths: "fe_path e = file_path ?s i" if "map_of (fx_entries ?s) i = Some e" for i e
    using slot[of i] that by (simp add: slot_ok_def slot_inv_def)
  have E: "map_of (fx_entries (pruneExpired now ?s)) i =
      (case map_of (fx_entries ?s) i of Some e \<Rightarrow> if ?old e then None else Some e | None \<Rightarrow> None)" for i
    using map_of_filter_value[OF wf(1), of "\<lambda>e. \<not> ?old e"] by (simp add: pruneExpired_def Let_def split: option.split)
  have F: "map_of (fx_files (pruneExpired now ?s)) p =
      (if \<exists>i e. map_of (fx_entries ?s) i = Some e \<and> ?old e \<and> p = file_path ?s i then None else map_of (fx_files ?s) p)" for p
  proof -
    have "p \<in> (fe_path \<circ> snd) ` set (filter (\<lambda>(i, e). ?old e) (fx_entries ?s)) \<longleftrightarrow> (\<exists>i e. map_of (fx_entries ?s) i = Some e \<and> ?old e \<and> p = file_path ?s i)"
      using paths by (force simp: gomap_mem_iff[OF wf(1), symmetric])
    then show ?thesis by (simp add: pruneExpired_def Let_def map_of_fold_delete)
  qed
  have path: "file_path (pruneExpired now ?s) i = file_path ?s i" for i by (simp add: pruneExpired_def file_path_def Let_def)
  have keep: "fx_maxBytes (pruneExpired now ?s) = fx_maxBytes ?s" "fx_active (pruneExpired now ?s) = fx_active ?s"
    "gomap_wf (fx_entries (pruneExpired now ?s))" "gomap_wf (fx_files (pruneExpired now ?s))"
    using wf by (simp_all add: pruneExpired_def Let_def gomap_wf_fold_delete)
  have tk: "taken ?S i = taken S i" for i by (simp add: taken_def path)
  have "slot_ok sha256 ?S i" for i
  proof (cases "\<exists>e. map_of (fx_entries ?s) i = Some e \<and> ?old e")
    case True
    then obtain e where e: "map_of (fx_entries ?s) i = Some e" "?old e" by blast
    have "map_of (tx_appends S) i = None"
      using slot[of i] e unfolding slot_ok_def by (auto dest: slot_inv_idle)
    moreover have "map_of (fx_entries (pruneExpired now ?s)) i = None" "map_of (fx_files (pruneExpired now ?s)) (file_path ?s i) = None"
      using e E[of i] F[of "file_path ?s i"] by auto
    ultimately show ?thesis using slot[of i] unfolding slot_ok_def tk by (auto simp: path keep intro: slot_inv_forgotten)
  next
    case False
    then have "map_of (fx_entries (pruneExpired now ?s)) i = map_of (fx_entries ?s) i"
      "map_of (fx_files (pruneExpired now ?s)) (file_path ?s i) = map_of (fx_files ?s) (file_path ?s i)"
      using E[of i] F[of "file_path ?s i"] by (auto split: option.splits)
    then show ?thesis using slot[of i] unfolding slot_ok_def tk by (simp add: path keep)
  qed
  moreover have "\<exists>i. p = file_path ?s i" if "map_of (fx_files (pruneExpired now ?s)) p \<noteq> None" for p
    using that F[of p] inv by (auto simp: transfers_inv_def split: if_splits)
  ultimately show ?thesis using inv keep by (simp add: transfers_inv_def path)
qed


section \<open>Every operation\<close>

lemma inv_slot: "transfers_inv sha256 S \<Longrightarrow> slot_ok sha256 S i"
  by (simp add: transfers_inv_def)

lemma slot_entry:
  assumes "transfers_inv sha256 S" "map_of (fx_entries (tx_store S)) i = Some e"
  shows "fe_path e = file_path (tx_store S) i" "fr_ID (fe_reference e) = i"
  using inv_slot[OF assms(1), of i] assms(2) by (simp_all add: slot_ok_def slot_inv_def)

text \<open>An operation on one identifier that starts or ends no call: the slot alone is left to show.\<close>

lemma transfers_inv_store:
  assumes inv: "transfers_inv sha256 S" and only: "only_at i (tx_store S) s" and act: "fx_active s = fx_active (tx_store S)"
    and slot: "slot_inv sha256 (fx_maxBytes (tx_store S)) i (file_path (tx_store S) i) (map_of (fx_entries s) i)
       (map_of (fx_files s) (file_path (tx_store S) i)) (map_of (tx_appends S) i) (map_of (tx_stagings S) i \<noteq> None) (taken S i) (opened S i) (i \<in> set (tx_used S))"
  shows "transfers_inv sha256 (S\<lparr>tx_store := s\<rparr>)"
proof (rule transfers_inv_at[OF inv, of i])
  have root: "fx_root s = fx_root (tx_store S)" "fx_maxBytes s = fx_maxBytes (tx_store S)" using only by (simp_all add: only_at_def)
  show "slot_ok sha256 (S\<lparr>tx_store := s\<rparr>) i" using slot root by (simp add: slot_ok_def file_path_def taken_def)
  show "taken (S\<lparr>tx_store := s\<rparr>) j = taken S j" for j using root by (simp add: taken_def file_path_def)
qed (use inv only act in \<open>auto simp: transfers_inv_def\<close>)

lemma slot_inv_deleted: "slot_inv sha256 mx i path e c a g t v u \<Longrightarrow> slot_inv sha256 mx i path None None a g t v u"
  by (auto simp: slot_inv_def split: option.splits)

lemma only_at_deleted:
  assumes "fe_path e = file_path s i"
  shows "only_at i s (remove_file (fe_path e) (s\<lparr>fx_entries := AList.delete i (fx_entries s)\<rparr>))"
  using assms by (auto simp: only_at_def remove_file_def)

lemma transfers_inv_deleted:
  assumes inv: "transfers_inv sha256 S" and e: "map_of (fx_entries (tx_store S)) i = Some e"
  shows "transfers_inv sha256 (S\<lparr>tx_store := remove_file (fe_path e) ((tx_store S)\<lparr>fx_entries := AList.delete i (fx_entries (tx_store S))\<rparr>)\<rparr>)"
proof (rule transfers_inv_store[OF inv only_at_deleted])
  show path: "fe_path e = file_path (tx_store S) i" using slot_entry[OF inv e] by simp
  show "slot_inv sha256 (fx_maxBytes (tx_store S)) i (file_path (tx_store S) i)
     (map_of (fx_entries (remove_file (fe_path e) ((tx_store S)\<lparr>fx_entries := AList.delete i (fx_entries (tx_store S))\<rparr>))) i)
     (map_of (fx_files (remove_file (fe_path e) ((tx_store S)\<lparr>fx_entries := AList.delete i (fx_entries (tx_store S))\<rparr>))) (file_path (tx_store S) i))
     (map_of (tx_appends S) i) (map_of (tx_stagings S) i \<noteq> None) (taken S i) (opened S i) (i \<in> set (tx_used S))"
    using inv_slot[OF inv, of i] unfolding slot_ok_def by (auto simp: path remove_file_def dest: slot_inv_deleted)
qed (simp add: remove_file_def)

lemma inv_discard: "transfers_inv sha256 S \<Longrightarrow> transfers_inv sha256 (S\<lparr>tx_store := discard i (tx_store S)\<rparr>)"
  by (auto simp: discard_def split: option.split intro: transfers_inv_deleted)

lemma inv_status: "transfers_inv sha256 S \<Longrightarrow> UploadStatus i now (tx_store S) = (s, r) \<Longrightarrow> transfers_inv sha256 (S\<lparr>tx_store := s\<rparr>)"
  by (auto simp: UploadStatus_def split: if_splits option.splits intro: transfers_inv_deleted)

lemma inv_append_refused:
  "transfers_inv sha256 S \<Longrightarrow> append_begin ctx nilSource i offset now (tx_store S) = (s, Inl r) \<Longrightarrow> transfers_inv sha256 (S\<lparr>tx_store := s\<rparr>)"
  by (auto simp: append_begin_def transfer_begin_def split: if_splits option.splits intro: transfers_inv_deleted)


lemma length_delete_wf: "gomap_wf m \<Longrightarrow> map_of m k = Some v \<Longrightarrow> length m = Suc (length (AList.delete k m))"
proof (induction m)
  case (Cons kv m)
  show ?case
  proof (cases "fst kv = k")
    case True
    then have "k \<notin> fst ` set m" using Cons.prems by (auto simp: gomap_wf_def)
    then have "AList.delete k m = m" by (simp add: delete_id)
    then show ?thesis using True by (cases kv) (simp add: AList.delete_eq)
  next
    case False
    then show ?thesis using Cons by (cases kv) (auto simp: gomap_wf_def)
  qed
qed simp

lemma createFile_ok:
  "createFile n tries s = (s', Inr (i, path)) \<Longrightarrow>
   path = file_path s i \<and> map_of (fx_files s) path = None \<and> s' = s\<lparr>fx_files := AList.update path [] (fx_files s)\<rparr>"
proof (induction n arbitrary: tries)
  case (Suc n)
  show ?case
  proof (cases tries)
    case (Cons t rest)
    then show ?thesis using Suc.prems Suc.IH[of rest] by (cases t) (auto simp: Let_def split: if_split_asm)
  qed (use Suc.prems in simp)
qed simp

lemma createFile_fails: "createFile n tries s = (s', Inl e) \<Longrightarrow> s' = s"
proof (induction n arbitrary: tries)
  case (Suc n)
  show ?case
  proof (cases tries)
    case (Cons t rest)
    then show ?thesis using Suc.prems Suc.IH[of rest] by (cases t) (auto simp: Let_def split: if_split_asm)
  qed (use Suc.prems in simp)
qed simp

lemma createFile_id: "createFile n tries s = (s', Inr (i, path)) \<Longrightarrow> i \<in> hex_encode ` {bs. DrawnBytes bs \<in> set tries}"
proof (induction n arbitrary: tries)
  case (Suc n)
  show ?case
  proof (cases tries)
    case (Cons t rest)
    then show ?thesis using Suc.prems Suc.IH[of rest] by (cases t) (auto simp: Let_def split: if_split_asm)
  qed (use Suc.prems in simp)
qed simp

lemma prune_active: "pruneExpired now (s\<lparr>fx_active := n\<rparr>) = (pruneExpired now s)\<lparr>fx_active := n\<rparr>"
  by (simp add: pruneExpired_def Let_def)

lemma prune_keeps: "fx_root (pruneExpired now s) = fx_root s" "fx_maxBytes (pruneExpired now s) = fx_maxBytes s"
  "fx_active (pruneExpired now s) = fx_active s" "fx_closed (pruneExpired now s) = fx_closed s" "fx_ttl (pruneExpired now s) = fx_ttl s"
  by (simp_all add: pruneExpired_def Let_def)

lemma same_active: "fx_active t = n \<Longrightarrow> t\<lparr>fx_active := n\<rparr> = t" "fx_active t = n \<Longrightarrow> t\<lparr>fx_files := f, fx_active := n\<rparr> = t\<lparr>fx_files := f\<rparr>"
  "fx_active t = n \<Longrightarrow> t\<lparr>fx_files := f, fx_entries := e, fx_active := n\<rparr> = t\<lparr>fx_files := f, fx_entries := e\<rparr>"
  by (cases t; simp)+

lemma fresh_slot:
  assumes "slot_ok sha256 S i" "i \<notin> set (tx_used S)"
  shows "map_of (fx_entries (tx_store S)) i = None" "map_of (fx_files (tx_store S)) (file_path (tx_store S) i) = None"
    "map_of (tx_appends S) i = None" "map_of (tx_stagings S) i = None" "\<not> taken S i" "\<not> opened S i"
  using assms by (auto simp: slot_ok_def slot_inv_def)

lemma inv_stage_begins:
  assumes inv: "transfers_inv sha256 S"
    and st: "stage_begin mime ctx nilSource name mediaType now tries (tx_store S) = (s, Inr g)" and fresh: "sg_id g \<notin> set (tx_used S)"
  shows "transfers_inv sha256 (S\<lparr>tx_store := s, tx_stagings := AList.update (sg_id g) g (tx_stagings S), tx_used := sg_id g # tx_used S\<rparr>)"
    (is "transfers_inv sha256 ?S'")
proof -
  let ?p = "pruneExpired now (tx_store S)" and ?S = "S\<lparr>tx_store := pruneExpired now (tx_store S)\<rparr>" and ?i = "sg_id g"
  have path: "sg_path g = file_path ?p ?i"
    and s: "s = ?p\<lparr>fx_active := fx_active (tx_store S) + 1, fx_files := AList.update (file_path ?p ?i) [] (fx_files ?p)\<rparr>"
    using st by (auto simp: stage_begin_def transfer_begin_def prune_active file_path_def
        split: if_splits sum.splits prod.splits dest!: createFile_ok)
  have inv': "transfers_inv sha256 ?S" by (rule transfers_inv_pruned[OF inv])
  have slot: "slot_ok sha256 ?S ?i" using inv' by (rule inv_slot)
  note none = fresh_slot[OF slot, simplified, OF fresh]
  have tk: "taken ?S' j = taken ?S j" for j by (simp add: taken_def s file_path_def)
  show ?thesis
  proof (rule transfers_inv_at[OF inv', of ?i])
    show "only_at ?i (tx_store ?S) (tx_store ?S')" unfolding s by (auto simp: only_at_def)
    show "slot_ok sha256 ?S' ?i" using none unfolding slot_ok_def tk by (simp add: slot_inv_def s file_path_def)
    show "fx_active (tx_store ?S') = int (length (tx_stagings ?S') + length (tx_appends ?S') + length (tx_downloads ?S'))"
      using inv none by (simp add: s transfers_inv_def length_update_new)
  qed (use inv path tk in \<open>auto simp: transfers_inv_def\<close>)
qed

lemma inv_stage_refused:
  assumes inv: "transfers_inv sha256 S"
    and st: "stage_begin mime ctx nilSource name mediaType now tries (tx_store S) = (s, Inl e)"
  shows "transfers_inv sha256 (S\<lparr>tx_store := s\<rparr>)"
proof -
  have "s = tx_store S \<or> s = pruneExpired now (tx_store S)"
    using st by (auto simp: stage_begin_def transfer_begin_def transfer_done_def prune_active prune_keeps
        split: if_splits sum.splits prod.splits dest!: createFile_fails)
  then show ?thesis using inv transfers_inv_pruned[OF inv] by auto
qed


lemma slot_inv_unstaged: "slot_inv sha256 mx i path e c a True t v u \<Longrightarrow> slot_inv sha256 mx i path None None None False t v u"
  by (auto simp: slot_inv_def)

lemma slot_inv_complete:
  assumes u "fe_path e = path" "fr_ID (fe_reference e) = i" "fr_Size (fe_reference e) \<le> mx" "fe_complete e"
    "int (length bs) = fr_Size (fe_reference e)" "sha256 bs = fr_SHA256 (fe_reference e)"
  shows "slot_inv sha256 mx i path (Some e) (Some bs) None False False v u"
  using assms by (auto simp: slot_inv_def)

lemma inv_stage_finishes:
  assumes inv: "transfers_inv sha256 S" and g: "map_of (tx_stagings S) i = Some g"
    and st: "stage_finish sha256 io now g (tx_store S) = (s, r)"
  shows "transfers_inv sha256 (S\<lparr>tx_store := s, tx_stagings := AList.delete i (tx_stagings S)\<rparr>)" (is "transfers_inv sha256 ?S'")
  supply wrap64_id [simp del]
proof -
  let ?s = "tx_store S"
  let ?w = "take (nat (wrap64 (fx_maxBytes ?s + 1))) (cp_data io)"
  have gi: "sg_id g = i" "sg_path g = file_path ?s i" using inv g by (auto simp: transfers_inv_def)
  have slot: "slot_ok sha256 S i" using inv by (rule inv_slot)
  then have none: "map_of (fx_entries ?s) i = None" "map_of (tx_appends S) i = None" "\<not> taken S i" "i \<in> set (tx_used S)"
    using g by (auto simp: slot_ok_def slot_inv_def)
  have tk: "fx_root s = fx_root ?s \<Longrightarrow> taken ?S' j = taken S j" for j by (simp add: taken_def file_path_def)
  have act: "fx_active s = fx_active ?s - 1"
    using st by (auto simp: stage_finish_def Let_def transfer_done_def remove_file_def split: if_splits)
  have only: "only_at i ?s s"
    using st gi by (auto simp: stage_finish_def Let_def transfer_done_def remove_file_def only_at_def split: if_splits)
  then have root: "fx_root s = fx_root ?s" "fx_maxBytes s = fx_maxBytes ?s" by (simp_all add: only_at_def)
  have "slot_inv sha256 (fx_maxBytes ?s) i (file_path ?s i) (map_of (fx_entries s) i) (map_of (fx_files s) (file_path ?s i)) None False False (opened S i) True"
  proof (cases "\<exists>e. r = Inl e")
    case True
    then have "map_of (fx_entries s) i = None" "map_of (fx_files s) (file_path ?s i) = None"
      using st gi none by (auto simp: stage_finish_def Let_def transfer_done_def remove_file_def split: if_splits)
    then show ?thesis by (simp add: slot_inv_def)
  next
    case False
    then have "int (length ?w) \<le> fx_maxBytes ?s" and
      e: "map_of (fx_entries s) i = Some \<lparr>fe_reference = \<lparr>fr_ID = i, fr_Name = sg_name g, fr_MediaType = sg_mediaType g, fr_Size = int (length ?w),
          fr_SHA256 = sha256 ?w, fr_ExpiresAt = now + fx_ttl ?s, fr_LocalPath = (if fx_exposeLocalPath ?s then sg_path g else [])\<rparr>,
          fe_path = file_path ?s i, fe_offset = int (length ?w), fe_upload = False, fe_complete = True, fe_busy = False\<rparr>"
      and f: "map_of (fx_files s) (file_path ?s i) = Some ?w"
      using st gi by (auto simp: stage_finish_def Let_def transfer_done_def split: if_splits)
    then show ?thesis unfolding e f by (intro slot_inv_complete) simp_all
  qed
  then have "slot_ok sha256 ?S' i" using none unfolding slot_ok_def tk[OF root(1)] by (simp add: root file_path_def)
  moreover have "fx_active s = int (length (AList.delete i (tx_stagings S)) + length (tx_appends S) + length (tx_downloads S))"
    using act inv length_delete_wf[of "tx_stagings S" i g] g by (simp add: transfers_inv_def)
  ultimately show ?thesis
    using tk[OF root(1)] only inv by (intro transfers_inv_at[OF inv, of i]) (auto simp: transfers_inv_def)
qed

text \<open>What beginning an upload does to the store: nothing, pruning, or pruning and then a file that is removed again or kept.\<close>

lemma begin_upload_cases:
  assumes st: "BeginUpload mime name mediaType sz checksum now tries closeFails s0 = (s, r)"
  obtains (refused) e where "s = s0" "r = Inl e"
    | (pruned) e where "s = pruneExpired now s0" "r = Inl e"
    | (removed) i e where "map_of (fx_files (pruneExpired now s0)) (file_path s0 i) = None" "r = Inl e"
        "s = (pruneExpired now s0)\<lparr>fx_files := AList.delete (file_path s0 i) (AList.update (file_path s0 i) [] (fx_files (pruneExpired now s0)))\<rparr>"
    | (began) i entry where "map_of (fx_files (pruneExpired now s0)) (file_path s0 i) = None" "r = Inr (uploadStatus entry)"
        "fr_ID (fe_reference entry) = i" "fe_path entry = file_path s0 i" "fe_offset entry = 0" "fe_upload entry" "\<not> fe_busy entry"
        "fr_Size (fe_reference entry) = sz" "fe_complete entry = (sz = 0)" "0 \<le> sz" "sz \<le> fx_maxBytes s0"
        "fr_SHA256 (fe_reference entry) = checksum" "sz = 0 \<Longrightarrow> checksum = emptyFileSHA256"
        "s = (pruneExpired now s0)\<lparr>fx_files := AList.update (file_path s0 i) [] (fx_files (pruneExpired now s0)),
           fx_entries := AList.update i entry (fx_entries (pruneExpired now s0))\<rparr>"
        "\<not> fx_closed s0" "fr_ExpiresAt (fe_reference entry) = now + fx_ttl s0" "fr_LocalPath (fe_reference entry) = []"
        "validateFileTransferMetadata mime name mediaType = Inr (fr_Name (fe_reference entry), fr_MediaType (fe_reference entry))"
        "i \<in> hex_encode ` {bs. DrawnBytes bs \<in> set tries}"
proof -
  let ?p = "pruneExpired now s0"
  obtain s2 q where c: "createFile 4 tries (?p\<lparr>fx_active := fx_active s0 + 1\<rparr>) = (s2, q)" by fastforce
  show thesis
  proof (cases "validateFileTransferMetadata mime name mediaType")
    case (Inl e)
    then show thesis using st refused[of ErrFileTransferInvalid] by (simp add: BeginUpload_def)
  next
    case (Inr nm)
    obtain n m where nm: "nm = (n, m)" by fastforce
    note v = Inr[unfolded nm]
    show thesis
    proof (cases "sz < 0 \<or> \<not> validFileTransferChecksum checksum \<or> sz > fx_maxBytes s0 \<or> fx_closed s0")
      case True
      then show thesis using st v refused by (auto simp: BeginUpload_def transfer_begin_def split: if_splits)
    next
      case ok: False
      then have st': "(s, r) = (case (s2, q) of (s2, Inl e) \<Rightarrow> (transfer_done s2, Inl e)
          | (s2, Inr (i, path)) \<Rightarrow>
                   let give_up = transfer_done (remove_file path s2);
                       entry = \<lparr>fe_reference = \<lparr>fr_ID = i, fr_Name = n, fr_MediaType = m, fr_Size = sz, fr_SHA256 = checksum,
                                                fr_ExpiresAt = now + fx_ttl s0, fr_LocalPath = []\<rparr>,
                                fe_path = path, fe_offset = 0, fe_upload = True, fe_complete = (sz = 0), fe_busy = False\<rparr>
                   in if closeFails then (give_up, Inl (TransferIO ''close file upload''))
                      else if fe_complete entry \<and> checksum \<noteq> emptyFileSHA256 then (give_up, Inl ErrFileTransferChecksum)
                      else if fx_closed s2 then (give_up, Inl ErrFileTransferClosed)
                      else (transfer_done (s2\<lparr>fx_entries := AList.update i entry (fx_entries s2)\<rparr>), Inr (uploadStatus entry)))"
        using st v c by (simp add: BeginUpload_def transfer_begin_def prune_active)
      note actp = same_active[of ?p, OF prune_keeps(3)]
      show thesis
      proof (cases q)
        case (Inl e)
        then have "s2 = ?p\<lparr>fx_active := fx_active s0 + 1\<rparr>" using c createFile_fails by metis
        then show thesis using st' Inl actp pruned by (simp add: transfer_done_def)
      next
        case (Inr ip)
        obtain i path where ip: "ip = (i, path)" by fastforce
        have cr: "path = file_path s0 i" "map_of (fx_files ?p) (file_path s0 i) = None"
          "s2 = ?p\<lparr>fx_active := fx_active s0 + 1, fx_files := AList.update (file_path s0 i) [] (fx_files ?p)\<rparr>"
          "i \<in> hex_encode ` {bs. DrawnBytes bs \<in> set tries}"
          using createFile_ok[OF c[unfolded Inr ip]] createFile_id[OF c[unfolded Inr ip]] by (auto simp: file_path_def prune_keeps)
        show thesis
        proof (cases "\<exists>e. r = Inl e")
          case True
          then obtain e where "r = Inl e" by blast
          moreover have "s = ?p\<lparr>fx_files := AList.delete (file_path s0 i) (AList.update (file_path s0 i) [] (fx_files ?p))\<rparr>"
            using st' True unfolding Inr ip cr(3) by (auto simp: Let_def transfer_done_def remove_file_def cr(1) actp split: if_splits)
          ultimately show thesis using removed cr(2) by blast
        next
          case False
          then show thesis
            using st' ok unfolding Inr ip cr(3)
            by (intro began[of i "\<lparr>fe_reference = \<lparr>fr_ID = i, fr_Name = n, fr_MediaType = m, fr_Size = sz, fr_SHA256 = checksum,
                                                fr_ExpiresAt = now + fx_ttl s0, fr_LocalPath = []\<rparr>,
                                fe_path = path, fe_offset = 0, fe_upload = True, fe_complete = (sz = 0), fe_busy = False\<rparr>"])
               (use cr(4) v in \<open>auto simp: cr(1,2) Let_def transfer_done_def actp split: if_splits\<close>)
        qed
      qed
    qed
  qed
qed

lemma inv_upload_refused:
  assumes inv: "transfers_inv sha256 S"
    and st: "BeginUpload mime name mediaType sz checksum now tries closeFails (tx_store S) = (s, Inl e)"
  shows "transfers_inv sha256 (S\<lparr>tx_store := s\<rparr>)"
  using st
proof (cases rule: begin_upload_cases)
  case refused
  then show ?thesis using inv by simp
next
  case pruned
  then show ?thesis using transfers_inv_pruned[OF inv] by simp
next
  case (removed i)
  let ?p = "pruneExpired now (tx_store S)"
  have path: "file_path ?p j = file_path (tx_store S) j" for j by (simp add: file_path_def prune_keeps)
  note inv' = transfers_inv_pruned[OF inv, of now]
  have files: "map_of (fx_files s) (file_path (tx_store S) i) = map_of (fx_files ?p) (file_path (tx_store S) i)" and ents: "fx_entries s = fx_entries ?p"
    using removed by simp_all
  have "transfers_inv sha256 (S\<lparr>tx_store := ?p\<rparr>\<lparr>tx_store := s\<rparr>)"
  proof (rule transfers_inv_store[OF inv', of i])
    show "only_at i (tx_store (S\<lparr>tx_store := ?p\<rparr>)) s" unfolding removed(3) by (auto simp: only_at_def path)
    show "fx_active s = fx_active (tx_store (S\<lparr>tx_store := ?p\<rparr>))" unfolding removed(3) by simp
  qed (use inv_slot[OF inv', of i] in \<open>simp add: slot_ok_def files ents path\<close>)
  then show ?thesis by simp
next
  case began
  then show ?thesis by simp
qed

lemma inv_upload_begins:
  assumes inv: "transfers_inv sha256 S" and empty: "sha256 [] = emptyFileSHA256"
    and st: "BeginUpload mime name mediaType sz checksum now tries closeFails (tx_store S) = (s, Inr status)"
    and fresh: "fr_ID (us_Reference status) \<notin> set (tx_used S)"
  shows "transfers_inv sha256 (S\<lparr>tx_store := s, tx_used := fr_ID (us_Reference status) # tx_used S\<rparr>)" (is "transfers_inv sha256 ?S'")
  using st
proof (cases rule: begin_upload_cases)
  case (began i entry)
  let ?p = "pruneExpired now (tx_store S)" and ?S = "S\<lparr>tx_store := pruneExpired now (tx_store S)\<rparr>"
  have path: "file_path ?p j = file_path (tx_store S) j" "file_path s j = file_path (tx_store S) j" for j
    using began(14) by (simp_all add: file_path_def prune_keeps)
  have i: "fr_ID (us_Reference status) = i" using began(2,3) by (simp add: uploadStatus_def)
  note inv' = transfers_inv_pruned[OF inv, of now]
  note none = fresh_slot[OF inv_slot[OF inv', of i], simplified, OF fresh[unfolded i]]
  have tk: "taken ?S' j = taken ?S j" for j by (simp add: taken_def path)
  show ?thesis
  proof (rule transfers_inv_at[OF inv', of i])
    show "only_at i (tx_store ?S) (tx_store ?S')" unfolding began(14) by (auto simp: only_at_def path)
    have mx: "fx_maxBytes s = fx_maxBytes (tx_store S)" using began(14) by (simp add: prune_keeps)
    have upd: "map_of (fx_entries s) i = Some entry" "map_of (fx_files s) (file_path (tx_store S) i) = Some []" using began(14) by simp_all
    show "slot_ok sha256 ?S' i"
      using none began(3-13) unfolding slot_ok_def tk
      by (cases "sz = 0") (simp_all add: slot_inv_def path mx upd i empty)
    show "fx_active (tx_store ?S') = int (length (tx_stagings ?S') + length (tx_appends ?S') + length (tx_downloads ?S'))"
      using inv by (simp add: began(14) transfers_inv_def prune_keeps)
  qed (use inv tk i none in \<open>auto simp: transfers_inv_def\<close>)
qed simp_all

subsection \<open>Appending\<close>

lemma append_begin_ok:
  assumes "append_begin ctx nilSource i offset now s0 = (s, Inr a)"
  obtains e where "map_of (fx_entries s0) i = Some e" "fe_upload e" "\<not> fe_busy e" "\<not> fe_complete e" "offset = fe_offset e"
    "s = s0\<lparr>fx_active := fx_active s0 + 1, fx_entries := AList.update i (e\<lparr>fe_busy := True\<rparr>) (fx_entries s0)\<rparr>"
    "a = \<lparr>ap_id = i, ap_entry = e, ap_offset = offset\<rparr>"
  using assms by (auto simp: append_begin_def transfer_begin_def split: if_splits option.splits)

lemma inv_append_begins:
  assumes inv: "transfers_inv sha256 S" and st: "append_begin ctx nilSource i offset now (tx_store S) = (s, Inr a)"
  shows "transfers_inv sha256 (S\<lparr>tx_store := s, tx_appends := AList.update i (a, None) (tx_appends S)\<rparr>)" (is "transfers_inv sha256 ?S'")
  using st
proof (cases rule: append_begin_ok)
  case (1 e)
  have slot: "slot_ok sha256 S i" using inv by (rule inv_slot)
  have none: "map_of (tx_appends S) i = None" using slot 1(1,3) unfolding slot_ok_def by (auto dest: slot_inv_idle)
  have tk: "taken ?S' j = taken S j" for j by (simp add: taken_def file_path_def 1(6))
  show ?thesis
  proof (rule transfers_inv_at[OF inv, of i])
    show "only_at i (tx_store S) (tx_store ?S')" unfolding 1(6) by (auto simp: only_at_def)
    show "slot_ok sha256 ?S' i"
      using slot none 1(1-5) unfolding slot_ok_def tk by (auto simp: slot_inv_def file_path_def 1(6,7))
    show "fx_active (tx_store ?S') = int (length (tx_stagings ?S') + length (tx_appends ?S') + length (tx_downloads ?S'))"
      using inv none by (simp add: 1(6) transfers_inv_def length_update_new)
  qed (use inv tk in \<open>auto simp: transfers_inv_def\<close>)
qed

lemma write_at_end: "off = length content \<Longrightarrow> write_at off bs content = content @ bs"
  by (simp add: write_at_def)

lemma wrap64_le: "0 \<le> x \<Longrightarrow> nat (wrap64 x) \<le> nat x"
  using wrap64_range(2)[of x] by (cases "x < 2 ^ 63") auto

lemma slot_inv_written:
  assumes old: "slot_inv sha256 mx i path e (Some content) (Some (a, None)) g t v u"
    and n: "length bs \<le> nat (wrap64 (fr_Size (fe_reference (ap_entry a)) - ap_offset a + 1))"
  shows "slot_inv sha256 mx i path e (Some (write_at (nat (ap_offset a)) bs content)) (Some (a, Some (Some (int (length bs))))) g t v u"
proof (cases e)
  case (Some x)
  then have "int (length content) = ap_offset a" "0 \<le> ap_offset a" "ap_offset a < fr_Size (fe_reference (ap_entry a))"
    using old by (auto simp: slot_inv_def split: if_splits)
  then have "write_at (nat (ap_offset a)) bs content = content @ bs" "int (length bs) \<le> fr_Size (fe_reference (ap_entry a)) - ap_offset a + 1"
    using n wrap64_le[of "fr_Size (fe_reference (ap_entry a)) - ap_offset a + 1"] by (simp_all add: write_at_end)
  then show ?thesis using old Some by (auto simp: slot_inv_def split: if_splits)
qed (use old in \<open>auto simp: slot_inv_def\<close>)

lemma inv_append_writes:
  assumes inv: "transfers_inv sha256 S" and a: "map_of (tx_appends S) i = Some (a, None)" and st: "append_write io a (tx_store S) = (s, w)"
  shows "transfers_inv sha256 (S\<lparr>tx_store := s, tx_appends := AList.update i (a, Some w) (tx_appends S)\<rparr>)" (is "transfers_inv sha256 ?S'")
proof -
  let ?s = "tx_store S"
  have slot: "slot_ok sha256 S i" using inv by (rule inv_slot)
  then have path: "fe_path (ap_entry a) = file_path ?s i" using a by (simp add: slot_ok_def slot_inv_def)
  have only: "only_at i ?s s" and act: "fx_active s = fx_active ?s" and ents: "fx_entries s = fx_entries ?s"
    using st by (auto simp: append_write_def path only_at_def Let_def split: option.splits if_splits)
  then have root: "fx_root s = fx_root ?s" "fx_maxBytes s = fx_maxBytes ?s" by (simp_all add: only_at_def)
  have tk: "taken ?S' j = taken S j" for j by (simp add: taken_def file_path_def root)
  have "slot_inv sha256 (fx_maxBytes ?s) i (file_path ?s i) (map_of (fx_entries ?s) i) (map_of (fx_files s) (file_path ?s i)) (Some (a, Some w))
      (map_of (tx_stagings S) i \<noteq> None) (taken S i) (opened S i) (i \<in> set (tx_used S))"
  proof (cases w)
    case None
    then have "fx_files s = fx_files ?s" using st by (auto simp: append_write_def Let_def split: option.splits if_splits)
    then show ?thesis using slot a None unfolding slot_ok_def by (auto simp: slot_inv_def split: option.splits if_splits)
  next
    case (Some n)
    then obtain content where c: "map_of (fx_files ?s) (file_path ?s i) = Some content"
      and n: "n = int (length (take (nat (wrap64 (fr_Size (fe_reference (ap_entry a)) - ap_offset a + 1))) (cp_data (ai_copy io))))"
      and f: "map_of (fx_files s) (file_path ?s i) =
        Some (write_at (nat (ap_offset a)) (take (nat (wrap64 (fr_Size (fe_reference (ap_entry a)) - ap_offset a + 1))) (cp_data (ai_copy io))) content)"
      using st by (auto simp: append_write_def path Let_def split: option.splits if_splits)
    show ?thesis unfolding Some n f
      by (rule slot_inv_written) (use slot a c in \<open>simp_all add: slot_ok_def\<close>)
  qed
  then have "slot_ok sha256 ?S' i" unfolding slot_ok_def tk by (simp add: root file_path_def ents)
  moreover have "length (AList.update i (a, Some w) (tx_appends S)) = length (tx_appends S)"
    using a by (simp add: length_update_old)
  ultimately show ?thesis
    using tk only inv act by (intro transfers_inv_at[OF inv, of i]) (auto simp: transfers_inv_def)
qed

lemma slot_inv_released:
  assumes old: "slot_inv sha256 mx i path entry content (Some (a, Some w)) g t v u"
    and off: "case w of None \<Rightarrow> off = fe_offset (ap_entry a)
      | Some n \<Rightarrow> off = ap_offset a + n \<and> off \<le> fr_Size (fe_reference (ap_entry a)) \<and>
          (off = fr_Size (fe_reference (ap_entry a)) \<longrightarrow> map_option sha256 content = Some (fr_SHA256 (fe_reference (ap_entry a))))"
  shows "slot_inv sha256 mx i path (map_option (\<lambda>e. e\<lparr>fe_offset := off, fe_complete := (off = fr_Size (fe_reference e)), fe_busy := False,
      fe_reference := (fe_reference e)\<lparr>fr_ExpiresAt := x\<rparr>\<rparr>) entry) content None g t v u"
proof (cases entry)
  case (Some e)
  then have e: "\<not> fe_complete e" "\<not> v" "ap_offset a = fe_offset e" "ap_entry a = e\<lparr>fe_busy := False\<rparr>" "0 \<le> fe_offset e"
    "fe_offset e < fr_Size (fe_reference e)" "fe_upload e" "u" "\<not> g" "\<not> t" "fe_path e = path" "fr_ID (fe_reference e) = i" "fr_Size (fe_reference e) \<le> mx"
    using old by (auto simp: slot_inv_def split: if_splits)
  obtain bs where bs: "content = Some bs" "case w of Some n \<Rightarrow> 0 \<le> n \<and> int (length bs) = fe_offset e + n | None \<Rightarrow> int (length bs) = fe_offset e"
    using old Some e(1) by (cases w) (auto simp: slot_inv_def)
  then have len: "int (length bs) = off" and le: "0 \<le> off" "off \<le> fr_Size (fe_reference e)"
    and sha: "off = fr_Size (fe_reference e) \<Longrightarrow> sha256 bs = fr_SHA256 (fe_reference e)"
    using off e(3-6) by (auto split: option.splits)
  show ?thesis using e(2,5-13) bs(1) len le sha by (auto simp: slot_inv_def Some)
qed (use old in \<open>auto simp: slot_inv_def\<close>)

lemma slot_inv_dropped: "slot_inv sha256 mx i path e c a g t v u \<Longrightarrow> slot_inv sha256 mx i path None None None g t v u"
  by (auto simp: slot_inv_def)

lemma releaseUpload_keeps:
  assumes path: "\<And>e. map_of (fx_entries s) i = Some e \<Longrightarrow> fe_path e = path" and p: "path = file_path s i" and s': "s' = fst (releaseUpload i path off b now s)"
  shows "only_at i s s'" "fx_active s' = fx_active s" "fx_root s' = fx_root s"
    "b \<Longrightarrow> map_of (fx_entries s') i = None" "b \<Longrightarrow> map_of (fx_files s') path = None"
    "\<not> b \<Longrightarrow> map_of (fx_entries s') i = map_option (\<lambda>e. e\<lparr>fe_offset := off, fe_complete := (off = fr_Size (fe_reference e)), fe_busy := False,
      fe_reference := (fe_reference e)\<lparr>fr_ExpiresAt := now + fx_ttl s\<rparr>\<rparr>) (map_of (fx_entries s) i)"
    "\<not> b \<Longrightarrow> fx_files s' = fx_files s"
  using path unfolding s' p
  by (auto simp: releaseUpload_def Let_def remove_file_def only_at_def split: option.splits)

text \<open>An append that finishes either drops its upload or moves its offset; which one, and when.\<close>

lemma append_finish_cases:
  assumes st: "append_finish sha256 io now a w s0 = (s, r)"
  obtains (dropped) off where "s = transfer_done (fst (releaseUpload (ap_id a) (fe_path (ap_entry a)) off True now s0))"
    | (kept) off where "s = transfer_done (fst (releaseUpload (ap_id a) (fe_path (ap_entry a)) off False now s0))"
        "case w of None \<Rightarrow> off = fe_offset (ap_entry a)
          | Some n \<Rightarrow> off = ap_offset a + n \<and> off \<le> fr_Size (fe_reference (ap_entry a)) \<and>
             (off = fr_Size (fe_reference (ap_entry a)) \<longrightarrow>
              map_option sha256 (map_of (fx_files s0) (fe_path (ap_entry a))) = Some (fr_SHA256 (fe_reference (ap_entry a))))"
proof (cases w)
  case None
  then show thesis using st kept[of "fe_offset (ap_entry a)"] by (simp add: append_finish_def Let_def)
next
  case (Some n)
  let ?keep = "fst (releaseUpload (ap_id a) (fe_path (ap_entry a)) (ap_offset a + n) False now s0)"
  let ?drop = "fst (releaseUpload (ap_id a) (fe_path (ap_entry a)) (ap_offset a + n) True now s0)"
  have "s = transfer_done ?drop \<or> s = transfer_done ?keep \<and> n \<le> fr_Size (fe_reference (ap_entry a)) - ap_offset a \<and>
      (ap_offset a + n = fr_Size (fe_reference (ap_entry a)) \<longrightarrow>
       fileSHA256 sha256 (ai_verifyFails io) (fe_path (ap_entry a)) s0 = Some (fr_SHA256 (fe_reference (ap_entry a))))"
    using st Some by (auto simp: append_finish_def Let_def split: if_splits prod.splits)
  then show thesis using dropped kept[of "ap_offset a + n"] Some by (auto simp: fileSHA256_def split: if_splits)
qed

lemma inv_append_finishes:
  assumes inv: "transfers_inv sha256 S" and a: "map_of (tx_appends S) i = Some (a, Some w)"
    and st: "append_finish sha256 io now a w (tx_store S) = (s, r)"
  shows "transfers_inv sha256 (S\<lparr>tx_store := s, tx_appends := AList.delete i (tx_appends S)\<rparr>)" (is "transfers_inv sha256 ?S'")
proof -
  let ?s = "tx_store S"
  have slot: "slot_ok sha256 S i" using inv by (rule inv_slot)
  then have path: "fe_path (ap_entry a) = file_path ?s i" "ap_id a = i" using a by (simp_all add: slot_ok_def slot_inv_def)
  note keeps = releaseUpload_keeps[OF slot_entry(1)[OF inv] refl refl]
  have "\<exists>s'. s = transfer_done s' \<and> only_at i ?s s' \<and> fx_active s' = fx_active ?s \<and>
      slot_inv sha256 (fx_maxBytes ?s) i (file_path ?s i) (map_of (fx_entries s') i) (map_of (fx_files s') (file_path ?s i)) None
        (map_of (tx_stagings S) i \<noteq> None) (taken S i) (opened S i) (i \<in> set (tx_used S))"
    using st
  proof (cases rule: append_finish_cases)
    case (dropped off)
    note k = keeps[where i = i and off = off and b = True and now = now]
    show ?thesis
      by (rule exI[of _ "fst (releaseUpload i (file_path ?s i) off True now ?s)"])
        (use dropped k(1,2,4,5) slot in \<open>simp add: path slot_ok_def slot_inv_dropped\<close>)
  next
    case (kept off)
    note k = keeps[where i = i and off = off and b = False and now = now]
    note rel = slot_inv_released[OF slot[unfolded slot_ok_def a] kept(2)[unfolded path], of "now + fx_ttl ?s"]
    show ?thesis
      by (rule exI[of _ "fst (releaseUpload i (file_path ?s i) off False now ?s)"])
        (use kept(1) k(1,2,6,7) rel in \<open>simp add: path\<close>)
  qed
  then obtain s' where s': "s = transfer_done s'" "only_at i ?s s'" "fx_active s' = fx_active ?s" and
    ok: "slot_inv sha256 (fx_maxBytes ?s) i (file_path ?s i) (map_of (fx_entries s') i) (map_of (fx_files s') (file_path ?s i)) None
        (map_of (tx_stagings S) i \<noteq> None) (taken S i) (opened S i) (i \<in> set (tx_used S))" by blast
  have only: "only_at i ?s s" using s' by (simp add: transfer_done_def only_at_active)
  then have root: "fx_root s = fx_root ?s" "fx_maxBytes s = fx_maxBytes ?s" by (simp_all add: only_at_def)
  have tk: "taken ?S' j = taken S j" for j by (simp add: taken_def file_path_def root)
  have "fx_entries s = fx_entries s'" "fx_files s = fx_files s'" using s'(1) by (simp_all add: transfer_done_def)
  then have "slot_ok sha256 ?S' i" using ok unfolding slot_ok_def tk by (simp add: root file_path_def)
  moreover have "fx_active s = int (length (tx_stagings S) + length (AList.delete i (tx_appends S)) + length (tx_downloads S))"
    using inv s' length_delete_wf[of "tx_appends S" i] a by (simp add: transfers_inv_def transfer_done_def)
  ultimately show ?thesis
    using tk only inv by (intro transfers_inv_at[OF inv, of i]) (auto simp: transfers_inv_def)
qed

subsection \<open>Downloads\<close>

lemma taken_Cons [simp]:
  "taken (S\<lparr>tx_store := s, tx_downloads := d # ds\<rparr>) i =
     (\<not> fd_store d \<and> fd_path d = file_path s i \<or> taken (S\<lparr>tx_store := s, tx_downloads := ds\<rparr>) i)"
  by (auto simp: taken_def)

lemma opened_Cons [simp]:
  "opened (S\<lparr>tx_store := s, tx_downloads := d # ds\<rparr>) i = (fd_store d \<and> fd_id d = i \<or> opened (S\<lparr>tx_store := s, tx_downloads := ds\<rparr>) i)"
  by (auto simp: opened_def)

lemma downloads_same [simp]: "S\<lparr>tx_store := s, tx_downloads := tx_downloads S\<rparr> = S\<lparr>tx_store := s\<rparr>"
  by (cases S) simp

lemma taken_store: "fx_root s = fx_root (tx_store S) \<Longrightarrow> taken (S\<lparr>tx_store := s\<rparr>) i = taken S i"
  by (simp add: taken_def file_path_def)

lemma Take_ok:
  assumes "Take i now openFails s0 = (s, Inr d)"
  obtains e content where "map_of (fx_entries s0) i = Some e" "fe_complete e" "\<not> fe_busy e" "\<not> expired now e" "map_of (fx_files s0) (fe_path e) = Some content"
    "s = s0\<lparr>fx_active := fx_active s0 + 1, fx_entries := AList.delete i (fx_entries s0)\<rparr>"
    "d = \<lparr>fd_Reference = (fe_reference e)\<lparr>fr_LocalPath := []\<rparr>, fd_bytes = content, fd_path = fe_path e, fd_store = False, fd_id = [], fd_consume = True\<rparr>"
  using assms by (auto simp: Take_def transfer_begin_def Let_def split: if_splits option.splits)

lemma Take_fails:
  assumes "Take i now openFails s0 = (s, Inl x)"
  shows "s = s0 \<or> (\<exists>e. map_of (fx_entries s0) i = Some e \<and> s = remove_file (fe_path e) (s0\<lparr>fx_entries := AList.delete i (fx_entries s0)\<rparr>))"
proof -
  have "transfer_done (remove_file p (t\<lparr>fx_active := fx_active t + 1, fx_entries := y\<rparr>)) = remove_file p (t\<lparr>fx_entries := y\<rparr>)" for p y and t :: FileTransferStore
    by (cases t) (simp add: transfer_done_def remove_file_def)
  then show ?thesis using assms by (auto simp: Take_def transfer_begin_def Let_def split: if_splits option.splits)
qed

lemma OpenDownload_ok:
  assumes "OpenDownload i offset now openFails seekFails s0 = (s, Inr d)"
  obtains e content where "map_of (fx_entries s0) i = Some e" "fe_complete e" "\<not> fe_upload e" "\<not> fe_busy e" "map_of (fx_files s0) (fe_path e) = Some content"
    "0 \<le> offset" "offset \<le> fr_Size (fe_reference e)"
    "s = s0\<lparr>fx_active := fx_active s0 + 1, fx_entries := AList.update i (e\<lparr>fe_busy := True\<rparr>) (fx_entries s0)\<rparr>"
    "d = \<lparr>fd_Reference = (fe_reference e)\<lparr>fr_LocalPath := []\<rparr>, fd_bytes = drop (nat offset) content, fd_path = fe_path e, fd_store = True,
          fd_id = i, fd_consume = False\<rparr>"
  using assms by (auto simp: OpenDownload_def transfer_begin_def Let_def split: if_splits option.splits)

lemma OpenDownload_fails:
  assumes "OpenDownload i offset now openFails seekFails s0 = (s, Inl x)"
  shows "s = s0 \<or> (\<exists>e. map_of (fx_entries s0) i = Some e \<and> s = remove_file (fe_path e) (s0\<lparr>fx_entries := AList.delete i (fx_entries s0)\<rparr>)) \<or>
    (\<exists>e. map_of (fx_entries s0) i = Some e \<and> \<not> fe_busy e \<and>
       s = s0\<lparr>fx_entries := AList.update i e (fx_entries s0)\<rparr>)"
proof -
  have undo: "transfer_done (t\<lparr>fx_active := fx_active t + 1, fx_entries := y\<rparr>) = t\<lparr>fx_entries := y\<rparr>" for y and t :: FileTransferStore
    by (cases t) (simp add: transfer_done_def)
  have idle: "e\<lparr>fe_busy := False\<rparr> = e" if "\<not> fe_busy e" for e :: fileTransferEntry using that by (cases e) simp
  show ?thesis
    using assms by (auto simp: OpenDownload_def finishDownload_def transfer_begin_def Let_def undo idle split: if_splits option.splits)
qed

lemma inv_takes:
  assumes inv: "transfers_inv sha256 S" and st: "Take i now openFails (tx_store S) = (s, Inr d)"
  shows "transfers_inv sha256 (S\<lparr>tx_store := s, tx_downloads := d # tx_downloads S\<rparr>)" (is "transfers_inv sha256 ?S'")
  using st
proof (cases rule: Take_ok)
  case (1 e content)
  have slot: "slot_ok sha256 S i" using inv by (rule inv_slot)
  have path: "fe_path e = file_path (tx_store S) i" using slot_entry[OF inv 1(1)] by simp
  have tk: "taken ?S' j = (j = i \<or> taken S j)" "opened ?S' j = opened S j" for j by (auto simp: 1(6,7) taken_store path file_path_def)
  show ?thesis
  proof (rule transfers_inv_at[OF inv, of i])
    show "only_at i (tx_store S) (tx_store ?S')" unfolding 1(6) by (auto simp: only_at_def)
    show "slot_ok sha256 ?S' i"
      using slot 1(1,2,5) unfolding slot_ok_def tk by (auto simp: slot_inv_def file_path_def 1(6) path)
    show "fx_active (tx_store ?S') = int (length (tx_stagings ?S') + length (tx_appends ?S') + length (tx_downloads ?S'))"
      using inv by (simp add: 1(6) transfers_inv_def)
  qed (use inv tk in \<open>auto simp: transfers_inv_def 1(7) path\<close>)
qed

lemma inv_take_refused: "transfers_inv sha256 S \<Longrightarrow> Take i now openFails (tx_store S) = (s, Inl e) \<Longrightarrow> transfers_inv sha256 (S\<lparr>tx_store := s\<rparr>)"
  by (auto dest!: Take_fails intro: transfers_inv_deleted)

lemma inv_opens:
  assumes inv: "transfers_inv sha256 S" and st: "OpenDownload i offset now openFails seekFails (tx_store S) = (s, Inr d)"
  shows "transfers_inv sha256 (S\<lparr>tx_store := s, tx_downloads := d # tx_downloads S\<rparr>)" (is "transfers_inv sha256 ?S'")
  using st
proof (cases rule: OpenDownload_ok)
  case (1 e content)
  have slot: "slot_ok sha256 S i" using inv by (rule inv_slot)
  have path: "fe_path e = file_path (tx_store S) i" using slot_entry[OF inv 1(1)] by simp
  have tk: "taken ?S' j = taken S j" "opened ?S' j = (j = i \<or> opened S j)" for j by (auto simp: 1(8,9) taken_store path)
  show ?thesis
  proof (rule transfers_inv_at[OF inv, of i])
    show "only_at i (tx_store S) (tx_store ?S')" unfolding 1(8) by (auto simp: only_at_def)
    show "slot_ok sha256 ?S' i"
      using slot 1(1,2) unfolding slot_ok_def tk by (auto simp: slot_inv_def file_path_def 1(8))
    show "fx_active (tx_store ?S') = int (length (tx_stagings ?S') + length (tx_appends ?S') + length (tx_downloads ?S'))"
      using inv by (simp add: 1(8) transfers_inv_def)
  qed (use inv tk in \<open>auto simp: transfers_inv_def 1(9) path\<close>)
qed

lemma inv_open_refused:
  assumes inv: "transfers_inv sha256 S" and st: "OpenDownload i offset now openFails seekFails (tx_store S) = (s, Inl x)"
  shows "transfers_inv sha256 (S\<lparr>tx_store := s\<rparr>)"
  using OpenDownload_fails[OF st]
proof (elim disjE exE conjE)
  fix e
  assume e: "map_of (fx_entries (tx_store S)) i = Some e"
    and s: "s = (tx_store S)\<lparr>fx_entries := AList.update i e (fx_entries (tx_store S))\<rparr>"
  show ?thesis
    by (rule transfers_inv_store[OF inv, of i]) (use inv_slot[OF inv, of i] e in \<open>auto simp: only_at_def s slot_ok_def\<close>)
qed (use inv in \<open>auto intro: transfers_inv_deleted\<close>)

text \<open>Closing a download: what it does to its identifier's entry and file.\<close>

lemma slot_inv_closed:
  assumes "slot_inv sha256 mx i path e c a g t v u" "t' \<Longrightarrow> t" "v' \<Longrightarrow> v"
  shows "slot_inv sha256 mx i path None None a g t' v' u" "t' = t \<Longrightarrow> slot_inv sha256 mx i path e c a g t' v' u"
    "\<lbrakk>e = Some x; v; t' = t\<rbrakk> \<Longrightarrow> slot_inv sha256 mx i path (Some (x\<lparr>fe_busy := b\<rparr>)) c a g t' v' u"
    "e = None \<Longrightarrow> slot_inv sha256 mx i path None None a g t' v' u"
  using assms by (auto simp: slot_inv_def split: option.splits if_splits)

lemma finishDownload_at:
  assumes "\<And>e. map_of (fx_entries s) i = Some e \<Longrightarrow> fe_path e = file_path s i"
  shows "only_at i s (finishDownload i (file_path s i) c s)" "fx_active (finishDownload i (file_path s i) c s) = fx_active s"
    "map_of (fx_entries (finishDownload i (file_path s i) c s)) i =
       (if c then None else map_option (\<lambda>e. e\<lparr>fe_busy := False\<rparr>) (map_of (fx_entries s) i))"
    "map_of (fx_files (finishDownload i (file_path s i) c s)) (file_path s i) = (if c then None else map_of (fx_files s) (file_path s i))"
  using assms by (auto simp: finishDownload_def Let_def remove_file_def only_at_def split: option.splits)

lemma inv_closes_store:
  assumes inv: "transfers_inv sha256 S" and d: "tx_downloads S = ds @ d # ds'" "fd_store d"
    and t: "t = finishDownload (fd_id d) (fd_path d) c (tx_store S)"
  shows "transfers_inv sha256 (S\<lparr>tx_store := transfer_done t, tx_downloads := ds @ ds'\<rparr>)"
    (is "transfers_inv sha256 ?S'")
proof -
  let ?s = "tx_store S" and ?i = "fd_id d"
  have path: "fd_path d = file_path ?s ?i" using inv d by (auto simp: transfers_inv_def)
  note at = finishDownload_at[OF slot_entry(1)[OF inv], of ?i c, folded path, folded t]
  have only: "only_at ?i ?s (transfer_done t)" using at(1) by (simp add: transfer_done_def only_at_active)
  then have root: "fx_root (transfer_done t) = fx_root ?s" "fx_maxBytes (transfer_done t) = fx_maxBytes ?s" by (simp_all add: only_at_def)
  have tk: "taken ?S' j = taken S j" for j using d by (auto simp: taken_def file_path_def root)
  have op: "opened S ?i" "opened ?S' j \<Longrightarrow> opened S j" "j \<noteq> ?i \<Longrightarrow> opened ?S' j = opened S j" for j using d by (auto simp: opened_def)
  have slot: "slot_ok sha256 S ?i" using inv by (rule inv_slot)
  have ents: "fx_entries (transfer_done t) = fx_entries t" "fx_files (transfer_done t) = fx_files t" by (simp_all add: transfer_done_def)
  have et: "map_of (fx_entries t) ?i = (if c then None else map_option (\<lambda>e. e\<lparr>fe_busy := False\<rparr>) (map_of (fx_entries ?s) ?i))"
    using at(3) by simp
  have files: "map_of (fx_files t) (file_path ?s ?i) = (if c then None else map_of (fx_files ?s) (file_path ?s ?i))" using at(4) by (simp add: path)
  have "slot_inv sha256 (fx_maxBytes ?s) ?i (file_path ?s ?i) (map_of (fx_entries t) ?i) (map_of (fx_files t) (file_path ?s ?i)) (map_of (tx_appends S) ?i)
      (map_of (tx_stagings S) ?i \<noteq> None) (taken S ?i) (opened ?S' ?i) (?i \<in> set (tx_used S))"
    using slot_inv_closed[OF slot[unfolded slot_ok_def], of "taken S ?i" "opened ?S' ?i"] op
    unfolding et files by (cases c; cases "map_of (fx_entries ?s) ?i") simp_all
  then have "slot_ok sha256 ?S' ?i" unfolding slot_ok_def tk by (simp add: root ents file_path_def)
  moreover have "fx_active (transfer_done t) = int (length (tx_stagings S) + length (tx_appends S) + length (ds @ ds'))"
    using inv d at(2) by (simp add: transfers_inv_def transfer_done_def)
  ultimately show ?thesis
    using tk op only inv d by (intro transfers_inv_at[OF inv, of ?i]) (auto simp: transfers_inv_def)
qed

lemma inv_closes_taken:
  assumes inv: "transfers_inv sha256 S" and d: "tx_downloads S = ds @ d # ds'" "\<not> fd_store d"
    and t: "t = transfer_done (remove_file (fd_path d) (tx_store S))"
  shows "transfers_inv sha256 (S\<lparr>tx_store := t, tx_downloads := ds @ ds'\<rparr>)"
    (is "transfers_inv sha256 ?S'")
proof -
  let ?s = "tx_store S"
  obtain i where path: "fd_path d = file_path ?s i" using inv d by (auto simp: transfers_inv_def)
  have only: "only_at i ?s t" by (auto simp: transfer_done_def only_at_def remove_file_def path t)
  then have root: "fx_root t = fx_root ?s" "fx_maxBytes t = fx_maxBytes ?s" by (simp_all add: only_at_def)
  have op: "opened ?S' j = opened S j" for j using d by (auto simp: opened_def)
  have tk: "taken S i" "taken ?S' i \<Longrightarrow> taken S i" "j \<noteq> i \<Longrightarrow> taken ?S' j = taken S j" for j
    using d(1,2) path by (auto simp: taken_def file_path_def root)
  have slot: "slot_ok sha256 S i" using inv by (rule inv_slot)
  then have none: "map_of (fx_entries t) i = None" "map_of (fx_files t) (file_path ?s i) = None"
    using tk(1) by (simp_all add: slot_ok_def slot_inv_def transfer_done_def remove_file_def path t)
  have "slot_ok sha256 ?S' i"
    using slot_inv_closed(1)[OF slot[unfolded slot_ok_def], of "taken ?S' i" "opened S i"] tk none
    unfolding slot_ok_def op by (simp add: root file_path_def)
  moreover have "fx_active t = int (length (tx_stagings S) + length (tx_appends S) + length (ds @ ds'))"
    using inv d by (simp add: transfers_inv_def transfer_done_def remove_file_def t)
  ultimately show ?thesis
    using tk op only inv d by (intro transfers_inv_at[OF inv, of i]) (auto simp: transfers_inv_def)
qed

lemma inv_closes:
  assumes inv: "transfers_inv sha256 S" and d: "tx_downloads S = ds @ d # ds'"
  shows "transfers_inv sha256 (S\<lparr>tx_store := DownloadClose d (tx_store S), tx_downloads := ds @ ds'\<rparr>)"
    "transfers_inv sha256 (S\<lparr>tx_store := DownloadCommit d (tx_store S), tx_downloads := ds @ ds'\<rparr>)"
proof -
  have "fd_store d \<or> fd_consume d" using inv d by (auto simp: transfers_inv_def split: if_splits)
  then show "transfers_inv sha256 (S\<lparr>tx_store := DownloadClose d (tx_store S), tx_downloads := ds @ ds'\<rparr>)"
    "transfers_inv sha256 (S\<lparr>tx_store := DownloadCommit d (tx_store S), tx_downloads := ds @ ds'\<rparr>)"
    using inv_closes_store[OF inv d _ refl] inv_closes_taken[OF inv d _ refl] by (cases "fd_store d"; simp add: DownloadClose_def DownloadCommit_def)+
qed

lemma inv_store_closes:
  assumes inv: "transfers_inv sha256 S"
  shows "transfers_inv sha256 (S\<lparr>tx_store := transfer_close_begin (tx_store S)\<rparr>)"
  by (rule transfers_inv_store[OF inv, of "[]"])
    (use inv_slot[OF inv, of "[]"] in \<open>simp_all add: only_at_def transfer_close_begin_def slot_ok_def\<close>)

lemma inv_start: "NewFileTransferStore options root = Inr s \<Longrightarrow> transfers_inv sha256 (new_transfers s)"
  by (auto simp: NewFileTransferStore_def Let_def new_transfers_def transfers_inv_def slot_ok_def slot_inv_def taken_def opened_def
      split: if_splits option.splits)

lemma transfers_inv_step:
  assumes "transfer_step sha256 mime S S'" "sha256 [] = emptyFileSHA256" "transfers_inv sha256 S"
  shows "transfers_inv sha256 S'"
  using assms
  by cases (hypsubst, rule inv_stage_begins inv_stage_refused inv_stage_finishes inv_upload_begins inv_upload_refused inv_status inv_append_begins
      inv_append_refused inv_append_writes inv_append_finishes inv_discard inv_takes inv_take_refused inv_opens inv_open_refused inv_closes inv_store_closes;
      assumption)+

theorem transfers_reach_inv: "transfers_reach sha256 mime S \<Longrightarrow> sha256 [] = emptyFileSHA256 \<Longrightarrow> transfers_inv sha256 S"
  by (induction rule: transfers_reach.induct) (auto intro: inv_start transfers_inv_step)

end
