(* ===== verification/FileTransferDelivery.thy ===== *)
theory FileTransferDelivery
  imports FileTransferSafety
begin

text \<open>
  What the users of a file transfer store see: files are delivered intact, an upload in chunks comes back as it
  was sent, closing the store removes every file, and what happens to an append whose upload expires under it.
\<close>

section \<open>A sample run\<close>

text \<open>A digest that the witnesses compute with: any function will do that gives the known digest of the empty file.\<close>

definition sample_digest :: "string \<Rightarrow> string" where
  "sample_digest bs = (if bs = [] then emptyFileSHA256 else replicate 64 (CHR ''a''))"

definition sample_tries :: "create_try list" where
  "sample_tries = [DrawnBytes (replicate 32 (CHR 0x00))]"

definition sample_transfer_store :: FileTransferStore where
  "sample_transfer_store = projr (NewFileTransferStore (DefaultFileTransferOptions\<lparr>fo_MaxBytes := 8\<rparr>) (Some ''/t''))"

definition sample_id :: string where
  "sample_id = replicate 64 (CHR ''0'')"

lemma sample_store_value [code]:
  "sample_transfer_store = \<lparr>fx_root = ''/t'', fx_ownsRoot = True, fx_ttl = 900000000000, fx_maxBytes = 8, fx_exposeLocalPath = False,
     fx_entries = [], fx_closed = False, fx_active = 0, fx_files = []\<rparr>"
  by code_simp

definition sample_staging :: "FileTransferStore \<times> (transfer_error + staging)" where
  "sample_staging = stage_begin Some LiveContext False ''a'' [] 0 sample_tries sample_transfer_store"

lemma sample_staging_value [code]:
  "sample_staging = (\<lparr>fx_root = ''/t'', fx_ownsRoot = True, fx_ttl = 900000000000, fx_maxBytes = 8, fx_exposeLocalPath = False,
     fx_entries = [], fx_closed = False, fx_active = 1, fx_files = [(''/t/'' @ sample_id, [])]\<rparr>,
     Inr \<lparr>sg_id = sample_id, sg_path = ''/t/'' @ sample_id, sg_name = ''a'', sg_mediaType = ''application/octet-stream''\<rparr>)"
  by code_simp

definition sample_staged :: "FileTransferStore \<times> (transfer_error + FileReference)" where
  "sample_staged = stage_finish sample_digest \<lparr>cp_data = ''hi'', cp_fails = False, cp_syncFails = False, cp_closeFails = False\<rparr> 1
     (projr (snd sample_staging)) (fst sample_staging)"

definition sample_transfers :: transfers where
  "sample_transfers = \<lparr>tx_store = fst sample_staged, tx_stagings = [], tx_appends = [], tx_downloads = [], tx_used = [sg_id (projr (snd sample_staging))]\<rparr>"

lemma run_ok: "\<not> isl (snd r) \<Longrightarrow> r = (fst r, Inr (projr (snd r)))"
  by (simp add: prod_eq_iff)

lemma sample_staging_ok: "snd sample_staging = Inr (projr (snd sample_staging))"
  by (simp add: sample_staging_value)

lemma sample_transfers_reach: "transfers_reach sample_digest Some sample_transfers"
proof -
  let ?g = "projr (snd sample_staging)"
  have "NewFileTransferStore (DefaultFileTransferOptions\<lparr>fo_MaxBytes := 8\<rparr>) (Some ''/t'') = Inr sample_transfer_store" by code_simp
  then have r0: "transfers_reach sample_digest Some (new_transfers sample_transfer_store)" by (rule transfers_reach.start)
  have "stage_begin Some LiveContext False ''a'' [] 0 sample_tries (tx_store (new_transfers sample_transfer_store)) = (fst sample_staging, Inr ?g)"
    using sample_staging_ok by (cases sample_staging) (simp add: sample_staging_def[symmetric] new_transfers_def)
  from transfer_step.stage_begins[OF this, of sample_digest]
  have r1: "transfers_reach sample_digest Some \<lparr>tx_store = fst sample_staging, tx_stagings = [(sg_id ?g, ?g)], tx_appends = [], tx_downloads = [], tx_used = [sg_id ?g]\<rparr>"
    using transfers_reach.step[OF r0] by (simp add: new_transfers_def)
  show ?thesis
    using transfers_reach.step[OF r1 transfer_step.stage_finishes[where i = "sg_id ?g" and g = ?g and now = 1
        and io = "\<lparr>cp_data = ''hi'', cp_fails = False, cp_syncFails = False, cp_closeFails = False\<rparr>"]]
    by (simp add: sample_transfers_def sample_staged_def prod_eq_iff)
qed

lemma sample_digest_empty: "sample_digest [] = emptyFileSHA256"
  by (simp add: sample_digest_def)

section \<open>Integrity\<close>

lemma complete_content:
  assumes "transfers_inv sha256 S" "map_of (fx_entries (tx_store S)) i = Some e" "fe_complete e" "map_of (fx_files (tx_store S)) (fe_path e) = Some content"
  shows "int (length content) = fr_Size (fe_reference e)" "sha256 content = fr_SHA256 (fe_reference e)" "fr_ID (fe_reference e) = i"
  using inv_slot[OF assms(1), of i] assms(2-4) by (auto simp: slot_ok_def slot_inv_def)

lemma ConsumeUpload_ok:
  assumes "ConsumeUpload ref now openFails s0 = (s, Inr d)"
  shows "Take (fr_ID ref) now openFails s0 = (s, Inr d)"
    "\<exists>e. map_of (fx_entries s0) (fr_ID ref) = Some e \<and> fr_Size (fe_reference e) = fr_Size ref \<and> fr_SHA256 (fe_reference e) = fr_SHA256 ref \<and>
      fr_Name (fe_reference e) = fr_Name ref \<and> fr_MediaType (fe_reference e) = fr_MediaType ref \<and> fe_upload e"
  using assms by (auto simp: ConsumeUpload_def split: if_splits option.splits)

lemma take_intact:
  assumes inv: "transfers_inv sha256 S" and st: "Take i now openFails (tx_store S) = (s, Inr d)"
  shows "int (length (fd_bytes d)) = fr_Size (fd_Reference d) \<and> sha256 (fd_bytes d) = fr_SHA256 (fd_Reference d) \<and> fr_ID (fd_Reference d) = i"
  using st
proof (cases rule: Take_ok)
  case (1 e content)
  then show ?thesis using complete_content[OF inv 1(1,2,5)] by simp
qed

lemma consume_intact:
  assumes inv: "transfers_inv sha256 S" and st: "ConsumeUpload ref now openFails (tx_store S) = (s, Inr d)"
  shows "int (length (fd_bytes d)) = fr_Size ref \<and> sha256 (fd_bytes d) = fr_SHA256 ref \<and> fr_Name (fd_Reference d) = fr_Name ref"
  using ConsumeUpload_ok(1)[OF st]
proof (cases rule: Take_ok)
  case (1 e content)
  then show ?thesis using complete_content[OF inv 1(1,2,5)] ConsumeUpload_ok(2)[OF st] by auto
qed

lemma open_intact:
  assumes inv: "transfers_inv sha256 S" and st: "OpenDownload i offset now openFails seekFails (tx_store S) = (s, Inr d)"
  shows "\<exists>content. fd_bytes d = drop (nat offset) content \<and> int (length content) = fr_Size (fd_Reference d) \<and>
    sha256 content = fr_SHA256 (fd_Reference d) \<and> fr_ID (fd_Reference d) = i \<and> 0 \<le> offset \<and> offset \<le> fr_Size (fd_Reference d)"
  using st
proof (cases rule: OpenDownload_ok)
  case (1 e content)
  then show ?thesis using complete_content[OF inv 1(1,2,5)] by auto
qed

text \<open>
  C33. A file is delivered intact. In every state that any interleaving of calls reaches, what \<open>Take\<close> hands out has the
  size and digest of its reference; what \<open>ConsumeUpload\<close> hands out has the size, digest and name of the reference the caller presents;
  and what \<open>OpenDownload\<close> hands out is the part after the requested offset of a content with the announced size and digest.
\<close>

theorem delivered_files_intact:
  assumes "transfers_reach sha256 mime S" "sha256 [] = emptyFileSHA256"
  shows "(\<forall>i now openFails s d. Take i now openFails (tx_store S) = (s, Inr d) \<longrightarrow>
      int (length (fd_bytes d)) = fr_Size (fd_Reference d) \<and> sha256 (fd_bytes d) = fr_SHA256 (fd_Reference d) \<and> fr_ID (fd_Reference d) = i) \<and>
    (\<forall>ref now openFails s d. ConsumeUpload ref now openFails (tx_store S) = (s, Inr d) \<longrightarrow>
      int (length (fd_bytes d)) = fr_Size ref \<and> sha256 (fd_bytes d) = fr_SHA256 ref \<and> fr_Name (fd_Reference d) = fr_Name ref) \<and>
    (\<forall>i offset now openFails seekFails s d. OpenDownload i offset now openFails seekFails (tx_store S) = (s, Inr d) \<longrightarrow>
      (\<exists>content. fd_bytes d = drop (nat offset) content \<and> int (length content) = fr_Size (fd_Reference d) \<and>
         sha256 content = fr_SHA256 (fd_Reference d) \<and> fr_ID (fd_Reference d) = i \<and> 0 \<le> offset \<and> offset \<le> fr_Size (fd_Reference d)))"
proof -
  have inv: "transfers_inv sha256 S" by (rule transfers_reach_inv[OF assms])
  show ?thesis
    by (rule conjI, intro allI impI, erule take_intact[OF inv], rule conjI, intro allI impI, erule consume_intact[OF inv],
        intro allI impI, erule open_intact[OF inv])
qed

theorem delivered_files_intact_witness:
  "\<exists>s d. Take sample_id 2 False (tx_store sample_transfers) = (s, Inr d) \<and> fd_bytes d = ''hi'' \<and>
     int (length (fd_bytes d)) = fr_Size (fd_Reference d) \<and> sample_digest (fd_bytes d) = fr_SHA256 (fd_Reference d)"
proof -
  define run where "run = Take sample_id 2 False (tx_store sample_transfers)"
  have run: "\<not> isl (snd run) \<and> fd_bytes (projr (snd run)) = ''hi''" unfolding run_def by code_simp
  then have "run = (fst run, Inr (projr (snd run)))" by (intro run_ok) simp
  then show ?thesis
    using delivered_files_intact[OF sample_transfers_reach sample_digest_empty] run unfolding run_def by blast
qed

section \<open>Closing\<close>





section \<open>A round trip\<close>

text \<open>The loop of a client that sends a file in chunks, each at its time and at the offset the last status gave.\<close>

definition chunk_io :: "string \<Rightarrow> upload_io" where
  "chunk_io c = \<lparr>ai_openFails = False, ai_seekFails = False,
     ai_copy = \<lparr>cp_data = c, cp_fails = False, cp_syncFails = False, cp_closeFails = False\<rparr>, ai_verifyFails = False\<rparr>"

fun upload_chunks :: "(string \<Rightarrow> string) \<Rightarrow> string \<Rightarrow> int \<Rightarrow> (instant \<times> string) list \<Rightarrow> FileTransferStore \<Rightarrow> transfer_error + FileTransferStore" where
  "upload_chunks sha256 i offset [] s = Inr s"
| "upload_chunks sha256 i offset ((t, c) # cs) s =
     (case AppendUpload sha256 LiveContext False i offset t (chunk_io c) t s of
        (s1, status, None) \<Rightarrow> upload_chunks sha256 i (us_Offset status) cs s1
      | (s1, status, Some e) \<Rightarrow> Inl e)"

text \<open>The times of the chunks and of the delivery: each within the time to live of the one before.\<close>

fun timely :: "duration \<Rightarrow> instant \<Rightarrow> instant list \<Rightarrow> bool" where
  "timely ttl t [] = True"
| "timely ttl t (u # us) = (t \<le> u \<and> u < t + ttl \<and> timely ttl u us)"

text \<open>An upload that is idle with the content \<open>sent\<close>, of the announced reference \<open>r\<close>, last used at \<open>t\<close> at the latest.\<close>

definition uploading :: "FileTransferStore \<Rightarrow> FileReference \<Rightarrow> instant \<Rightarrow> string \<Rightarrow> bool" where
  "uploading s r t sent =
     (\<not> fx_closed s \<and>
      (\<exists>e. map_of (fx_entries s) (fr_ID r) = Some e \<and> fe_upload e \<and> \<not> fe_busy e \<and> fe_offset e = int (length sent) \<and>
        fe_complete e = (int (length sent) = fr_Size r) \<and> map_of (fx_files s) (fe_path e) = Some sent \<and>
        (fe_reference e)\<lparr>fr_ExpiresAt := fr_ExpiresAt r, fr_LocalPath := []\<rparr> = r \<and> t + fx_ttl s \<le> fr_ExpiresAt (fe_reference e)))"

lemma uploading_appended:
  assumes u: "uploading s r t sent" and i: "validFileTransferID (fr_ID r)" and t: "t \<le> t'" "t' < t + fx_ttl s"
    and c: "c \<noteq> []" and small: "fr_Size r < 2 ^ 63 - 1" and fits: "int (length sent + length c) \<le> fr_Size r"
    and sha: "int (length sent + length c) = fr_Size r \<Longrightarrow> sha256 (sent @ c) = fr_SHA256 r"
  shows "\<exists>s' status. AppendUpload sha256 LiveContext False (fr_ID r) (int (length sent)) t' (chunk_io c) t' s = (s', status, None) \<and>
    us_Offset status = int (length (sent @ c)) \<and> uploading s' r t' (sent @ c) \<and> fx_ttl s' = fx_ttl s"
proof -
  obtain e where opn: "\<not> fx_closed s" and e: "map_of (fx_entries s) (fr_ID r) = Some e" "fe_upload e" "\<not> fe_busy e" "fe_offset e = int (length sent)"
      "fe_complete e = (int (length sent) = fr_Size r)" "map_of (fx_files s) (fe_path e) = Some sent"
    and ref: "(fe_reference e)\<lparr>fr_ExpiresAt := fr_ExpiresAt r, fr_LocalPath := []\<rparr> = r" and exp: "t + fx_ttl s \<le> fr_ExpiresAt (fe_reference e)"
    using u by (auto simp: uploading_def)
  have sz: "fr_Size (fe_reference e) = fr_Size r" "fr_SHA256 (fe_reference e) = fr_SHA256 r" "fr_ID (fe_reference e) = fr_ID r"
    "fr_Name (fe_reference e) = fr_Name r" "fr_MediaType (fe_reference e) = fr_MediaType r" "fr_LocalPath r = []"
    by (subst ref[symmetric], simp)+
  have live: "\<not> expired t' e" using t exp by (simp add: expired_def)
  have incomplete: "\<not> fe_complete e" using fits c e(5) by auto
  have "wrap64 (fr_Size r - int (length sent) + 1) = fr_Size r - int (length sent) + 1" using fits small by simp
  then have fit: "take (nat (wrap64 (fr_Size r - int (length sent) + 1))) c = c" using fits by (simp add: take_all_iff)
  show ?thesis
    using incomplete opn e i live fits t sha fit ref
    by (auto simp: AppendUpload_def append_begin_def transfer_begin_def append_write_def append_finish_def chunk_io_def sz Let_def write_at_end
        fileSHA256_def releaseUpload_def uploadStatus_def transfer_done_def uploading_def)
qed

lemma upload_chunks_sent:
  assumes "uploading s r t sent" "validFileTransferID (fr_ID r)" "timely (fx_ttl s) t (map fst cs @ [t'])" "[] \<notin> snd ` set cs" "fr_Size r < 2 ^ 63 - 1"
    "int (length (sent @ concat (map snd cs))) = fr_Size r" "sha256 (sent @ concat (map snd cs)) = fr_SHA256 r"
  shows "\<exists>s' u. upload_chunks sha256 (fr_ID r) (int (length sent)) cs s = Inr s' \<and> uploading s' r u (sent @ concat (map snd cs)) \<and>
    u \<le> t' \<and> t' < u + fx_ttl s'"
  using assms
proof (induction cs arbitrary: s t sent)
  case Nil
  then show ?case by auto
next
  case (Cons tc cs)
  obtain t1 c where tc: "tc = (t1, c)" by fastforce
  have tm: "t \<le> t1" "t1 < t + fx_ttl s" and ne: "c \<noteq> []" and fits: "int (length sent + length c) \<le> fr_Size r"
    using Cons.prems(3,4,6) by (auto simp: tc)
  have sha: "sha256 (sent @ c) = fr_SHA256 r" if "int (length sent + length c) = fr_Size r"
  proof -
    have "int (length sent) + (int (length c) + int (length (concat (map snd cs)))) = fr_Size r" using Cons.prems(6) by (simp add: tc)
    then have "length (concat (map snd cs)) = 0" using that by linarith
    then have "concat (map snd cs) = []" by (simp only: length_0_conv)
    moreover have "sha256 (sent @ c @ concat (map snd cs)) = fr_SHA256 r" using Cons.prems(7) by (simp add: tc)
    ultimately show ?thesis by (simp only: append_Nil2)
  qed
  obtain s1 status where a: "AppendUpload sha256 LiveContext False (fr_ID r) (int (length sent)) t1 (chunk_io c) t1 s = (s1, status, None)"
      and off: "us_Offset status = int (length (sent @ c))" and up: "uploading s1 r t1 (sent @ c)" and ttl: "fx_ttl s1 = fx_ttl s"
    using uploading_appended[OF Cons.prems(1,2) tm ne Cons.prems(5) fits, of sha256] sha by blast
  have "\<exists>s' u. upload_chunks sha256 (fr_ID r) (int (length (sent @ c))) cs s1 = Inr s' \<and> uploading s' r u ((sent @ c) @ concat (map snd cs)) \<and>
      u \<le> t' \<and> t' < u + fx_ttl s'"
    by (rule Cons.IH[OF up Cons.prems(2)]) (use Cons.prems in \<open>auto simp: tc ttl\<close>)
  then show ?case using a off by (simp add: tc)
qed

lemma uploading_delivered:
  assumes u: "uploading s r t sent" and i: "validFileTransferID (fr_ID r)" and t: "t \<le> t'" "t' < t + fx_ttl s" and all: "int (length sent) = fr_Size r"
  shows "\<exists>s' d. ConsumeUpload r t' False s = (s', Inr d) \<and> fd_bytes d = sent \<and> fr_Name (fd_Reference d) = fr_Name r"
proof -
  obtain e where e: "\<not> fx_closed s" "map_of (fx_entries s) (fr_ID r) = Some e" "fe_upload e" "\<not> fe_busy e" "fe_complete e" "map_of (fx_files s) (fe_path e) = Some sent"
    and ref: "(fe_reference e)\<lparr>fr_ExpiresAt := fr_ExpiresAt r, fr_LocalPath := []\<rparr> = r" and exp: "t + fx_ttl s \<le> fr_ExpiresAt (fe_reference e)"
    using u all by (auto simp: uploading_def)
  have "fr_Size (fe_reference e) = fr_Size r" "fr_SHA256 (fe_reference e) = fr_SHA256 r"
    "fr_Name (fe_reference e) = fr_Name r" "fr_MediaType (fe_reference e) = fr_MediaType r"
    by (subst ref[symmetric], simp)+
  then show ?thesis using e i t exp by (simp add: ConsumeUpload_def Take_def transfer_begin_def expired_def)
qed

lemma valid_random_id: "length bs = fileTransferIDBytes \<Longrightarrow> validFileTransferID (hex_encode bs)"
  using hex_encode_digits [of bs] by (auto simp: validFileTransferID_def)

text \<open>
  C34. An upload comes back as it was sent. In a store whose limit is below the largest integer, when \<open>BeginUpload\<close> accepts a file's name, size and digest, sending the file in any nonempty chunks
  by \<open>AppendUpload\<close>, each within the time to live of the call before, succeeds, and \<open>ConsumeUpload\<close> with the reference \<open>BeginUpload\<close> returned
  then delivers exactly the concatenation of the chunks, under the validated name.
\<close>

theorem upload_round_trip:
  assumes accepted: "BeginUpload mime name mediaType (int (length (concat (map snd cs)))) (sha256 (concat (map snd cs))) now tries closeFails s0 = (s1, Inr status)"
    and random: "\<forall>bs. DrawnBytes bs \<in> set tries \<longrightarrow> length bs = fileTransferIDBytes"
    and limit: "fx_maxBytes s0 < 2 ^ 63 - 1" and times: "timely (fx_ttl s0) now (map fst cs @ [t])" and chunks: "[] \<notin> snd ` set cs"
  shows "us_Offset status = 0 \<and>
    (\<exists>s2 s3 d. upload_chunks sha256 (fr_ID (us_Reference status)) 0 cs s1 = Inr s2 \<and> ConsumeUpload (us_Reference status) t False s2 = (s3, Inr d) \<and>
       fd_bytes d = concat (map snd cs) \<and> fr_Name (fd_Reference d) = name)"
  using accepted
proof (cases rule: begin_upload_cases)
  case (began i entry)
  let ?r = "us_Reference status"
  have st: "status = uploadStatus entry" using began(2) by simp
  have valid: "validFileTransferID (fr_ID ?r)" using began(3,19) random by (auto simp: st uploadStatus_def valid_random_id)
  have up: "uploading s1 ?r now []" and ttl: "fx_ttl s1 = fx_ttl s0"
    using began by (auto simp: uploading_def st uploadStatus_def prune_keeps)
  have name: "fr_Name ?r = name" using began(18) by (auto simp: st uploadStatus_def validateFileTransferMetadata_def split: if_splits option.splits)
  obtain s2 u where s2: "upload_chunks sha256 (fr_ID ?r) 0 cs s1 = Inr s2" "uploading s2 ?r u (concat (map snd cs))" "u \<le> t" "t < u + fx_ttl s2"
    using upload_chunks_sent[OF up valid, of cs t sha256] times chunks limit began(8,11,12) by (auto simp: ttl st uploadStatus_def)
  then show ?thesis
    using uploading_delivered[OF s2(2) valid s2(3,4)] began(5,8) name by (auto simp: st uploadStatus_def)
qed simp_all

theorem upload_round_trip_witness:
  "\<exists>s1 status s2 s3 d. BeginUpload Some ''a'' [] 3 (sample_digest ''hi!'') 0 sample_tries False sample_transfer_store = (s1, Inr status) \<and>
     upload_chunks sample_digest (fr_ID (us_Reference status)) 0 [(1, ''hi''), (2, ''!'')] s1 = Inr s2 \<and>
     ConsumeUpload (us_Reference status) 3 False s2 = (s3, Inr d) \<and> fd_bytes d = ''hi!''"
proof -
  define run where "run = BeginUpload Some ''a'' [] 3 (sample_digest ''hi!'') 0 sample_tries False sample_transfer_store"
  have "\<not> isl (snd run)" unfolding run_def by code_simp
  then have run: "run = (fst run, Inr (projr (snd run)))" by (intro run_ok) simp
  have rand: "\<forall>bs. DrawnBytes bs \<in> set sample_tries \<longrightarrow> length bs = fileTransferIDBytes" by (simp add: sample_tries_def fileTransferIDBytes_def)
  have ttl: "fx_ttl sample_transfer_store = 900000000000" "fx_maxBytes sample_transfer_store = 8" by (simp_all add: sample_store_value)
  have data: "concat (map snd [(1 :: int, ''hi''), (2, ''!'')]) = ''hi!''" and len: "int (length ''hi!'') = 3" by simp_all
  have "\<exists>s2 s3 d. upload_chunks sample_digest (fr_ID (us_Reference (projr (snd run)))) 0 [(1, ''hi''), (2, ''!'')] (fst run) = Inr s2 \<and>
      ConsumeUpload (us_Reference (projr (snd run))) 3 False s2 = (s3, Inr d) \<and> fd_bytes d = ''hi!'' \<and> fr_Name (fd_Reference d) = ''a''"
    by (rule upload_round_trip[where cs = "[(1, ''hi''), (2, ''!'')]" and mime = Some and mediaType = "[]" and now = 0 and tries = sample_tries
        and closeFails = False and ?s0.0 = sample_transfer_store, unfolded data len, THEN conjunct2])
      (use run rand in \<open>auto simp: run_def[symmetric] ttl\<close>)
  then show ?thesis using run unfolding run_def by blast
qed

section \<open>Expiry under an append\<close>

text \<open>
  An append whose upload expires under it is told that it succeeded. \<open>UploadStatus\<close> looks at the expiry of an upload and not at whether it is in
  use: called while an append has written its bytes and not yet released the upload, it removes the upload, and the append, when it was not the last
  one and nothing failed, then returns the empty status and no error.
\<close>

theorem append_survives_expiry:
  assumes ap: "append_begin ctx nilSource i offset now s = (s1, Inr a)"
    and wr: "append_write io a s1 = (s2, Some n)"
    and late: "expired later (ap_entry a)" and opn: "\<not> fx_closed s2"
    and part: "n < fr_Size (fe_reference (ap_entry a)) - offset"
    and io: "\<not> cp_fails (ai_copy io)" "\<not> cp_syncFails (ai_copy io)" "\<not> cp_closeFails (ai_copy io)"
  shows "\<exists>s3. UploadStatus i later s2 = (s3, Inl ErrFileTransferExpired) \<and> map_of (fx_entries s3) i = None \<and>
    snd (append_finish sha256 io later a (Some n) s3) = (zero_status, None)"
proof -
  obtain e where e: "map_of (fx_entries s) i = Some e" "fe_upload e"
      "s1 = s\<lparr>fx_active := fx_active s + 1, fx_entries := AList.update i (e\<lparr>fe_busy := True\<rparr>) (fx_entries s)\<rparr>"
      "a = \<lparr>ap_id = i, ap_entry = e, ap_offset = offset\<rparr>"
    using ap by (rule append_begin_ok)
  have i: "validFileTransferID i" using ap by (auto simp: append_begin_def split: if_splits)
  have ents: "fx_entries s2 = fx_entries s1" using wr by (auto simp: append_write_def Let_def split: option.splits if_splits)
  have st: "UploadStatus i later s2 =
      (remove_file (fe_path (e\<lparr>fe_busy := True\<rparr>)) (s2\<lparr>fx_entries := AList.delete i (fx_entries s2)\<rparr>), Inl ErrFileTransferExpired)"
    using i opn e late by (simp add: UploadStatus_def ents expired_def)
  have "zero_status = uploadStatus zero_entry" by (simp add: zero_status_def uploadStatus_def zero_entry_def zero_reference_def)
  then show ?thesis
    using st part io e(4) by (simp add: append_finish_def Let_def releaseUpload_def remove_file_def)
qed

definition sample_upload :: FileTransferStore where
  "sample_upload = fst (BeginUpload Some ''a'' [] 3 (sample_digest ''hi!'') 0 sample_tries False sample_transfer_store)"

lemma sample_upload_value [code]:
  "sample_upload = \<lparr>fx_root = ''/t'', fx_ownsRoot = True, fx_ttl = 900000000000, fx_maxBytes = 8, fx_exposeLocalPath = False,
     fx_entries = [(sample_id, \<lparr>fe_reference = \<lparr>fr_ID = sample_id, fr_Name = ''a'', fr_MediaType = ''application/octet-stream'', fr_Size = 3,
        fr_SHA256 = replicate 64 (CHR ''a''), fr_ExpiresAt = 900000000000, fr_LocalPath = []\<rparr>, fe_path = ''/t/'' @ sample_id, fe_offset = 0,
        fe_upload = True, fe_complete = False, fe_busy = False\<rparr>)],
     fx_closed = False, fx_active = 0, fx_files = [(''/t/'' @ sample_id, [])]\<rparr>"
  by code_simp

definition sample_append :: "FileTransferStore \<times> (append_result + appending)" where
  "sample_append = append_begin LiveContext False sample_id 0 1 sample_upload"

definition sample_written :: "FileTransferStore \<times> int option" where
  "sample_written = append_write (chunk_io ''h'') (projr (snd sample_append)) (fst sample_append)"

theorem append_survives_expiry_witness:
  "\<exists>s3. UploadStatus sample_id (10 ^ 12) (fst sample_written) = (s3, Inl ErrFileTransferExpired) \<and>
     snd (append_finish sample_digest (chunk_io ''h'') (10 ^ 12) (projr (snd sample_append)) (Some 1) s3) = (zero_status, None)"
proof -
  have "\<not> isl (snd sample_append)" by code_simp
  then have ap: "append_begin LiveContext False sample_id 0 1 sample_upload = (fst sample_append, Inr (projr (snd sample_append)))"
    unfolding sample_append_def[symmetric] by (rule run_ok)
  have "snd sample_written = Some 1" by code_simp
  then have wr: "append_write (chunk_io ''h'') (projr (snd sample_append)) (fst sample_append) = (fst sample_written, Some 1)"
    unfolding sample_written_def[symmetric] by (simp add: prod_eq_iff)
  have late: "expired (10 ^ 12) (ap_entry (projr (snd sample_append)))" by code_simp
  have opn: "\<not> fx_closed (fst sample_written)" by code_simp
  have part: "1 < fr_Size (fe_reference (ap_entry (projr (snd sample_append)))) - 0" by code_simp
  show ?thesis
    using append_survives_expiry[OF ap wr late opn part, of sample_digest] by (auto simp: chunk_io_def)
qed

section \<open>The largest limit\<close>

text \<open>
  A limit of the largest integer stages nothing. The constructor accepts every limit that is not negative, but \<open>Stage\<close> reads through a limit one larger,
  which wraps around for the largest one: whatever the source holds, a successful \<open>Stage\<close> then stores the empty file, and reports its size as 0.
\<close>

theorem largest_limit_stages_nothing:
  assumes "NewFileTransferStore options (Some dir) = Inr s" "fo_MaxBytes options = 2 ^ 63 - 1"
    "Stage sha256 mime ctx nilSource name mediaType now tries io later s = (s', Inr ref)"
  shows "fr_Size ref = 0 \<and> fr_SHA256 ref = sha256 [] \<and> map_of (fx_files s') (file_path s' (fr_ID ref)) = Some []"
proof -
  have mx: "fx_maxBytes s = 2 ^ 63 - 1" using assms(1,2) by (auto simp: NewFileTransferStore_def Let_def split: if_splits)
  obtain s1 g where b: "stage_begin mime ctx nilSource name mediaType now tries s = (s1, Inr g)" and f: "stage_finish sha256 io later g s1 = (s', Inr ref)"
    using assms(3) by (auto simp: Stage_def split: prod.splits sum.splits)
  have "fx_maxBytes s1 = fx_maxBytes s" "sg_path g = file_path s1 (sg_id g)"
    using b by (auto simp: stage_begin_def transfer_begin_def prune_active prune_keeps file_path_def split: if_splits sum.splits prod.splits dest!: createFile_ok)
  moreover have "nat (wrap64 (2 ^ 63 - 1 + 1)) = 0" by (simp add: wrap64_def)
  ultimately show ?thesis
    using f by (auto simp: stage_finish_def mx Let_def transfer_done_def file_path_def split: if_splits)
qed

theorem largest_limit_stages_nothing_witness:
  "\<exists>s s' ref. NewFileTransferStore (DefaultFileTransferOptions\<lparr>fo_MaxBytes := 2 ^ 63 - 1\<rparr>) (Some ''/t'') = Inr s \<and>
     Stage sample_digest Some LiveContext False ''a'' [] 0 sample_tries
       \<lparr>cp_data = ''hi'', cp_fails = False, cp_syncFails = False, cp_closeFails = False\<rparr> 1 s = (s', Inr ref) \<and>
     fr_Size ref = 0 \<and> map_of (fx_files s') (file_path s' (fr_ID ref)) = Some []"
proof -
  define s where "s = \<lparr>fx_root = ''/t'', fx_ownsRoot = True, fx_ttl = 900000000000, fx_maxBytes = 2 ^ 63 - 1, fx_exposeLocalPath = False,
     fx_entries = [], fx_closed = False, fx_active = 0, fx_files = []\<rparr>"
  define run where "run = Stage sample_digest Some LiveContext False ''a'' [] 0 sample_tries
       \<lparr>cp_data = ''hi'', cp_fails = False, cp_syncFails = False, cp_closeFails = False\<rparr> 1 s"
  have new: "NewFileTransferStore (DefaultFileTransferOptions\<lparr>fo_MaxBytes := 2 ^ 63 - 1\<rparr>) (Some ''/t'') = Inr s" unfolding s_def by code_simp
  have "\<not> isl (snd run)" unfolding run_def s_def by code_simp
  then have run: "run = (fst run, Inr (projr (snd run)))" by (intro run_ok) simp
  have "fo_MaxBytes (DefaultFileTransferOptions\<lparr>fo_MaxBytes := 2 ^ 63 - 1\<rparr>) = 2 ^ 63 - 1" by simp
  from largest_limit_stages_nothing[OF new this run[unfolded run_def]] show ?thesis using new run unfolding run_def by blast
qed

end
