(* ===== verification/Container.thy ===== *)
theory Container
  imports GoStrings
begin

text \<open>
  The service container: \<open>src/backend/framework/container.go\<close>. Go's types are a parameter \<open>'ty\<close>, with \<open>asserts v t\<close> for the
  outcome of the type assertion \<open>v.(t)\<close> and \<open>assignable\<close> for \<open>reflect.Type.AssignableTo\<close>; values are a parameter \<open>'v\<close>.

  A factory is user code that may resolve other services through the resolver it is given; it is modelled by
  the tree of what it does, so that the stack of services under construction, which the resolver carries, is the code's.
  What bindings and scopes remember of the instances they built is kept beside the registrations, in \<open>instances\<close>.
\<close>

section \<open>Data\<close>

datatype ServiceLifetime = LifetimeSingleton | LifetimeTransient | LifetimeScoped

datatype container_error =
    ErrContainerUnavailable | ErrInvalidServiceKey | ErrInvalidServiceAlias string string | ErrServiceAlreadyRegistered string
  | ErrServiceNotFound string | ErrScopeRequired | ErrCircularDependency "string list" | ErrScopedServiceFromSingleton string
  | NilFactory string | ProvideFailed string container_error | ResolveFailed string container_error | InvalidRegisteredType string
  | FactoryFailed string

record 'ty ServiceKey =
  sk_name :: string
  sk_valueType :: "'ty option"

record 'ty serviceID =
  si_name :: string
  si_valueType :: 'ty

datatype ('ty, 'v) factory =
    FactoryReturns "container_error + 'v"
  | FactoryResolves "'ty ServiceKey" "container_error + 'v \<Rightarrow> ('ty, 'v) factory"
  | FactoryAllocates "nat \<Rightarrow> ('ty, 'v) factory"

record ('ty, 'v) serviceBinding =
  bd_lifetime :: ServiceLifetime
  bd_factory :: "('ty, 'v) factory"

record ('ty, 'v) Container =
  ct_services :: "('ty serviceID, 'v) gomap"
  ct_bindings :: "('ty serviceID, ('ty, 'v) serviceBinding) gomap"
  ct_aliases :: "('ty serviceID, 'ty serviceID) gomap"

text \<open>The instances of singletons and, by scope, of scoped services; \<open>in_next\<close> is the identity of the next new object.\<close>

record ('ty, 'v) instances =
  in_singletons :: "('ty serviceID, 'v) gomap"
  in_scoped :: "(nat \<times> 'ty serviceID, 'v) gomap"
  in_next :: nat

type_synonym 'ty resolutionFrame = "'ty serviceID \<times> ServiceLifetime option"

definition NewServiceKey :: "'ty \<Rightarrow> string \<Rightarrow> 'ty ServiceKey option" where
  "NewServiceKey valueType name =
     (let name = trim_space name in if name = [] then None else Some \<lparr>sk_name = name, sk_valueType = Some valueType\<rparr>)"

definition key_id :: "'ty ServiceKey \<Rightarrow> 'ty serviceID option" where
  "key_id key = (if sk_name key = [] then None else map_option (\<lambda>t. \<lparr>si_name = sk_name key, si_valueType = t\<rparr>) (sk_valueType key))"

definition NewContainer :: "('ty, 'v) Container" where
  "NewContainer = \<lparr>ct_services = [], ct_bindings = [], ct_aliases = []\<rparr>"

section \<open>Registration\<close>

definition registered :: "('ty, 'v) Container \<Rightarrow> 'ty serviceID \<Rightarrow> bool" where
  "registered ct i = (map_of (ct_services ct) i \<noteq> None \<or> map_of (ct_bindings ct) i \<noteq> None \<or> map_of (ct_aliases ct) i \<noteq> None)"

definition Instance :: "('ty, 'v) Container option \<Rightarrow> 'ty ServiceKey \<Rightarrow> 'v \<Rightarrow> container_error + ('ty, 'v) Container" where
  [op_defs]: "Instance container key service =
     (case container of
        None \<Rightarrow> Inl ErrContainerUnavailable
      | Some ct \<Rightarrow>
          (case key_id key of
             None \<Rightarrow> Inl ErrInvalidServiceKey
           | Some i \<Rightarrow>
               if registered ct i then Inl (ErrServiceAlreadyRegistered (sk_name key))
               else Inr (ct\<lparr>ct_services := AList.update i service (ct_services ct)\<rparr>)))"

text \<open>The factory of \<open>Provide\<close> gets the container and may register services in it.\<close>

definition Provide ::
  "('ty, 'v) Container option \<Rightarrow> 'ty ServiceKey \<Rightarrow> (('ty, 'v) Container \<Rightarrow> ('ty, 'v) Container \<times> (container_error + 'v)) option
    \<Rightarrow> ('ty, 'v) Container option \<times> container_error option" where
  [op_defs]: "Provide container key factory =
     (case container of
        None \<Rightarrow> (None, Some ErrContainerUnavailable)
      | Some ct \<Rightarrow>
          if key_id key = None then (Some ct, Some ErrInvalidServiceKey)
          else case factory of
            None \<Rightarrow> (Some ct, Some (NilFactory (sk_name key)))
          | Some f \<Rightarrow>
              (case f ct of
                 (ct1, Inl e) \<Rightarrow> (Some ct1, Some (ProvideFailed (sk_name key) e))
               | (ct1, Inr service) \<Rightarrow>
                   (case Instance (Some ct1) key service of
                      Inl e \<Rightarrow> (Some ct1, Some e)
                    | Inr ct2 \<Rightarrow> (Some ct2, None))))"

definition bind_service ::
  "('ty, 'v) Container option \<Rightarrow> 'ty ServiceKey \<Rightarrow> ServiceLifetime \<Rightarrow> ('ty, 'v) factory option \<Rightarrow> container_error + ('ty, 'v) Container" where
  [op_defs]: "bind_service container key lifetime factory =
     (case container of
        None \<Rightarrow> Inl ErrContainerUnavailable
      | Some ct \<Rightarrow>
          (case key_id key of
             None \<Rightarrow> Inl ErrInvalidServiceKey
           | Some i \<Rightarrow>
               (case factory of
                  None \<Rightarrow> Inl (NilFactory (sk_name key))
                | Some f \<Rightarrow>
                    if registered ct i then Inl (ErrServiceAlreadyRegistered (sk_name key))
                    else Inr (ct\<lparr>ct_bindings := AList.update i \<lparr>bd_lifetime = lifetime, bd_factory = f\<rparr> (ct_bindings ct)\<rparr>))))"

definition BindSingleton :: "('ty, 'v) Container option \<Rightarrow> 'ty ServiceKey \<Rightarrow> ('ty, 'v) factory option \<Rightarrow> container_error + ('ty, 'v) Container" where
  "BindSingleton container key factory = bind_service container key LifetimeSingleton factory"

definition BindTransient :: "('ty, 'v) Container option \<Rightarrow> 'ty ServiceKey \<Rightarrow> ('ty, 'v) factory option \<Rightarrow> container_error + ('ty, 'v) Container" where
  "BindTransient container key factory = bind_service container key LifetimeTransient factory"

definition BindScoped :: "('ty, 'v) Container option \<Rightarrow> 'ty ServiceKey \<Rightarrow> ('ty, 'v) factory option \<Rightarrow> container_error + ('ty, 'v) Container" where
  "BindScoped container key factory = bind_service container key LifetimeScoped factory"

definition Alias ::
  "('ty \<Rightarrow> 'ty \<Rightarrow> bool) \<Rightarrow> ('ty, 'v) Container option \<Rightarrow> 'ty ServiceKey \<Rightarrow> 'ty ServiceKey \<Rightarrow> container_error + ('ty, 'v) Container" where
  [op_defs]: "Alias assignable container alias target =
     (case container of
        None \<Rightarrow> Inl ErrContainerUnavailable
      | Some ct \<Rightarrow>
          (case (key_id alias, key_id target) of
             (Some a, Some t) \<Rightarrow>
               if a = t \<or> \<not> assignable (si_valueType t) (si_valueType a) then Inl (ErrInvalidServiceAlias (sk_name alias) (sk_name target))
               else if registered ct a then Inl (ErrServiceAlreadyRegistered (sk_name alias))
               else if \<not> registered ct t then Inl (ErrServiceNotFound (sk_name target))
               else Inr (ct\<lparr>ct_aliases := AList.update a t (ct_aliases ct)\<rparr>)
           | _ \<Rightarrow> Inl ErrInvalidServiceKey))"

definition HasService :: "('ty, 'v) Container option \<Rightarrow> 'ty ServiceKey \<Rightarrow> bool" where
  "HasService container key =
     (case container of
        None \<Rightarrow> False
      | Some ct \<Rightarrow> (case key_id key of None \<Rightarrow> False | Some i \<Rightarrow> registered ct i))"

section \<open>Resolution\<close>

definition hasLifetime :: "ServiceLifetime \<Rightarrow> 'ty resolutionFrame list \<Rightarrow> bool" where
  "hasLifetime lifetime stack = (\<exists>frame \<in> set stack. snd frame = Some lifetime)"

definition resolve_typed ::
  "('v \<Rightarrow> 'ty \<Rightarrow> bool) \<Rightarrow> 'ty ServiceKey \<Rightarrow> ('ty serviceID \<Rightarrow> 's \<Rightarrow> 's \<times> (container_error + 'v)) \<Rightarrow> 's \<Rightarrow> 's \<times> (container_error + 'v)" where
  "resolve_typed asserts key resolver s =
     (case key_id key of
        None \<Rightarrow> (s, Inl ErrInvalidServiceKey)
      | Some i \<Rightarrow>
          (case resolver i s of
             (s', Inl e) \<Rightarrow> (s', Inl e)
           | (s', Inr v) \<Rightarrow> (s', if asserts v (si_valueType i) then Inr v else Inl (InvalidRegisteredType (sk_name key)))))"

primrec run_factory ::
  "('ty, 'v) factory \<Rightarrow> ('ty ServiceKey \<Rightarrow> ('ty, 'v) instances \<Rightarrow> ('ty, 'v) instances \<times> (container_error + 'v))
    \<Rightarrow> ('ty, 'v) instances \<Rightarrow> ('ty, 'v) instances \<times> (container_error + 'v)" where
  "run_factory (FactoryReturns r) resolver c = (c, r)"
| "run_factory (FactoryResolves key k) resolver c = (case resolver key c of (c', r) \<Rightarrow> run_factory (k r) resolver c')"
| "run_factory (FactoryAllocates k) resolver c = run_factory (k (in_next c)) resolver (c\<lparr>in_next := in_next c + 1\<rparr>)"

text \<open>\<open>serviceBinding.resolve\<close>; \<open>build\<close> runs the factory.\<close>

definition binding_resolve ::
  "ServiceLifetime \<Rightarrow> nat option \<Rightarrow> 'ty serviceID \<Rightarrow> (('ty, 'v) instances \<Rightarrow> ('ty, 'v) instances \<times> (container_error + 'v))
    \<Rightarrow> ('ty, 'v) instances \<Rightarrow> ('ty, 'v) instances \<times> (container_error + 'v)" where
  "binding_resolve lifetime scope i build c =
     (case lifetime of
        LifetimeTransient \<Rightarrow> build c
      | LifetimeScoped \<Rightarrow>
          (case scope of
             None \<Rightarrow> (c, Inl ErrScopeRequired)
           | Some sc \<Rightarrow>
               (case map_of (in_scoped c) (sc, i) of
                  Some v \<Rightarrow> (c, Inr v)
                | None \<Rightarrow>
                    (case build c of
                       (c', Inl e) \<Rightarrow> (c', Inl e)
                     | (c', Inr v) \<Rightarrow> (c'\<lparr>in_scoped := AList.update (sc, i) v (in_scoped c')\<rparr>, Inr v))))
      | LifetimeSingleton \<Rightarrow>
          (case map_of (in_singletons c) i of
             Some v \<Rightarrow> (c, Inr v)
           | None \<Rightarrow>
               (case build c of
                  (c', Inl e) \<Rightarrow> (c', Inl e)
                | (c', Inr v) \<Rightarrow> (c'\<lparr>in_singletons := AList.update i v (in_singletons c')\<rparr>, Inr v))))"

definition wrap_failure :: "string \<Rightarrow> 's \<times> (container_error + 'v) \<Rightarrow> 's \<times> (container_error + 'v)" where
  "wrap_failure name r = (case r of (s, Inl e) \<Rightarrow> (s, Inl (ResolveFailed name e)) | (s, Inr v) \<Rightarrow> (s, Inr v))"

definition circular_path :: "'ty resolutionFrame list \<Rightarrow> 'ty serviceID \<Rightarrow> string list" where
  "circular_path stack i = map si_name (dropWhile (\<lambda>j. j \<noteq> i) (map fst stack)) @ [si_name i]"

function resolve ::
  "('v \<Rightarrow> 'ty \<Rightarrow> bool) \<Rightarrow> ('ty, 'v) Container \<Rightarrow> nat option \<Rightarrow> 'ty resolutionFrame list \<Rightarrow> 'ty serviceID
    \<Rightarrow> ('ty, 'v) instances \<Rightarrow> ('ty, 'v) instances \<times> (container_error + 'v)" where
  "resolve asserts ct scope stack i c =
     (if i \<in> fst ` set stack then (c, Inl (ErrCircularDependency (circular_path stack i)))
      else case map_of (ct_services ct) i of
        Some v \<Rightarrow> (c, Inr v)
      | None \<Rightarrow>
          (case map_of (ct_aliases ct) i of
             Some t \<Rightarrow> resolve asserts ct scope (stack @ [(i, None)]) t c
           | None \<Rightarrow>
               (case map_of (ct_bindings ct) i of
                  None \<Rightarrow> (c, Inl (ErrServiceNotFound (si_name i)))
                | Some b \<Rightarrow>
                    if bd_lifetime b = LifetimeScoped \<and> hasLifetime LifetimeSingleton stack
                    then (c, Inl (ErrScopedServiceFromSingleton (si_name i)))
                    else wrap_failure (si_name i)
                      (binding_resolve (bd_lifetime b) scope i
                        (run_factory (bd_factory b)
                          (\<lambda>key. resolve_typed asserts key (resolve asserts ct scope (stack @ [(i, Some (bd_lifetime b))])))) c))))"
  by pat_completeness auto

text \<open>
  Resolution ends whatever the factories ask for: a nested resolution has one more of the registered services
  on its stack, and one that is on the stack already is refused.
\<close>

lemma stack_grows:
  assumes "i \<notin> fst ` set stack" "i \<in> fst ` set (ct_aliases ct) \<union> fst ` set (ct_bindings ct)"
  shows "card (fst ` set (ct_aliases ct) \<union> fst ` set (ct_bindings ct) - fst ` set (stack @ [(i, l)])) <
    card (fst ` set (ct_aliases ct) \<union> fst ` set (ct_bindings ct) - fst ` set stack)"
  by (rule psubset_card_mono) (use assms in auto)

termination resolve
  by (relation "measure (\<lambda>(asserts, ct, scope, stack, i, c).
      card (fst ` set (ct_aliases ct) \<union> fst ` set (ct_bindings ct) - fst ` set stack))")
    (auto intro!: stack_grows[simplified] simp: map_of_eq_None_iff dest!: map_of_SomeD intro: rev_image_eqI)

declare resolve.simps [simp del]

definition Resolve ::
  "('v \<Rightarrow> 'ty \<Rightarrow> bool) \<Rightarrow> ('ty, 'v) Container \<Rightarrow> nat option \<Rightarrow> 'ty ServiceKey \<Rightarrow> ('ty, 'v) instances \<Rightarrow> ('ty, 'v) instances \<times> (container_error + 'v)" where
  "Resolve asserts ct scope key c = resolve_typed asserts key (resolve asserts ct scope []) c"

end
