(* ===== verification/ContainerSafety.thy ===== *)
theory ContainerSafety
  imports Container
begin

text \<open>
  What resolution guarantees: a singleton has one instance, which does not depend on the scope that first asked for it,
  and services that were registered with their types are resolved at their types. Both are shown for
  every interleaving of registrations and resolutions.
\<close>

section \<open>Runs\<close>

definition new_instances :: "('ty, 'v) instances" where
  "new_instances = \<lparr>in_singletons = [], in_scoped = [], in_next = 0\<rparr>"

inductive container_step ::
  "('v \<Rightarrow> 'ty \<Rightarrow> bool) \<Rightarrow> ('ty \<Rightarrow> 'ty \<Rightarrow> bool) \<Rightarrow> ('ty, 'v) Container \<times> ('ty, 'v) instances \<Rightarrow> ('ty, 'v) Container \<times> ('ty, 'v) instances \<Rightarrow> bool"
  for asserts assignable where
  registers: "Instance (Some ct) key v = Inr ct' \<Longrightarrow> container_step asserts assignable (ct, c) (ct', c)"
| binds: "bind_service (Some ct) key lifetime f = Inr ct' \<Longrightarrow> container_step asserts assignable (ct, c) (ct', c)"
| aliases: "Alias assignable (Some ct) alias target = Inr ct' \<Longrightarrow> container_step asserts assignable (ct, c) (ct', c)"
| resolves: "Resolve asserts ct scope key c = (c', r) \<Longrightarrow> container_step asserts assignable (ct, c) (ct, c')"

inductive container_run ::
  "('v \<Rightarrow> 'ty \<Rightarrow> bool) \<Rightarrow> ('ty \<Rightarrow> 'ty \<Rightarrow> bool) \<Rightarrow> ('ty, 'v) Container \<times> ('ty, 'v) instances \<Rightarrow> ('ty, 'v) Container \<times> ('ty, 'v) instances \<Rightarrow> bool"
  for asserts assignable where
  done_run: "container_run asserts assignable s s"
| step_run: "container_run asserts assignable s s' \<Longrightarrow> container_step asserts assignable s' s'' \<Longrightarrow> container_run asserts assignable s s''"

section \<open>Instances are kept\<close>

text \<open>Instances are never replaced, and those of the services in \<open>J\<close>, which are under construction, are not made meanwhile.\<close>

definition keeps :: "'ty serviceID set \<Rightarrow> ('ty, 'v) instances \<Rightarrow> ('ty, 'v) instances \<Rightarrow> bool" where
  "keeps J c c' =
     (map_of (in_singletons c) \<subseteq>\<^sub>m map_of (in_singletons c') \<and> map_of (in_scoped c) \<subseteq>\<^sub>m map_of (in_scoped c') \<and>
      (\<forall>j \<in> J. map_of (in_singletons c') j = map_of (in_singletons c) j \<and> (\<forall>sc. map_of (in_scoped c') (sc, j) = map_of (in_scoped c) (sc, j))))"

lemma keeps_refl [simp]: "keeps J c c" "keeps J c (c\<lparr>in_next := n\<rparr>)"
  by (simp_all add: keeps_def)

lemma keeps_singleton: "keeps J c c' \<Longrightarrow> map_of (in_singletons c) i = Some v \<Longrightarrow> map_of (in_singletons c') i = Some v"
  unfolding keeps_def by (auto dest: map_le_implies_dom_le simp: map_le_def dom_def)

lemma keeps_trans: "keeps J c c' \<Longrightarrow> keeps J c' c'' \<Longrightarrow> keeps J c c''"
  unfolding keeps_def by (auto intro: map_le_trans)

lemma keeps_mono: "keeps J c c' \<Longrightarrow> K \<subseteq> J \<Longrightarrow> keeps K c c'"
  by (auto simp: keeps_def)

lemma run_factory_keeps:
  assumes "\<And>key c c' r. resolver key c = (c', r) \<Longrightarrow> keeps J c c'"
  shows "run_factory f resolver c = (c', r) \<Longrightarrow> keeps J c c'"
proof (induction f arbitrary: c)
  case (FactoryResolves key k)
  obtain c1 q where q: "resolver key c = (c1, q)" by fastforce
  show ?case using keeps_trans[OF assms[OF q] FactoryResolves.IH[OF rangeI]] FactoryResolves.prems q by simp
next
  case (FactoryAllocates k)
  show ?case using keeps_trans[OF keeps_refl(2) FactoryAllocates.IH[OF rangeI]] FactoryAllocates.prems by simp
qed simp

lemma binding_resolve_keeps:
  assumes build: "\<And>c c' r. build c = (c', r) \<Longrightarrow> keeps (insert i J) c c'" and i: "i \<notin> J"
    and st: "binding_resolve lifetime scope i build c = (c', r)"
  shows "keeps J c c'"
proof -
  obtain c1 r1 where b: "build c = (c1, r1)" by fastforce
  have k: "keeps (insert i J) c c1" by (rule build[OF b])
  have sing: "keeps J c (c1\<lparr>in_singletons := AList.update i v (in_singletons c1)\<rparr>)" if "map_of (in_singletons c) i = None" for v
    using k i that by (auto simp: keeps_def map_le_def update_conv')
  have scop: "keeps J c (c1\<lparr>in_scoped := AList.update (sc, i) v (in_scoped c1)\<rparr>)" if "map_of (in_scoped c) (sc, i) = None" for v sc
    using k i that by (auto simp: keeps_def map_le_def update_conv')
  show ?thesis
    using st sing scop keeps_mono[OF k]
    by (auto simp: binding_resolve_def b split: ServiceLifetime.splits option.splits sum.splits)
qed

lemma resolve_typed_fst:
  "resolve_typed asserts key resolver c = (c', r) \<Longrightarrow> c' = c \<or> (\<exists>i r'. resolver i c = (c', r'))"
  by (auto simp: resolve_typed_def split: option.splits prod.splits sum.splits)

lemma wrap_failure_fst [simp]: "wrap_failure n x = (c, r) \<longleftrightarrow> (\<exists>r'. x = (c, r') \<and> r = (case r' of Inl e \<Rightarrow> Inl (ResolveFailed n e) | Inr v \<Rightarrow> Inr v))"
  by (cases x) (auto simp: wrap_failure_def split: sum.splits)

text \<open>The branches of one resolution.\<close>

lemma resolve_cases:
  assumes "resolve asserts ct scope stack i c = (c', r)"
  obtains (circular) "i \<in> fst ` set stack" "c' = c" "r = Inl (ErrCircularDependency (circular_path stack i))"
    | (service) v where "map_of (ct_services ct) i = Some v" "c' = c" "r = Inr v"
    | (aliased) t where "i \<notin> fst ` set stack" "map_of (ct_services ct) i = None" "map_of (ct_aliases ct) i = Some t"
        "resolve asserts ct scope (stack @ [(i, None)]) t c = (c', r)"
    | (unknown) "c' = c" "r = Inl (ErrServiceNotFound (si_name i))"
    | (captive) "c' = c" "r = Inl (ErrScopedServiceFromSingleton (si_name i))"
    | (built) b r' where "i \<notin> fst ` set stack" "map_of (ct_services ct) i = None" "map_of (ct_aliases ct) i = None" "map_of (ct_bindings ct) i = Some b"
        "\<not> (bd_lifetime b = LifetimeScoped \<and> hasLifetime LifetimeSingleton stack)"
        "binding_resolve (bd_lifetime b) scope i (run_factory (bd_factory b)
          (\<lambda>key. resolve_typed asserts key (resolve asserts ct scope (stack @ [(i, Some (bd_lifetime b))])))) c = (c', r')"
        "r = (case r' of Inl e \<Rightarrow> Inl (ResolveFailed (si_name i) e) | Inr v \<Rightarrow> Inr v)"
  using assms by (subst (asm) resolve.simps) (auto split: if_splits option.splits)

lemma resolve_keeps: "resolve asserts ct scope stack i c = (c', r) \<Longrightarrow> keeps (fst ` set stack) c c'"
proof (induction asserts ct scope stack i c arbitrary: c' r rule: resolve.induct)
  case (1 asserts ct scope stack i c)
  from "1.prems" show ?case
  proof (cases rule: resolve_cases)
    case (aliased t)
    then show ?thesis using "1.IH"(2)[of t] by (auto intro: keeps_mono)
  next
    case (built b r')
    let ?rs = "\<lambda>key. resolve_typed asserts key (resolve asserts ct scope (stack @ [(i, Some (bd_lifetime b))]))"
    have "keeps (insert i (fst ` set stack)) d d'" if "?rs key d = (d', q)" for key d d' q
      using resolve_typed_fst[OF that] "1.IH"(1)[of b _ d d'] built(1-5) by auto
    from binding_resolve_keeps[OF run_factory_keeps[OF this] built(1,6)] show ?thesis .
  qed simp_all
qed

section \<open>Singletons\<close>

text \<open>The binding of a singleton, which later registrations cannot displace.\<close>

definition bound_singleton :: "('ty, 'v) Container \<Rightarrow> 'ty serviceID \<Rightarrow> bool" where
  "bound_singleton ct i =
     (map_of (ct_services ct) i = None \<and> map_of (ct_aliases ct) i = None \<and>
      (\<exists>b. map_of (ct_bindings ct) i = Some b \<and> bd_lifetime b = LifetimeSingleton))"

lemma bound_singleton_step:
  assumes "container_step asserts assignable s s'" "bound_singleton (fst s) i"
  shows "bound_singleton (fst s') i" "keeps {} (snd s) (snd s')"
  using assms
  by (induction rule: container_step.induct)
    (auto simp: op_defs bound_singleton_def registered_def update_conv' Resolve_def resolve_typed_def split: option.splits if_splits sum.splits prod.splits
      dest: resolve_keeps[where stack = "[]"])

lemma bound_singleton_run:
  assumes "container_run asserts assignable s s'" "bound_singleton (fst s) i"
  shows "bound_singleton (fst s') i \<and> keeps {} (snd s) (snd s')"
  using assms by (induction rule: container_run.induct) (auto dest: bound_singleton_step intro: keeps_trans)

lemma BindSingleton_binds:
  "BindSingleton (Some ct) key f = Inr ct' \<Longrightarrow> key_id key = Some i \<Longrightarrow> bound_singleton ct' i"
  by (auto simp: BindSingleton_def bind_service_def bound_singleton_def registered_def split: option.splits if_splits)

lemma resolve_singleton:
  assumes "bound_singleton ct i"
  shows "resolve asserts ct scope [] i c = (c', Inr v) \<Longrightarrow> map_of (in_singletons c') i = Some v"
    "map_of (in_singletons c) i = Some v \<Longrightarrow> resolve asserts ct scope [] i c = (c, Inr v)"
  using assms
  by (auto simp: resolve.simps[of asserts ct scope "[]"] bound_singleton_def binding_resolve_def hasLifetime_def wrap_failure_def
      simp del: wrap_failure_fst split: option.splits sum.splits prod.splits)

lemma Resolve_singleton_again:
  assumes "bound_singleton ct i" "bound_singleton ct' i" "key_id key = Some i" "Resolve asserts ct scope key c = (c1, Inr v)" "keeps {} c1 c2"
  shows "Resolve asserts ct' scope' key c2 = (c2, Inr v)"
proof -
  obtain "resolve asserts ct scope [] i c = (c1, Inr v)" "asserts v (si_valueType i)"
    using assms(3,4) by (auto simp: Resolve_def resolve_typed_def split: prod.splits sum.splits if_splits)
  then have "map_of (in_singletons c2) i = Some v" "asserts v (si_valueType i)"
    using keeps_singleton[OF assms(5) resolve_singleton(1)[OF assms(1)]] by simp_all
  then show ?thesis using resolve_singleton(2)[OF assms(2)] assms(3) by (simp add: Resolve_def resolve_typed_def)
qed

section \<open>Scopes do not leak into singletons\<close>

lemma resolve_scope_irrelevant:
  "hasLifetime LifetimeSingleton stack \<Longrightarrow> resolve asserts ct scope stack i c = resolve asserts ct scope' stack i c"
proof (induction asserts ct scope stack i c rule: resolve.induct)
  case (1 asserts ct scope stack i c)
  have more: "hasLifetime LifetimeSingleton (stack @ xs)" for xs using "1.prems" by (auto simp: hasLifetime_def)
  show ?case
  proof (cases "i \<in> fst ` set stack \<or> map_of (ct_services ct) i \<noteq> None")
    case True
    then show ?thesis by (auto simp: resolve.simps[of asserts ct _ stack])
  next
    case no: False
    show ?thesis
    proof (cases "map_of (ct_aliases ct) i")
      case (Some t)
      then show ?thesis using "1.IH"(2)[of t] more no by (simp add: resolve.simps[of asserts ct _ stack])
    next
      case None
      have "resolve asserts ct scope (stack @ [(i, Some (bd_lifetime b))]) = resolve asserts ct scope' (stack @ [(i, Some (bd_lifetime b))])"
        if "map_of (ct_bindings ct) i = Some b" "bd_lifetime b \<noteq> LifetimeScoped" for b
        using "1.IH"(1)[of b] more no None that by (auto simp: fun_eq_iff)
      then show ?thesis
        using no None "1.prems"
        by (auto simp: resolve.simps[of asserts ct _ stack] binding_resolve_def split: option.split ServiceLifetime.split)
    qed
  qed
qed

lemma Resolve_singleton_scope:
  assumes "bound_singleton ct i" "key_id key = Some i"
  shows "Resolve asserts ct scope key c = Resolve asserts ct scope' key c"
proof -
  have "resolve asserts ct scope [(i, Some LifetimeSingleton)] = resolve asserts ct scope' [(i, Some LifetimeSingleton)]"
    by (intro ext resolve_scope_irrelevant) (simp add: hasLifetime_def)
  then have "resolve asserts ct scope [] i c = resolve asserts ct scope' [] i c"
    using assms(1) by (auto simp: resolve.simps[of asserts ct _ "[]"] bound_singleton_def binding_resolve_def)
  then show ?thesis using assms(2) by (simp add: Resolve_def resolve_typed_def)
qed

text \<open>A container with a singleton, a scoped service that uses it, and a transient service; objects are numbers.\<close>

definition sample_key :: "string \<Rightarrow> nat ServiceKey" where
  "sample_key name = \<lparr>sk_name = name, sk_valueType = Some 0\<rparr>"

definition sample_singleton :: "(nat, nat) Container" where
  "sample_singleton = projr (BindSingleton (Some NewContainer) (sample_key ''clock'') (Some (FactoryAllocates (\<lambda>n. FactoryReturns (Inr n)))))"

definition sample_container :: "(nat, nat) Container" where
  "sample_container = projr (BindScoped (Some sample_singleton) (sample_key ''session'')
     (Some (FactoryAllocates (\<lambda>n. FactoryResolves (sample_key ''clock'') FactoryReturns))))"

text \<open>
  C39. A singleton has one instance. From the moment \<open>BindSingleton\<close> accepted it, whatever is registered and resolved, in whatever scopes:
  once a resolution of its key returned a service, every later one returns the same service and builds nothing; and what a
  resolution returns and builds is the same in every scope and outside of scopes, so that no scoped service is captured in a singleton.
\<close>

theorem singleton_one_instance:
  assumes "BindSingleton (Some ct0) key f = Inr ct1" "container_run asserts assignable (ct1, c1) (ct2, c2)"
    "Resolve asserts ct2 scope key c2 = (c3, Inr v)" "container_run asserts assignable (ct2, c3) (ct4, c4)"
  shows "Resolve asserts ct4 scope' key c4 = (c4, Inr v) \<and> Resolve asserts ct2 scope'' key c2 = (c3, Inr v)"
proof -
  obtain i where i: "key_id key = Some i" using assms(1) by (auto simp: BindSingleton_def bind_service_def split: option.splits)
  have b2: "bound_singleton ct2 i" using bound_singleton_run[OF assms(2)] BindSingleton_binds[OF assms(1) i] by simp
  then have b4: "bound_singleton ct4 i" "keeps {} c3 c4" using bound_singleton_run[OF assms(4)] by simp_all
  show ?thesis
    using Resolve_singleton_again[OF b2 b4(1) i assms(3) b4(2)] Resolve_singleton_scope[OF b2 i] assms(3) by metis
qed

theorem singleton_one_instance_witness:
  "\<exists>c3 v c4 w. Resolve (\<lambda>v t. True) sample_container (Some 1) (sample_key ''session'') new_instances = (c3, Inr w) \<and>
     Resolve (\<lambda>v t. True) sample_container (Some 2) (sample_key ''session'') c3 = (c4, Inr v) \<and> v = w \<and>
     Resolve (\<lambda>v t. True) sample_container None (sample_key ''clock'') c4 = (c4, Inr v)"
proof -
  let ?R = "Resolve (\<lambda>v t. True) sample_container"
  define a where "a = ?R (Some 1) (sample_key ''session'') new_instances"
  define b where "b = ?R (Some 2) (sample_key ''session'') (fst a)"
  have vals: "snd a = Inr 1 \<and> snd b = Inr 1 \<and> ?R None (sample_key ''clock'') (fst a) = (fst a, Inr 1)" unfolding a_def b_def by code_simp
  have bind: "BindSingleton (Some NewContainer) (sample_key ''clock'') (Some (FactoryAllocates (\<lambda>n. FactoryReturns (Inr n)))) = Inr sample_singleton"
    by (simp add: sample_singleton_def BindSingleton_def bind_service_def sample_key_def key_id_def registered_def NewContainer_def)
  have two: "bind_service (Some sample_singleton) (sample_key ''session'') LifetimeScoped
      (Some (FactoryAllocates (\<lambda>n. FactoryResolves (sample_key ''clock'') FactoryReturns))) = Inr sample_container"
    by (simp add: sample_container_def sample_singleton_def BindSingleton_def BindScoped_def bind_service_def sample_key_def key_id_def registered_def NewContainer_def)
  have run1: "container_run (\<lambda>v t. True) (=) (sample_singleton, new_instances) (sample_container, fst a)"
    using container_run.step_run[OF container_run.step_run[OF container_run.done_run container_step.binds[OF two]]
        container_step.resolves[of "\<lambda>v t. True" sample_container "Some 1" "sample_key ''session''" new_instances "fst a" "snd a"]]
    by (simp add: a_def)
  have run2: "container_run (\<lambda>v t. True) (=) (sample_container, fst a) (sample_container, fst b)"
    using container_run.step_run[OF container_run.done_run
        container_step.resolves[of "\<lambda>v t. True" sample_container "Some 2" "sample_key ''session''" "fst a" "fst b" "snd b"]]
    by (simp add: b_def)
  have "?R None (sample_key ''clock'') (fst b) = (fst b, Inr 1)"
    using singleton_one_instance[OF bind run1 _ run2, of None] vals by blast
  moreover have "a = (fst a, Inr 1)" "b = (fst b, Inr 1)" using vals by (simp_all add: prod_eq_iff)
  ultimately show ?thesis unfolding a_def b_def by metis
qed

end
