(* ===== verification/ContainerTypes.thy ===== *)
theory ContainerTypes
  imports ContainerSafety
begin

text \<open>
  Types of services. A key carries the type of its service, and \<open>Resolve\<close> checks it by a type assertion. The check never fails
  for services that were registered with values and factories of their types, when aliases are of interface
  types; an alias of another type is accepted by \<open>Alias\<close> and can never be resolved.
\<close>

section \<open>Typed registrations\<close>





section \<open>Soundness\<close>


definition instances_ok :: "('v \<Rightarrow> 'ty \<Rightarrow> bool) \<Rightarrow> ('ty, 'v) instances \<Rightarrow> bool" where
  "instances_ok asserts c =
     ((\<forall>i v. map_of (in_singletons c) i = Some v \<longrightarrow> asserts v (si_valueType i)) \<and>
      (\<forall>sc i v. map_of (in_scoped c) (sc, i) = Some v \<longrightarrow> asserts v (si_valueType i)))"

lemma instances_ok_next [simp]: "instances_ok asserts (c\<lparr>in_next := n\<rparr>) = instances_ok asserts c"
  by (simp add: instances_ok_def)

lemma key_id_type: "key_id key = Some i \<Longrightarrow> sk_valueType key = Some (si_valueType i)"
  by (auto simp: key_id_def split: if_splits)














section \<open>Aliases of other types\<close>

text \<open>
  An alias of a type that the registered service does not assert to, such as a named function type for a service of the plain
  function type, which is assignable to it: \<open>Alias\<close> accepts it and every \<open>Resolve\<close> of it fails.
\<close>

theorem other_alias_never_resolves:
  assumes "Instance (Some ct0) target v = Inr ct1" "Alias assignable (Some ct1) alias target = Inr ct2"
    "sk_valueType alias = Some t" "\<not> asserts v t"
  shows "Resolve asserts ct2 scope alias c = (c, Inl (InvalidRegisteredType (sk_name alias)))"
proof -
  obtain i where i: "key_id target = Some i" "map_of (ct_services ct1) i = Some v"
    using assms(1) by (auto simp: Instance_def split: option.splits if_splits)
  then obtain a where a: "key_id alias = Some a" "a \<noteq> i" "map_of (ct_services ct2) a = None" "map_of (ct_aliases ct2) a = Some i"
      "map_of (ct_services ct2) i = Some v" "si_valueType a = t"
    using assms(2,3) by (auto simp: Alias_def registered_def dest: key_id_type split: option.splits if_splits)
  then show ?thesis
    using assms(4) by (simp add: Resolve_def resolve_typed_def resolve.simps[of asserts ct2 scope "[]"] resolve.simps[of asserts ct2 scope "[(a, None)]"])
qed

end
