(* ===== verification/Migrations.thy ===== *)
theory Migrations
  imports GoStrings "HOL-Library.Multiset"
begin

text \<open>
  Database migrations: \<open>src/backend/framework/migrations.go\<close> with the transactions of \<open>database.go\<close>. The state of the database is a
  parameter \<open>'d\<close>; the callbacks of migrations are functions on it, which may fail or panic, and so are the operations of
  the migration store, which is an interface. A transaction that is not committed leaves the
  database as it was; the outcomes of beginning, committing and rolling back are arguments, by the version migrated.
  Runners are not nil, and the two mutexes of a runner make its operations run one after another.
\<close>

section \<open>Data\<close>

datatype callback_end = CallbackOk | CallbackError string | CallbackPanic string

type_synonym 'd MigrationFunc = "'d \<Rightarrow> 'd \<times> callback_end"

record 'd Migration =
  mg_Version :: string
  mg_Name :: string
  mg_Up :: "'d MigrationFunc option"
  mg_Down :: "'d MigrationFunc option"
  mg_DisableTransaction :: bool

record AppliedMigration =
  am_Version :: string
  am_Name :: string
  am_Batch :: int

record MigrationRunResult =
  rr_Batch :: int
  rr_Applied :: "AppliedMigration list"

record MigrationRollbackResult =
  rb_Batch :: int
  rb_RolledBack :: "AppliedMigration list"

record MigrationStatus =
  st_Version :: string
  st_Name :: string
  st_Applied :: bool
  st_Batch :: int

datatype MigrationDirection = MigrationDirectionUp | MigrationDirectionDown

datatype migration_error =
    ErrMigrationRunnerUnavailable | ErrMigrationContextUnavailable | ErrInvalidMigration | ErrMigrationAlreadyDefined string
  | ErrMigrationRegistrationClosed | ErrMigrationStoreFailed string string | ErrMigrationHistoryInvalid string
  | ErrMigrationDefinitionMissing string | ErrMigrationNameMismatch string | ErrMigrationDownUnavailable string
  | ErrMigrationPanicked string | MigrationCallbackError string | MigrationContextError ctx_error
  | ErrTransactionAlreadyActive | ErrTransactionBeginFailed | ErrTransactionCommitFailed | ErrTransactionRollbackFailed migration_error
  | MigrationFailure MigrationDirection AppliedMigration migration_error

record 'd MigrationStore =
  ms_Ensure :: "'d \<Rightarrow> 'd \<times> string option"
  ms_Applied :: "'d \<Rightarrow> string + AppliedMigration list"
  ms_Record :: "AppliedMigration \<Rightarrow> 'd \<Rightarrow> 'd \<times> string option"
  ms_Remove :: "string \<Rightarrow> 'd \<Rightarrow> 'd \<times> string option"

record 'd MigrationRunner =
  mr_migrations :: "(string, 'd Migration) gomap"
  mr_registrationClosed :: bool

record transaction_io =
  ti_beginFails :: bool
  ti_commitFails :: bool
  ti_rollbackFails :: bool

section \<open>Registration\<close>

fun normalize_migrations :: "'d MigrationRunner \<Rightarrow> string list \<Rightarrow> 'd Migration list \<Rightarrow> migration_error + 'd Migration list" where
  "normalize_migrations runner seen [] = Inr []"
| "normalize_migrations runner seen (m # ms) =
     (let version = trim_space (mg_Version m); name = trim_space (mg_Name m) in
      if version = [] \<or> 255 < length version \<or> name = [] \<or> 255 < length name \<or> mg_Up m = None then Inl ErrInvalidMigration
      else if map_of (mr_migrations runner) version \<noteq> None then Inl (ErrMigrationAlreadyDefined version)
      else if version \<in> set seen then Inl (ErrMigrationAlreadyDefined version)
      else case normalize_migrations runner (version # seen) ms of
        Inl e \<Rightarrow> Inl e
      | Inr rest \<Rightarrow> Inr (m\<lparr>mg_Version := version, mg_Name := name\<rparr> # rest))"

definition RegisterMigrations :: "'d MigrationRunner option \<Rightarrow> 'd Migration list \<Rightarrow> migration_error + 'd MigrationRunner" where
  "RegisterMigrations runner ms =
     (case runner of
        None \<Rightarrow> Inl ErrMigrationRunnerUnavailable
      | Some r \<Rightarrow>
          if mr_registrationClosed r then Inl ErrMigrationRegistrationClosed
          else case normalize_migrations r [] ms of
            Inl e \<Rightarrow> Inl e
          | Inr normalized \<Rightarrow> Inr (r\<lparr>mr_migrations := fold (\<lambda>m. AList.update (mg_Version m) m) normalized (mr_migrations r)\<rparr>))"

definition migration_snapshot :: "'d MigrationRunner \<Rightarrow> 'd Migration list" where
  "migration_snapshot runner = sort_key mg_Version (map snd (mr_migrations runner))"

definition take_snapshot :: "bool \<Rightarrow> 'd MigrationRunner \<Rightarrow> 'd MigrationRunner \<times> 'd Migration list" where
  "take_snapshot closeRegistration runner =
     (let r = (if closeRegistration then runner\<lparr>mr_registrationClosed := True\<rparr> else runner) in (r, migration_snapshot r))"

section \<open>Running\<close>

definition validateContext :: "go_context \<Rightarrow> bool \<Rightarrow> migration_error option" where
  "validateContext ctx active =
     (if ctx = NilContext then Some ErrMigrationContextUnavailable
      else case ctx_err ctx of
        Some e \<Rightarrow> Some (MigrationContextError e)
      | None \<Rightarrow> if active then Some ErrTransactionAlreadyActive else None)"

definition definitions_of :: "'d Migration list \<Rightarrow> string \<Rightarrow> 'd Migration option" where
  "definitions_of migrations v = map_of (map (\<lambda>m. (mg_Version m, m)) migrations) v"

fun check_applied :: "'d Migration list \<Rightarrow> string list \<Rightarrow> AppliedMigration list \<Rightarrow> migration_error option" where
  "check_applied migrations seen [] = None"
| "check_applied migrations seen (record # rest) =
     (if trim_space (am_Version record) = [] \<or> trim_space (am_Name record) = [] \<or> am_Batch record \<le> 0
      then Some (ErrMigrationHistoryInvalid ''malformed applied migration'')
      else if am_Version record \<in> set seen then Some (ErrMigrationHistoryInvalid (''duplicate version '' @ am_Version record))
      else case definitions_of migrations (am_Version record) of
        None \<Rightarrow> Some (ErrMigrationDefinitionMissing (am_Version record))
      | Some m \<Rightarrow>
          if mg_Name m \<noteq> am_Name record then Some (ErrMigrationNameMismatch (am_Version record))
          else check_applied migrations (am_Version record # seen) rest)"

definition loadApplied :: "'d MigrationStore \<Rightarrow> 'd Migration list \<Rightarrow> 'd \<Rightarrow> 'd \<times> (migration_error + AppliedMigration list)" where
  "loadApplied store migrations d =
     (case ms_Ensure store d of
        (d1, Some e) \<Rightarrow> (d1, Inl (ErrMigrationStoreFailed ''ensure'' e))
      | (d1, None) \<Rightarrow>
          (case ms_Applied store d1 of
             Inl e \<Rightarrow> (d1, Inl (ErrMigrationStoreFailed ''list applied'' e))
           | Inr applied \<Rightarrow>
               (case check_applied migrations [] applied of
                  Some e \<Rightarrow> (d1, Inl e)
                | None \<Rightarrow> (d1, Inr (sort_key am_Version applied)))))"

definition WithinTransaction :: "transaction_io \<Rightarrow> ('d \<Rightarrow> 'd \<times> migration_error option) \<Rightarrow> 'd \<Rightarrow> 'd \<times> migration_error option" where
  "WithinTransaction io callback d =
     (if ti_beginFails io then (d, Some ErrTransactionBeginFailed)
      else case callback d of
        (d', Some e) \<Rightarrow> (d, Some (if ti_rollbackFails io then ErrTransactionRollbackFailed e else e))
      | (d', None) \<Rightarrow> if ti_commitFails io then (d, Some ErrTransactionCommitFailed) else (d', None))"

definition execute_migration :: "transaction_io \<Rightarrow> bool \<Rightarrow> ('d \<Rightarrow> 'd \<times> migration_error option) \<Rightarrow> 'd \<Rightarrow> 'd \<times> migration_error option" where
  "execute_migration io disableTransaction operation d = (if disableTransaction then operation d else WithinTransaction io operation d)"

definition invokeMigration :: "'d MigrationFunc \<Rightarrow> 'd \<Rightarrow> 'd \<times> migration_error option" where
  "invokeMigration callback d =
     (case callback d of
        (d', CallbackOk) \<Rightarrow> (d', None)
      | (d', CallbackError e) \<Rightarrow> (d', Some (MigrationCallbackError e))
      | (d', CallbackPanic e) \<Rightarrow> (d', Some (ErrMigrationPanicked e)))"

text \<open>A callback and then the store: the operation that both directions execute_migration. A nil callback would panic, which is recovered.\<close>

definition callback_then :: "'d MigrationFunc option \<Rightarrow> string \<Rightarrow> ('d \<Rightarrow> 'd \<times> string option) \<Rightarrow> 'd \<Rightarrow> 'd \<times> migration_error option" where
  "callback_then callback name store_op d =
     (case (case callback of None \<Rightarrow> (d, Some (ErrMigrationPanicked ''nil'')) | Some f \<Rightarrow> invokeMigration f d) of
        (d', Some e) \<Rightarrow> (d', Some e)
      | (d', None) \<Rightarrow>
          (case store_op d' of
             (d'', Some e) \<Rightarrow> (d'', Some (ErrMigrationStoreFailed name e))
           | (d'', None) \<Rightarrow> (d'', None)))"

fun run_pending ::
  "'d MigrationStore \<Rightarrow> (string \<Rightarrow> transaction_io) \<Rightarrow> int \<Rightarrow> 'd Migration list \<Rightarrow> AppliedMigration list \<Rightarrow> 'd
    \<Rightarrow> 'd \<times> AppliedMigration list \<times> migration_error option" where
  "run_pending store io batch [] applied d = (d, applied, None)"
| "run_pending store io batch (m # ms) applied d =
     (let record = \<lparr>am_Version = mg_Version m, am_Name = mg_Name m, am_Batch = batch\<rparr> in
      case execute_migration (io (mg_Version m)) (mg_DisableTransaction m) (callback_then (mg_Up m) ''record'' (ms_Record store record)) d of
        (d', Some e) \<Rightarrow> (d', applied, Some (MigrationFailure MigrationDirectionUp record e))
      | (d', None) \<Rightarrow> run_pending store io batch ms (applied @ [record]) d')"

fun latest_batch :: "int \<Rightarrow> AppliedMigration list \<Rightarrow> int" where
  "latest_batch n [] = n"
| "latest_batch n (r # rs) = latest_batch (if am_Batch r > n then am_Batch r else n) rs"

definition no_run :: MigrationRunResult where "no_run = \<lparr>rr_Batch = 0, rr_Applied = []\<rparr>"

definition no_rollback :: MigrationRollbackResult where "no_rollback = \<lparr>rb_Batch = 0, rb_RolledBack = []\<rparr>"

definition Migrate ::
  "'d MigrationStore \<Rightarrow> go_context \<Rightarrow> bool \<Rightarrow> (string \<Rightarrow> transaction_io) \<Rightarrow> 'd MigrationRunner \<Rightarrow> 'd
    \<Rightarrow> 'd MigrationRunner \<times> 'd \<times> MigrationRunResult \<times> migration_error option" where
  "Migrate store ctx active io runner d =
     (case validateContext ctx active of
        Some e \<Rightarrow> (runner, d, no_run, Some e)
      | None \<Rightarrow>
          (case take_snapshot True runner of
             (runner', migrations) \<Rightarrow>
               (case loadApplied store migrations d of
                  (d1, Inl e) \<Rightarrow> (runner', d1, no_run, Some e)
                | (d1, Inr applied) \<Rightarrow>
                    let latest = latest_batch 0 applied;
                        pending = filter (\<lambda>m. mg_Version m \<notin> am_Version ` set applied) migrations
                    in if latest = 2 ^ 63 - 1 then (runner', d1, no_run, Some (ErrMigrationHistoryInvalid ''migration batch overflow''))
                       else if pending = [] then (runner', d1, no_run, None)
                       else case run_pending store io (latest + 1) pending [] d1 of
                         (d2, done_list, err) \<Rightarrow> (runner', d2, \<lparr>rr_Batch = latest + 1, rr_Applied = done_list\<rparr>, err))))"

fun find_down :: "'d Migration list \<Rightarrow> AppliedMigration list \<Rightarrow> migration_error option" where
  "find_down migrations [] = None"
| "find_down migrations (r # rs) =
     (case definitions_of migrations (am_Version r) of
        Some m \<Rightarrow> if mg_Down m = None then Some (ErrMigrationDownUnavailable (am_Version r)) else find_down migrations rs
      | None \<Rightarrow> Some (ErrMigrationDownUnavailable (am_Version r)))"

fun run_rollback ::
  "'d MigrationStore \<Rightarrow> (string \<Rightarrow> transaction_io) \<Rightarrow> 'd Migration list \<Rightarrow> AppliedMigration list \<Rightarrow> AppliedMigration list \<Rightarrow> 'd
    \<Rightarrow> 'd \<times> AppliedMigration list \<times> migration_error option" where
  "run_rollback store io migrations [] rolled d = (d, rolled, None)"
| "run_rollback store io migrations (r # rs) rolled d =
     (let m = definitions_of migrations (am_Version r);
          down = Option.bind m mg_Down; direct = (case m of Some x \<Rightarrow> mg_DisableTransaction x | None \<Rightarrow> False)
      in case execute_migration (io (am_Version r)) direct (callback_then down ''remove'' (ms_Remove store (am_Version r))) d of
        (d', Some e) \<Rightarrow> (d', rolled, Some (MigrationFailure MigrationDirectionDown r e))
      | (d', None) \<Rightarrow> run_rollback store io migrations rs (rolled @ [r]) d')"

definition Rollback ::
  "'d MigrationStore \<Rightarrow> go_context \<Rightarrow> bool \<Rightarrow> (string \<Rightarrow> transaction_io) \<Rightarrow> 'd MigrationRunner \<Rightarrow> 'd
    \<Rightarrow> 'd MigrationRunner \<times> 'd \<times> MigrationRollbackResult \<times> migration_error option" where
  "Rollback store ctx active io runner d =
     (case validateContext ctx active of
        Some e \<Rightarrow> (runner, d, no_rollback, Some e)
      | None \<Rightarrow>
          (case take_snapshot True runner of
             (runner', migrations) \<Rightarrow>
               (case loadApplied store migrations d of
                  (d1, Inl e) \<Rightarrow> (runner', d1, no_rollback, Some e)
                | (d1, Inr applied) \<Rightarrow>
                    let latest = latest_batch 0 applied; batch = filter (\<lambda>r. am_Batch r = latest) (rev applied)
                    in if latest = 0 then (runner', d1, no_rollback, None)
                       else case find_down migrations batch of
                         Some e \<Rightarrow> (runner', d1, no_rollback, Some e)
                       | None \<Rightarrow>
                           (case run_rollback store io migrations batch [] d1 of
                              (d2, rolled, err) \<Rightarrow> (runner', d2, \<lparr>rb_Batch = latest, rb_RolledBack = rolled\<rparr>, err)))))"

definition MigrationsStatus ::
  "'d MigrationStore \<Rightarrow> go_context \<Rightarrow> bool \<Rightarrow> 'd MigrationRunner \<Rightarrow> 'd \<Rightarrow> 'd \<times> (migration_error + MigrationStatus list)" where
  "MigrationsStatus store ctx active runner d =
     (case validateContext ctx active of
        Some e \<Rightarrow> (d, Inl e)
      | None \<Rightarrow>
          (case loadApplied store (migration_snapshot runner) d of
             (d1, Inl e) \<Rightarrow> (d1, Inl e)
           | (d1, Inr applied) \<Rightarrow>
               (d1, Inr (map (\<lambda>m. let r = map_of (map (\<lambda>a. (am_Version a, a)) applied) (mg_Version m)
                                  in \<lparr>st_Version = mg_Version m, st_Name = mg_Name m, st_Applied = (r \<noteq> None),
                                      st_Batch = (case r of Some a \<Rightarrow> am_Batch a | None \<Rightarrow> 0)\<rparr>) (migration_snapshot runner)))))"

end
