(* ===== verification/MigrationHistory.thy ===== *)
theory MigrationHistory
  imports Migrations
begin

text \<open>
  The history of migrations. \<open>rows\<close> is the history that the migration store keeps in the database; the laws of a store are
  hypotheses. \<open>Migrate\<close> extends the history by what it reports as applied, whether it fails or not,
  and \<open>Rollback\<close> removes the latest batch and nothing else.
\<close>

section \<open>The contract of a migration store\<close>




section \<open>One migration\<close>




section \<open>Runs\<close>




section \<open>The latest batch\<close>






section \<open>Migrate and Rollback\<close>











end
