(* ===== verification/ResourceBroker.thy ===== *)
theory ResourceBroker
  imports GoStrings "HOL-Library.Multiset"
begin

text \<open>
  The broker of resource leases: \<open>src/backend/framework/resource_broker.go\<close>. A lease is the number by which the resolver, user code,
  identifies it; \<open>mac\<close> is HMAC-SHA-256 as a function of key and nonce. \<open>Grant\<close>, \<open>Release\<close> and \<open>Close\<close> are modelled by their critical sections and
  as sequences of them; releasing a lease is recorded by the callers of these sections.
\<close>

section \<open>Data\<close>

definition defaultResourceBookmarkMaxBytes :: int where "defaultResourceBookmarkMaxBytes = 1048576"
definition defaultResourceGrantLimit :: int where "defaultResourceGrantLimit = 64"
definition resourceCapabilityNonceBytes :: nat where "resourceCapabilityNonceBytes = 32"
definition resourceCapabilityMACBytes :: nat where "resourceCapabilityMACBytes = 16"
definition resourceCapabilityBytes :: nat where "resourceCapabilityBytes = resourceCapabilityNonceBytes + resourceCapabilityMACBytes"

datatype resource_error =
    ErrResourceBookmarkUnavailable | ErrResourceBookmarkInvalid | ErrResourceBookmarkTooLarge | ErrResourceBookmarkStale
  | ErrResourceBookmarkResolve | ErrResourceBookmarkAccess | ErrResourceBrokerOptions | ErrResourceBrokerClosed | ErrResourceGrantLimit
  | ErrResourceCapabilityInvalid | ErrResourceCapabilityNotFound | ErrResourceCapabilityCreate | ErrResourceLeaseInvalid
  | ErrResourceLeaseRelease | OtherResourceError string

record ResourceBrokerOptions =
  bo_MaxBookmarkBytes :: int
  bo_MaxActiveGrants :: int

record resourceLeaseEntry =
  le_lease :: nat
  le_path :: string

record ResourceBroker =
  rk_maxBookmarkBytes :: int
  rk_maxActiveGrants :: int
  rk_capabilityKey :: string
  rk_leases :: "(string, resourceLeaseEntry) gomap"
  rk_pending :: int
  rk_active :: int
  rk_closed :: bool

text \<open>\<open>key\<close> is what reading random bytes gives, \<open>None\<close> for an error.\<close>

definition NewResourceBroker :: "bool \<Rightarrow> ResourceBrokerOptions \<Rightarrow> string option \<Rightarrow> resource_error + ResourceBroker" where
  "NewResourceBroker nilResolver options key =
     (let maxBytes = (if bo_MaxBookmarkBytes options = 0 then defaultResourceBookmarkMaxBytes else bo_MaxBookmarkBytes options);
          maxGrants = (if bo_MaxActiveGrants options = 0 then defaultResourceGrantLimit else bo_MaxActiveGrants options)
      in if nilResolver then Inl ErrResourceBrokerOptions
         else if maxBytes < 0 \<or> maxGrants < 0 then Inl ErrResourceBrokerOptions
         else case key of
           None \<Rightarrow> Inl ErrResourceCapabilityCreate
         | Some k \<Rightarrow> Inr \<lparr>rk_maxBookmarkBytes = maxBytes, rk_maxActiveGrants = maxGrants, rk_capabilityKey = k, rk_leases = [],
                          rk_pending = 0, rk_active = 0, rk_closed = False\<rparr>)"

section \<open>Capabilities\<close>

text \<open>\<open>hex.DecodeString\<close>, which takes both cases.\<close>

definition hex_nibble :: "char \<Rightarrow> nat option" where
  "hex_nibble c =
     (if 48 \<le> byte c \<and> byte c \<le> 57 then Some (byte c - 48)
      else if 97 \<le> byte c \<and> byte c \<le> 102 then Some (byte c - 87)
      else if 65 \<le> byte c \<and> byte c \<le> 70 then Some (byte c - 55) else None)"

fun hex_decode :: "string \<Rightarrow> string option" where
  "hex_decode [] = Some []"
| "hex_decode [c] = None"
| "hex_decode (a # b # s) =
     (case (hex_nibble a, hex_nibble b, hex_decode s) of
        (Some x, Some y, Some r) \<Rightarrow> Some (char_of (16 * x + y) # r)
      | _ \<Rightarrow> None)"

definition validResourceBookmarkScope :: "string \<Rightarrow> bool" where
  "validResourceBookmarkScope scope = (scope = ''ephemeral'' \<or> scope = ''persistent'')"

definition validResourceCapability :: "string \<Rightarrow> bool" where
  "validResourceCapability capability = (length capability = resourceCapabilityBytes * 2 \<and> hex_decode capability \<noteq> None)"

definition capability_of :: "(string \<Rightarrow> string \<Rightarrow> string) \<Rightarrow> ResourceBroker \<Rightarrow> string \<Rightarrow> string" where
  "capability_of mac b nonce = hex_encode (nonce @ take resourceCapabilityMACBytes (mac (rk_capabilityKey b) nonce))"

definition capabilityBelongsToBroker :: "(string \<Rightarrow> string \<Rightarrow> string) \<Rightarrow> ResourceBroker \<Rightarrow> string \<Rightarrow> bool" where
  "capabilityBelongsToBroker mac b capability =
     (case hex_decode capability of
        None \<Rightarrow> False
      | Some v \<Rightarrow>
          length v = resourceCapabilityBytes \<and>
          drop resourceCapabilityNonceBytes v =
            take resourceCapabilityMACBytes (mac (rk_capabilityKey b) (take resourceCapabilityNonceBytes v)))"

text \<open>The nonces drawn, \<open>None\<close> for an error of the random source.\<close>

fun createCapability :: "(string \<Rightarrow> string \<Rightarrow> string) \<Rightarrow> nat \<Rightarrow> string option list \<Rightarrow> ResourceBroker \<Rightarrow> resource_error + string" where
  "createCapability mac 0 nonces b = Inl ErrResourceCapabilityCreate"
| "createCapability mac (Suc n) nonces b =
     (case nonces of
        Some nonce # rest \<Rightarrow>
          if map_of (rk_leases b) (capability_of mac b nonce) = None then Inr (capability_of mac b nonce)
          else createCapability mac n rest b
      | _ \<Rightarrow> Inl ErrResourceCapabilityCreate)"

definition sanitizeResourceBookmarkError :: "resource_error \<Rightarrow> resource_error" where
  "sanitizeResourceBookmarkError err =
     (if err \<in> {ErrResourceBookmarkUnavailable, ErrResourceBookmarkInvalid, ErrResourceBookmarkTooLarge, ErrResourceBookmarkStale,
                 ErrResourceBookmarkResolve, ErrResourceBookmarkAccess} then err else ErrResourceBookmarkResolve)"

section \<open>Granting\<close>

definition beginGrant :: "ResourceBroker \<Rightarrow> resource_error + ResourceBroker" where
  [op_defs]: "beginGrant b =
     (if rk_closed b then Inl ErrResourceBrokerClosed
      else if int (length (rk_leases b)) + rk_pending b \<ge> rk_maxActiveGrants b then Inl ErrResourceGrantLimit
      else Inr (b\<lparr>rk_pending := rk_pending b + 1, rk_active := rk_active b + 1\<rparr>))"

definition finishGrant :: "ResourceBroker \<Rightarrow> ResourceBroker" where
  [op_defs]: "finishGrant b = b\<lparr>rk_pending := rk_pending b - 1, rk_active := rk_active b - 1\<rparr>"

definition grant_begin :: "string \<Rightarrow> string \<Rightarrow> ResourceBroker \<Rightarrow> resource_error + ResourceBroker" where
  [op_defs]: "grant_begin bookmark scope b =
     (if bookmark = [] \<or> \<not> validResourceBookmarkScope scope then Inl ErrResourceBookmarkInvalid
      else if int (length bookmark) > rk_maxBookmarkBytes b then Inl ErrResourceBookmarkTooLarge
      else beginGrant b)"

datatype resolver_result = ResolverFails resource_error | ResolverNil | ResolverLease nat string

text \<open>What \<open>Grant\<close> does with the resolver's result: errors, with the lease to release, or the lease, its path and its new capability.\<close>

definition grant_resolved ::
  "(string \<Rightarrow> string \<Rightarrow> string) \<Rightarrow> string option list \<Rightarrow> resolver_result \<Rightarrow> ResourceBroker
    \<Rightarrow> (resource_error \<times> nat option) + (nat \<times> string \<times> string)" where
  [op_defs]: "grant_resolved mac nonces result b =
     (case result of
        ResolverFails e \<Rightarrow> Inl (sanitizeResourceBookmarkError e, None)
      | ResolverNil \<Rightarrow> Inl (ErrResourceLeaseInvalid, None)
      | ResolverLease l path \<Rightarrow>
          if trim_space path = [] then Inl (ErrResourceLeaseInvalid, Some l)
          else case createCapability mac 4 nonces b of
            Inl e \<Rightarrow> Inl (e, Some l)
          | Inr capability \<Rightarrow> Inr (l, path, capability))"

definition grant_store :: "nat \<Rightarrow> string \<Rightarrow> string \<Rightarrow> ResourceBroker \<Rightarrow> ResourceBroker \<times> ((resource_error \<times> nat option) + string)" where
  [op_defs]: "grant_store l path capability b =
     (if rk_closed b then (b, Inl (ErrResourceBrokerClosed, Some l))
      else (b\<lparr>rk_leases := AList.update capability \<lparr>le_lease = l, le_path = path\<rparr> (rk_leases b)\<rparr>, Inr capability))"

text \<open>\<open>Grant\<close> with no other call in between: the broker, the lease it released, and its result (errors of releasing are joined to it).\<close>

definition Grant ::
  "(string \<Rightarrow> string \<Rightarrow> string) \<Rightarrow> string \<Rightarrow> string \<Rightarrow> resolver_result \<Rightarrow> string option list \<Rightarrow> ResourceBroker
    \<Rightarrow> ResourceBroker \<times> nat option \<times> (resource_error + string)" where
  "Grant mac bookmark scope result nonces b =
     (case grant_begin bookmark scope b of
        Inl e \<Rightarrow> (b, None, Inl e)
      | Inr b1 \<Rightarrow>
          (case grant_resolved mac nonces result b1 of
             Inl (e, l) \<Rightarrow> (finishGrant b1, l, Inl e)
           | Inr (l, path, capability) \<Rightarrow>
               (case grant_store l path capability b1 of
                  (b2, Inl (e, r)) \<Rightarrow> (finishGrant b2, r, Inl e)
                | (b2, Inr c) \<Rightarrow> (finishGrant b2, None, Inr c))))"

section \<open>Using and releasing\<close>

definition ResolvePath :: "string \<Rightarrow> ResourceBroker \<Rightarrow> resource_error + string" where
  [op_defs]: "ResolvePath capability b =
     (if \<not> validResourceCapability capability then Inl ErrResourceCapabilityInvalid
      else if rk_closed b then Inl ErrResourceBrokerClosed
      else case map_of (rk_leases b) capability of
        None \<Rightarrow> Inl ErrResourceCapabilityNotFound
      | Some e \<Rightarrow> Inr (le_path e))"

text \<open>\<open>Release\<close> up to the call of the lease: \<open>Inl\<close> with what it returns without it, or the lease to release.\<close>

definition release_begin ::
  "(string \<Rightarrow> string \<Rightarrow> string) \<Rightarrow> string \<Rightarrow> ResourceBroker \<Rightarrow> ResourceBroker \<times> (resource_error option + nat)" where
  [op_defs]: "release_begin mac capability b =
     (if \<not> validResourceCapability capability then (b, Inl (Some ErrResourceCapabilityInvalid))
      else if rk_closed b then (b, Inl (Some ErrResourceBrokerClosed))
      else case map_of (rk_leases b) capability of
        None \<Rightarrow> (b, Inl (if capabilityBelongsToBroker mac b capability then None else Some ErrResourceCapabilityNotFound))
      | Some e \<Rightarrow> (b\<lparr>rk_leases := AList.delete capability (rk_leases b), rk_active := rk_active b + 1\<rparr>, Inr (le_lease e)))"

definition release_end :: "ResourceBroker \<Rightarrow> ResourceBroker" where
  [op_defs]: "release_end b = b\<lparr>rk_active := rk_active b - 1\<rparr>"

definition ReleaseCapability ::
  "(string \<Rightarrow> string \<Rightarrow> string) \<Rightarrow> string \<Rightarrow> bool \<Rightarrow> ResourceBroker \<Rightarrow> ResourceBroker \<times> nat option \<times> resource_error option" where
  "ReleaseCapability mac capability releaseFails b =
     (case release_begin mac capability b of
        (b1, Inl r) \<Rightarrow> (b1, None, r)
      | (b1, Inr l) \<Rightarrow> (release_end b1, Some l, if releaseFails then Some ErrResourceLeaseRelease else None))"

section \<open>Closing\<close>

definition broker_close_begin :: "ResourceBroker \<Rightarrow> ResourceBroker" where
  [op_defs]: "broker_close_begin b = b\<lparr>rk_closed := True\<rparr>"

text \<open>After the wait for active calls, the leases are taken; \<open>None\<close> while the wait lasts.\<close>

definition broker_close_collect :: "ResourceBroker \<Rightarrow> (ResourceBroker \<times> nat list) option" where
  [op_defs]: "broker_close_collect b =
     (if rk_closed b \<and> rk_active b = 0 then Some (b\<lparr>rk_leases := []\<rparr>, map (le_lease \<circ> snd) (rk_leases b)) else None)"

end
