(* ===== verification/ResourceBrokerSafety.thy ===== *)
theory ResourceBrokerSafety
  imports ResourceBroker
begin

text \<open>
  Leases under concurrent grants, releases and a close: each is released at most once, none while its capability resolves,
  no more than the limit are held, and after a close every lease that was ever obtained has been released. The resolver gives a new lease
  each time, and the nonces of capabilities are drawn from \<open>2 ^ 256\<close> and assumed not to repeat.
\<close>

section \<open>Interleavings\<close>

datatype grant_state = GrantResolving | GrantReady nat string string | GrantEnding

datatype close_phase = NotClosing | CloseWaits | CloseReleases "nat list" | CloseDone

record brokerage =
  bx_broker :: ResourceBroker
  bx_grants :: "grant_state list"
  bx_releasing :: "nat list"
  bx_close :: close_phase
  bx_obtained :: "nat list"
  bx_released :: "nat list"
  bx_used :: "string list"

definition new_brokerage :: "ResourceBroker \<Rightarrow> brokerage" where
  "new_brokerage b = \<lparr>bx_broker = b, bx_grants = [], bx_releasing = [], bx_close = NotClosing, bx_obtained = [], bx_released = [], bx_used = []\<rparr>"

fun leases_of :: "resolver_result \<Rightarrow> nat list" where
  "leases_of (ResolverLease l path) = [l]"
| "leases_of _ = []"

definition to_release :: "nat option \<Rightarrow> nat list" where
  "to_release r = (case r of None \<Rightarrow> [] | Some l \<Rightarrow> [l])"

inductive broker_step :: "(string \<Rightarrow> string \<Rightarrow> string) \<Rightarrow> brokerage \<Rightarrow> brokerage \<Rightarrow> bool" for mac where
  grant_starts: "grant_begin bookmark scope (bx_broker S) = Inr b \<Longrightarrow>
    broker_step mac S (S\<lparr>bx_broker := b, bx_grants := GrantResolving # bx_grants S\<rparr>)"
| grant_fails: "bx_grants S = xs @ GrantResolving # ys \<Longrightarrow> grant_resolved mac nonces result (bx_broker S) = Inl (e, r) \<Longrightarrow>
    set (leases_of result) \<inter> set (bx_obtained S) = {} \<Longrightarrow>
    broker_step mac S (S\<lparr>bx_grants := xs @ GrantEnding # ys, bx_obtained := leases_of result @ bx_obtained S, bx_released := to_release r @ bx_released S\<rparr>)"
| grant_resolves: "bx_grants S = xs @ GrantResolving # ys \<Longrightarrow> grant_resolved mac nonces result (bx_broker S) = Inr (l, path, cap) \<Longrightarrow>
    l \<notin> set (bx_obtained S) \<Longrightarrow> cap \<notin> set (bx_used S) \<Longrightarrow>
    broker_step mac S (S\<lparr>bx_grants := xs @ GrantReady l path cap # ys, bx_obtained := l # bx_obtained S, bx_used := cap # bx_used S\<rparr>)"
| grant_refused: "bx_grants S = xs @ GrantReady l path cap # ys \<Longrightarrow> grant_store l path cap (bx_broker S) = (b, Inl (e, r)) \<Longrightarrow>
    broker_step mac S (S\<lparr>bx_broker := b, bx_grants := xs @ GrantEnding # ys, bx_released := to_release r @ bx_released S\<rparr>)"
| grant_stores: "bx_grants S = xs @ GrantReady l path cap # ys \<Longrightarrow> grant_store l path cap (bx_broker S) = (b, Inr c) \<Longrightarrow>
    broker_step mac S (S\<lparr>bx_broker := b, bx_grants := xs @ GrantEnding # ys\<rparr>)"
| grant_ends: "bx_grants S = xs @ GrantEnding # ys \<Longrightarrow> broker_step mac S (S\<lparr>bx_broker := finishGrant (bx_broker S), bx_grants := xs @ ys\<rparr>)"
| release_starts: "release_begin mac cap (bx_broker S) = (b, Inr l) \<Longrightarrow> broker_step mac S (S\<lparr>bx_broker := b, bx_releasing := l # bx_releasing S\<rparr>)"
| release_ends: "bx_releasing S = xs @ l # ys \<Longrightarrow>
    broker_step mac S (S\<lparr>bx_broker := release_end (bx_broker S), bx_releasing := xs @ ys, bx_released := l # bx_released S\<rparr>)"
| close_starts: "bx_close S = NotClosing \<Longrightarrow> broker_step mac S (S\<lparr>bx_broker := broker_close_begin (bx_broker S), bx_close := CloseWaits\<rparr>)"
| close_collects: "bx_close S = CloseWaits \<Longrightarrow> broker_close_collect (bx_broker S) = Some (b, ls) \<Longrightarrow>
    broker_step mac S (S\<lparr>bx_broker := b, bx_close := CloseReleases ls\<rparr>)"
| close_releases: "bx_close S = CloseReleases (l # ls) \<Longrightarrow>
    broker_step mac S (S\<lparr>bx_close := CloseReleases ls, bx_released := l # bx_released S\<rparr>)"
| close_ends: "bx_close S = CloseReleases [] \<Longrightarrow> broker_step mac S (S\<lparr>bx_close := CloseDone\<rparr>)"

inductive broker_reach :: "(string \<Rightarrow> string \<Rightarrow> string) \<Rightarrow> brokerage \<Rightarrow> bool" for mac where
  starts: "NewResourceBroker nilResolver options key = Inr b \<Longrightarrow> broker_reach mac (new_brokerage b)"
| steps: "broker_reach mac S \<Longrightarrow> broker_step mac S S' \<Longrightarrow> broker_reach mac S'"

section \<open>The invariant\<close>

fun held :: "grant_state \<Rightarrow> nat list" where
  "held (GrantReady l path cap) = [l]"
| "held _ = []"

fun ready_cap :: "grant_state \<Rightarrow> string list" where
  "ready_cap (GrantReady l path cap) = [cap]"
| "ready_cap _ = []"

fun close_held :: "close_phase \<Rightarrow> nat list" where
  "close_held (CloseReleases ls) = ls"
| "close_held _ = []"

definition stored :: "ResourceBroker \<Rightarrow> nat list" where
  "stored b = map (le_lease \<circ> snd) (rk_leases b)"

text \<open>Every lease obtained is in exactly one place.\<close>

definition accounted :: "brokerage \<Rightarrow> bool" where
  "accounted S =
     (distinct (bx_obtained S) \<and>
      mset (bx_obtained S) = mset (bx_released S) + mset (stored (bx_broker S)) + mset (concat (map held (bx_grants S))) +
        mset (bx_releasing S) + mset (close_held (bx_close S)))"

definition counted :: "brokerage \<Rightarrow> bool" where
  "counted S =
     (rk_pending (bx_broker S) = int (length (bx_grants S)) \<and>
      rk_active (bx_broker S) = int (length (bx_grants S)) + int (length (bx_releasing S)) \<and>
      int (length (rk_leases (bx_broker S))) + int (length (filter (\<lambda>g. g \<noteq> GrantEnding) (bx_grants S))) \<le> rk_maxActiveGrants (bx_broker S) \<and>
      (rk_closed (bx_broker S) \<longleftrightarrow> bx_close S \<noteq> NotClosing) \<and>
      (bx_close S = NotClosing \<or> bx_close S = CloseWaits \<or>
       rk_leases (bx_broker S) = [] \<and> bx_grants S = [] \<and> bx_releasing S = []))"

definition caps_fresh :: "brokerage \<Rightarrow> bool" where
  "caps_fresh S =
     (gomap_wf (rk_leases (bx_broker S)) \<and> distinct (concat (map ready_cap (bx_grants S))) \<and>
      (\<forall>c \<in> set (concat (map ready_cap (bx_grants S))). c \<in> set (bx_used S) \<and> map_of (rk_leases (bx_broker S)) c = None) \<and>
      (\<forall>c. map_of (rk_leases (bx_broker S)) c \<noteq> None \<longrightarrow> c \<in> set (bx_used S)))"

lemma stored_update: "map_of (rk_leases b) cap = None \<Longrightarrow>
  stored (b\<lparr>rk_leases := AList.update cap e (rk_leases b)\<rparr>) = stored b @ [le_lease e]"
proof -
  have "map_of m cap = None \<Longrightarrow> AList.update cap e m = m @ [(cap, e)]" for m :: "(string, resourceLeaseEntry) gomap"
    by (induction m) (auto split: if_splits)
  then show "map_of (rk_leases b) cap = None \<Longrightarrow> ?thesis" by (simp add: stored_def)
qed

lemma mset_delete:
  "gomap_wf m \<Longrightarrow> map_of m k = Some v \<Longrightarrow> mset (map f m) = mset (map f (AList.delete k m)) + {#f (k, v)#}"
proof (induction m)
  case (Cons kv m)
  show ?case
  proof (cases "fst kv = k")
    case True
    then have "k \<notin> fst ` set m" using Cons.prems by (auto simp: gomap_wf_def)
    then have "AList.delete k m = m" by (simp add: delete_id)
    then show ?thesis using True Cons.prems by (cases kv) (simp add: AList.delete_eq)
  next
    case False
    then show ?thesis using Cons by (cases kv) (auto simp: gomap_wf_def)
  qed
qed simp

lemma stored_simps [simp]: "stored (b\<lparr>rk_pending := p, rk_active := a\<rparr>) = stored b" "stored (b\<lparr>rk_active := a\<rparr>) = stored b"
  "stored (b\<lparr>rk_closed := c\<rparr>) = stored b" "stored (b\<lparr>rk_pending := p\<rparr>) = stored b"
  by (simp_all add: stored_def)

lemma grant_resolved_lease:
  "grant_resolved mac nonces result b = Inr (l, path, cap) \<Longrightarrow> leases_of result = [l] \<and> map_of (rk_leases b) cap = None"
  "grant_resolved mac nonces result b = Inl (e, r) \<Longrightarrow> to_release r = leases_of result"
proof -
  have "createCapability mac n ns b = Inr c \<Longrightarrow> map_of (rk_leases b) c = None" for n ns c
    by (induction n arbitrary: ns) (auto split: list.splits option.splits if_splits)
  then show "grant_resolved mac nonces result b = Inr (l, path, cap) \<Longrightarrow> leases_of result = [l] \<and> map_of (rk_leases b) cap = None"
    by (auto simp: grant_resolved_def split: resolver_result.splits if_splits sum.splits)
  show "grant_resolved mac nonces result b = Inl (e, r) \<Longrightarrow> to_release r = leases_of result"
    by (auto simp: grant_resolved_def to_release_def split: resolver_result.splits if_splits sum.splits)
qed

lemma caps_fresh_step:
  assumes "broker_step mac S S'" "caps_fresh S"
  shows "caps_fresh S'"
  using assms
proof (induction rule: broker_step.induct)
  case (grant_resolves S xs ys nonces result l path cap)
  then show ?case using grant_resolved_lease(1)[OF grant_resolves(2)] by (force simp: caps_fresh_def)
qed (force simp: caps_fresh_def op_defs update_conv' delete_conv' split: if_splits option.splits)+

lemma counted_step:
  assumes "broker_step mac S S'" "counted S" "caps_fresh S"
  shows "counted S'"
  using assms
proof (induction rule: broker_step.induct)
  case (grant_starts bookmark scope S b)
  have "rk_pending (bx_broker S) = int (length (bx_grants S))" "int (length (rk_leases (bx_broker S))) + rk_pending (bx_broker S) < rk_maxActiveGrants (bx_broker S)"
    using grant_starts by (auto simp: counted_def op_defs split: if_splits)
  then have "int (length (rk_leases (bx_broker S))) + (1 + int (length (filter (\<lambda>g. g \<noteq> GrantEnding) (bx_grants S)))) \<le> rk_maxActiveGrants (bx_broker S)"
    using length_filter_le[of "\<lambda>g. g \<noteq> GrantEnding" "bx_grants S"] by linarith
  then show ?case using grant_starts by (auto simp: counted_def op_defs split: if_splits)
next
  case (grant_stores S xs l path cap ys b c)
  have "map_of (rk_leases (bx_broker S)) cap = None" using grant_stores by (auto simp: caps_fresh_def)
  then have "length (AList.update cap e (rk_leases (bx_broker S))) = Suc (length (rk_leases (bx_broker S)))" for e by (rule length_update_new)
  then show ?case using grant_stores by (auto simp: counted_def grant_store_def split: if_splits)
next
  case (release_starts cap S b l)
  have "int (length (AList.delete cap (rk_leases (bx_broker S)))) + int (length (filter (\<lambda>g. g \<noteq> GrantEnding) (bx_grants S)))
      \<le> rk_maxActiveGrants (bx_broker S)"
    using release_starts(2) length_delete_le[of cap "rk_leases (bx_broker S)"] unfolding counted_def by linarith
  then show ?case using release_starts by (auto simp: counted_def release_begin_def split: if_splits option.splits)
next
  case (close_collects S b ls)
  then have "int (length (bx_grants S)) + int (length (bx_releasing S)) = 0" by (auto simp: counted_def op_defs split: if_splits)
  then have "length (bx_grants S) = 0" "length (bx_releasing S) = 0" by linarith+
  then show ?case using close_collects by (auto simp: counted_def op_defs split: if_splits)
qed (auto simp: counted_def op_defs split: if_splits)

lemma accounted_step:
  assumes "broker_step mac S S'" "accounted S" "caps_fresh S" "counted S"
  shows "accounted S'"
  using assms
proof (induction rule: broker_step.induct)
  case (grant_fails S xs ys nonces result e r)
  then show ?case using grant_resolved_lease(2)[OF grant_fails(2)] by (cases result) (auto simp: accounted_def)
next
  case (grant_resolves S xs ys nonces result l path cap)
  then show ?case by (auto simp: accounted_def)
next
  case (grant_stores S xs l path cap ys b c)
  have "map_of (rk_leases (bx_broker S)) cap = None" using grant_stores by (auto simp: caps_fresh_def)
  then show ?case using grant_stores by (auto simp: accounted_def grant_store_def stored_update split: if_splits)
next
  case (release_starts cap S b l)
  obtain e where e: "map_of (rk_leases (bx_broker S)) cap = Some e" "l = le_lease e"
      "b = (bx_broker S)\<lparr>rk_leases := AList.delete cap (rk_leases (bx_broker S)), rk_active := rk_active (bx_broker S) + 1\<rparr>"
    using release_starts(1) by (auto simp: release_begin_def split: if_splits option.splits)
  have "mset (stored (bx_broker S)) = mset (map (le_lease \<circ> snd) (AList.delete cap (rk_leases (bx_broker S)))) + {#l#}"
    using mset_delete[of "rk_leases (bx_broker S)" cap e "le_lease \<circ> snd"] release_starts(3) e by (simp add: stored_def caps_fresh_def)
  then show ?case using release_starts e by (simp add: accounted_def stored_def)
next
  case (close_collects S b ls)
  then show ?case by (auto simp: accounted_def op_defs stored_def split: if_splits)
qed (auto simp: accounted_def op_defs to_release_def split: if_splits option.splits)

definition broker_inv :: "brokerage \<Rightarrow> bool" where
  "broker_inv S = (accounted S \<and> counted S \<and> caps_fresh S)"

lemma broker_reach_inv: "broker_reach mac S \<Longrightarrow> broker_inv S"
proof (induction rule: broker_reach.induct)
  case starts
  then show ?case
    by (auto simp: broker_inv_def NewResourceBroker_def Let_def new_brokerage_def accounted_def counted_def caps_fresh_def stored_def split: if_splits option.splits)
next
  case steps
  then show ?case unfolding broker_inv_def using accounted_step counted_step caps_fresh_step by blast
qed

text \<open>
  C11. Leases are released exactly once. However grants, releases and a close interleave: no lease is released twice, only leases that were obtained are
  released, the broker holds at most \<open>MaxActiveGrants\<close> of them, a capability resolves to a path only while its lease has not been
  released, and when the close is done every lease ever obtained has been released.
\<close>

theorem leases_released_once:
  assumes "broker_reach mac S"
  shows "distinct (bx_released S) \<and> set (bx_released S) \<subseteq> set (bx_obtained S) \<and>
    int (length (rk_leases (bx_broker S))) \<le> rk_maxActiveGrants (bx_broker S) \<and>
    (\<forall>cap path. ResolvePath cap (bx_broker S) = Inr path \<longrightarrow>
       (\<exists>e. map_of (rk_leases (bx_broker S)) cap = Some e \<and> le_path e = path \<and> le_lease e \<in> set (bx_obtained S) - set (bx_released S))) \<and>
    (bx_close S = CloseDone \<longrightarrow> mset (bx_released S) = mset (bx_obtained S))"
proof -
  have inv: "accounted S" "counted S" "caps_fresh S" using broker_reach_inv[OF assms] by (simp_all add: broker_inv_def)
  let ?rest = "stored (bx_broker S) @ concat (map held (bx_grants S)) @ bx_releasing S @ close_held (bx_close S)"
  have eq: "mset (bx_obtained S) = mset (bx_released S @ ?rest)" and dist: "distinct (bx_obtained S)"
    using inv(1) by (simp_all add: accounted_def)
  have "distinct (bx_released S @ ?rest)" using dist mset_eq_imp_distinct_iff[OF eq] by blast
  then have d: "distinct (bx_released S)" "set ?rest \<inter> set (bx_released S) = {}" unfolding distinct_append by blast+
  have sub: "set (bx_obtained S) = set (bx_released S) \<union> set ?rest" using mset_eq_setD[OF eq] by simp
  have path: "\<exists>e. map_of (rk_leases (bx_broker S)) cap = Some e \<and> le_path e = p \<and> le_lease e \<in> set (bx_obtained S) - set (bx_released S)"
    if found: "ResolvePath cap (bx_broker S) = Inr p" for cap p
  proof -
    obtain e where e: "map_of (rk_leases (bx_broker S)) cap = Some e" "le_path e = p" using found by (auto simp: ResolvePath_def split: if_splits option.splits)
    then have "le_lease e \<in> set (stored (bx_broker S))" by (force simp: stored_def dest: map_of_SomeD)
    then show ?thesis using e sub d(2) by auto
  qed
  have "bx_close S = CloseDone \<Longrightarrow> ?rest = []" using inv(2) by (auto simp: counted_def stored_def)
  then show ?thesis using d(1) sub path inv(2) eq by (auto simp: counted_def)
qed


text \<open>A run: a lease is granted, the broker is closed, and the close releases it.\<close>

definition sample_broker :: ResourceBroker where
  "sample_broker = \<lparr>rk_maxBookmarkBytes = 1048576, rk_maxActiveGrants = 64, rk_capabilityKey = ''k'', rk_leases = [], rk_pending = 0, rk_active = 0, rk_closed = False\<rparr>"

definition sample_mac :: "string \<Rightarrow> string \<Rightarrow> string" where
  "sample_mac key nonce = replicate 32 (CHR ''m'')"

definition sample_nonce :: string where
  "sample_nonce = replicate 32 (CHR ''n'')"

definition sample_capability :: string where
  "sample_capability = capability_of sample_mac sample_broker sample_nonce"

definition sample_granted :: brokerage where
  "sample_granted = \<lparr>bx_broker = sample_broker\<lparr>rk_leases := [(sample_capability, \<lparr>le_lease = 7, le_path = ''/r''\<rparr>)]\<rparr>, bx_grants = [], bx_releasing = [],
     bx_close = NotClosing, bx_obtained = [7], bx_released = [], bx_used = [sample_capability]\<rparr>"

lemma sample_granted_reach: "broker_reach sample_mac sample_granted"
proof -
  have "NewResourceBroker False \<lparr>bo_MaxBookmarkBytes = 0, bo_MaxActiveGrants = 0\<rparr> (Some ''k'') = Inr sample_broker" by code_simp
  note r0 = broker_reach.starts[OF this, of sample_mac]
  let ?b = "sample_broker\<lparr>rk_pending := 1, rk_active := 1\<rparr>"
  have "grant_begin ''x'' ''ephemeral'' (bx_broker (new_brokerage sample_broker)) = Inr ?b"
    by (simp add: grant_begin_def beginGrant_def new_brokerage_def sample_broker_def validResourceBookmarkScope_def)
  note r1 = broker_reach.steps[OF r0 broker_step.grant_starts[OF this]]
  let ?S1 = "(new_brokerage sample_broker)\<lparr>bx_broker := ?b, bx_grants := GrantResolving # bx_grants (new_brokerage sample_broker)\<rparr>"
  have cap: "capability_of sample_mac ?b sample_nonce = sample_capability" by (simp add: sample_capability_def capability_of_def)
  have "trim_space ''/r'' = ''/r''" by code_simp
  then have "grant_resolved sample_mac [Some sample_nonce] (ResolverLease 7 ''/r'') (bx_broker ?S1) = Inr (7, ''/r'', sample_capability)"
    using cap by (simp add: grant_resolved_def numeral_eq_Suc sample_broker_def)
  from broker_reach.steps[OF r1 broker_step.grant_resolves[OF _ this, of "[]" "[]"]]
  have r2: "broker_reach sample_mac (?S1\<lparr>bx_grants := [GrantReady 7 ''/r'' sample_capability], bx_obtained := [7], bx_used := [sample_capability]\<rparr>)"
    by (simp add: new_brokerage_def)
  let ?S2 = "?S1\<lparr>bx_grants := [GrantReady 7 ''/r'' sample_capability], bx_obtained := [7], bx_used := [sample_capability]\<rparr>"
  have "grant_store 7 ''/r'' sample_capability (bx_broker ?S2) = (?b\<lparr>rk_leases := [(sample_capability, \<lparr>le_lease = 7, le_path = ''/r''\<rparr>)]\<rparr>, Inr sample_capability)"
    by (simp add: grant_store_def sample_broker_def)
  note r3 = broker_reach.steps[OF r2 broker_step.grant_stores[OF _ this, of "[]" "[]"], simplified]
  show ?thesis
    using broker_reach.steps[OF r3 broker_step.grant_ends[of _ "[]" "[]"]]
    by (simp add: new_brokerage_def sample_granted_def finishGrant_def sample_broker_def)
qed

theorem leases_released_once_witness:
  "\<exists>S. broker_reach sample_mac S \<and> bx_close S = CloseDone \<and> bx_obtained S = [7] \<and> mset (bx_released S) = {#7#}"
proof -
  let ?S1 = "sample_granted\<lparr>bx_broker := broker_close_begin (bx_broker sample_granted), bx_close := CloseWaits\<rparr>"
  have r1: "broker_reach sample_mac ?S1" by (rule broker_reach.steps[OF sample_granted_reach broker_step.close_starts]) (simp add: sample_granted_def)
  have "broker_close_collect (bx_broker ?S1) = Some ((bx_broker ?S1)\<lparr>rk_leases := []\<rparr>, [7])"
    by (simp add: broker_close_collect_def broker_close_begin_def sample_granted_def sample_broker_def)
  note r2 = broker_reach.steps[OF r1 broker_step.close_collects[OF _ this], simplified]
  note r3 = broker_reach.steps[OF r2 broker_step.close_releases[of _ 7 "[]"], simplified]
  note r4 = broker_reach.steps[OF r3 broker_step.close_ends, simplified]
  let ?S4 = "sample_granted\<lparr>bx_broker := broker_close_begin (bx_broker sample_granted)\<lparr>rk_leases := []\<rparr>,
    bx_released := 7 # bx_released sample_granted, bx_close := CloseDone\<rparr>"
  have all: "mset (bx_released ?S4) = mset (bx_obtained ?S4)" using leases_released_once[OF r4] by simp
  have some: "bx_obtained ?S4 = [7]" by (simp add: sample_granted_def)
  show ?thesis by (intro exI[of _ ?S4] conjI, rule r4, simp, rule some) (simp only: all some mset.simps)
qed

section \<open>Capabilities in capitals\<close>

text \<open>
  Hexadecimal text is accepted in both cases, but leases are looked up by the text: releasing an active lease by its capability in capitals
  reports success and releases nothing.
\<close>

theorem capital_capability_not_released:
  assumes "map_of (rk_leases b) cap = Some e" "map_of (rk_leases b) CAP = None" "hex_decode CAP = hex_decode cap" "length CAP = length cap"
    "validResourceCapability cap" "capabilityBelongsToBroker mac b cap" "\<not> rk_closed b"
  shows "ReleaseCapability mac CAP fails b = (b, None, None)"
  using assms by (simp add: ReleaseCapability_def release_begin_def validResourceCapability_def capabilityBelongsToBroker_def)

end
