(* ===== verification/Spec2Isabelle.thy ===== *)
theory Spec2Isabelle
  imports FileJobQueue SqlJobQueue RedisJobClients JobQueueShutdown FileSchedulerRecovery SchedulerFleet SqlSchedulerFleet RedisSchedulerFleet
    SchedulerDynamic CronSearch SubscriptionBuffer FileTransferDelivery ContainerTypes MigrationHistory ResourceBrokerSafety
begin

text \<open>
  A verification library for the core of bridra, the Go package \<open>src/backend/framework\<close>: the durable stores, queues,
  schedulers, transfers and containers that an application of the framework runs on.

  \<^bold>\<open>The program.\<close> An application registers services in a container and migrations in a runner, dispatches jobs to a queue,
  and registers tasks with a scheduler. The queue runs jobs from memory or from a durable store; the scheduler runs tasks by
  interval or cron expression, optionally through a durable store that several processes share. The local durable stores keep
  their state in memory and append every change to an event log, which they replay when they are opened; the others keep it
  in an SQL table or on a Redis server. A subscription buffer keeps the last events for clients that follow them with
  cursors, and a file transfer store hands out uploads and downloads.

  \<^bold>\<open>Conventions.\<close> A fallible call returns \<open>'e + 'a\<close>. A stateful call takes and returns its state as a record with the fields
  of the Go struct; Go maps are association lists (\<open>gomap\<close>). The clock, random bytes and the outcomes of system calls are
  arguments. A critical section of a mutex is one step; an operation with several of them is several definitions and their
  composition. Goroutines are interleavings of such steps, as functions to \<open>option\<close> or as inductive step relations. Go's
  \<open>int\<close> is an integer with \<open>wrap64\<close> where overflow can matter, \<open>uint64\<close> is \<open>64 word\<close>. Identifiers of jobs, reservations and
  files are drawn at random; where a theorem needs them to be fresh it says so.

  \<^bold>\<open>Theories.\<close>
  \<^item> \<open>Prelude\<close>, \<open>GoText\<close>, \<open>GoStrings\<close>, \<open>GoJson\<close>, \<open>GoTime\<close>: the parts of the language and its library that the code uses, with
    the lemmas the components share: maps, UTF-8, hexadecimal and decimal text, the sizes of JSON encodings, the calendar and
    time zones.
  \<^item> \<open>EventLog\<close>: the append-only log of both local stores, and the locale \<open>journaled_store\<close>: what a store must show of its
    replay to be recovered from its log after any run and any crash.
  \<^item> \<open>FileJobStore\<close> (\<open>file_job_store.go\<close>, \<open>job_store.go\<close>), \<open>FileJobRecovery\<close>: the operations of the durable job store; C1
    recovery, C2 crash atomicity, C3 exclusive reservations, C4 and C6 two ways in which the log becomes unreadable.
  \<^item> \<open>JobQueue\<close> (\<open>jobs.go\<close>, \<open>jobs_delayed.go\<close>, \<open>jobs_persistent.go\<close>): handlers, retries and the worker of a durable store;
    C10. \<open>JobStoreContract\<close>: the locale \<open>job_store\<close>, the contract between queue and store, and what workers do over any store
    that keeps it. \<open>FileJobQueue\<close> interprets the contract by the local store: C7 to C9.
  \<^item> \<open>UnixMicro\<close>: the microseconds that SQL and Redis keep of a time.
  \<^item> \<open>SqlDatabase\<close>: the hypothesis \<open>sql_table\<close>, the laws of single statements on a table with a unique key.
    \<open>SqlJobStore\<close> (\<open>sql_job_store.go\<close>), \<open>SqlJobQueue\<close>: the operations and the second interpretation of
    \<open>job_store\<close>; C16 a reservation holds. \<open>SqlSchedulerStore\<close> (\<open>sql_scheduler_store.go\<close>), \<open>SqlSchedulerFleet\<close>: C5 one
    scheduler runs a task at a time, without transactions.
  \<^item> \<open>RedisServer\<close>: the hypothesis \<open>redis_server\<close>, the laws of hashes and sorted sets. \<open>RedisJobStore\<close>
    (\<open>redis_job_store.go\<close>): the scripts and the operations that run them; \<open>RedisJobSafety\<close>: the invariant that every job is
    filed in the one set its record names; \<open>RedisJobClients\<close>: C19 any clients keep it, C27 a reservation holds, C29 the first
    job is handed out. \<open>RedisSchedulerStore\<close> (\<open>redis_scheduler_store.go\<close>), \<open>RedisSchedulerFleet\<close>: C36 a clock between
    microseconds, C37 one scheduler runs a task at a time.
  \<^item> \<open>JobQueueLifecycle\<close>, \<open>JobQueueShutdown\<close>: the queue's goroutines, channels and shutdown; C12 to C15: nothing panics, no
    accepted job is lost or run twice, shutdown completes.
  \<^item> \<open>FileSchedulerStore\<close> (\<open>file_scheduler_store.go\<close>, \<open>scheduler_store.go\<close>), \<open>FileSchedulerRecovery\<close>: the durable store of
    scheduled tasks, the second interpretation of \<open>journaled_store\<close>; C17, C18.
  \<^item> \<open>Scheduler\<close>, \<open>SchedulerFleet\<close> (\<open>scheduler.go\<close>, \<open>scheduler_persistent.go\<close>): registration, and several schedulers on one
    store, over the locale \<open>scheduler_store\<close>, interpreted by the three durable stores; for the local store C20, C21: a task
    is run by one scheduler at a time and an occurrence completed once.
  \<^item> \<open>SchedulerDynamic\<close> (\<open>scheduler_dynamic.go\<close>): handles, triggers, intervals and shutdown of the scheduler's goroutines; C22
    to C25.
  \<^item> \<open>Cron\<close>, \<open>CronSearch\<close> (\<open>scheduler_cron.go\<close>): the parser and the search for the next run; C26, C28, C30.
  \<^item> \<open>SubscriptionBuffer\<close> (\<open>subscription_buffer.go\<close>, \<open>subscription.go\<close>): C31 replay by cursor, as a function of all values
    ever published; C32 delivery in order.
  \<^item> \<open>FileTransfer\<close> (\<open>file_transfer.go\<close>), \<open>FileTransferSafety\<close>, \<open>FileTransferDelivery\<close>: the operations, the invariant of every
    interleaving of calls, by identifier, and what users see: C33 integrity, C34 round trip of uploads, C35 closing, and
    lemmas on expiry under an append and the largest limit.
  \<^item> \<open>Container\<close> (\<open>container.go\<close>), \<open>ContainerSafety\<close>, \<open>ContainerTypes\<close>: registration and resolution of services; C38 types,
    C39 singletons. That resolution ends, also for circular services, is the termination proof of \<open>resolve\<close>.
  \<^item> \<open>Migrations\<close> (\<open>migrations.go\<close>, \<open>database.go\<close>), \<open>MigrationHistory\<close>: runs and rollbacks over an abstract database; C40.
  \<^item> \<open>ResourceBroker\<close> (\<open>resource_broker.go\<close>), \<open>ResourceBrokerSafety\<close>: leases and their capabilities under concurrent grants,
    releases and a close; C11.

  \<^bold>\<open>Bounds and loops.\<close> No definition has fuel. Loops over data are structural recursion or have a measure. The search of a
  cron expression may run for ever and is a \<open>partial_function\<close> whose value \<open>None\<close> is that it does not return: C28 shows that
  in zones of a fixed offset it returns, C30 that in another zone it does not. The rounds of \<open>Reserve\<close> on a server are a list
  of what each round saw, which ends when the context is done. Lua writes numbers of up to fourteen digits in full, so C19
  and C29 hold of jobs with fewer than \<open>10 ^ 14\<close> attempts. Loops of goroutines are steps, and C22 and C24 bound the number of
  them.

  \<^bold>\<open>Parameters.\<close> Handlers, tasks, factories, migrations and the decoding of events are user code and arguments of the
  definitions; so are SHA-256, the parsing of media types, Go's type assertions, the SQL database, the Redis server and the
  migration store. Hypotheses on them say what their documentation says: the digest of the empty file, that assignability to
  an interface type carries over to assertions, that a store keeps the history, that one statement changes the rows its
  condition names, that hashes and sorted sets hold what was put there. Requests may fail before or after they take effect.

  \<^bold>\<open>Not modelled.\<close> The text of SQL statements, their placeholders and the creation of tables; the rate limiter, which
  computes in \<open>float64\<close>; events, router, middleware and validation, which mostly call user code or reflect on Go types;
  configuration, application and providers; servers, authentication and native bridges; the command line, code generation,
  project templates and packaging. Within the components modelled: memory allocation failures, the locks of bindings in
  concurrent resolutions of a container, and failures of \<open>os.Remove\<close>.

  \<^bold>\<open>Plan.\<close> Next: concurrent resolution in the container, where two circular singletons can wait for each other; the semantic
  versions of the command line as a linear order.
\<close>

end
